(* ===== verification/Prelude.thy ===== *)
theory Prelude
  imports Complex_Main "HOL-Library.Sublist"
begin

text \<open>
  Shared vocabulary of the development: the names of the model's basic types,
  the decimal digit helpers used by the date and number renderings, and the
  generic list lemmas the component theories share.
\<close>

section \<open>Types of the model\<close>

text \<open>
  JavaScript numbers are modelled by exact rationals (see the header of the
  root theory for what this leaves out); strings are HOL strings (char lists).
\<close>

type_synonym js_number = rat

named_theorems eval_simps "definitions unfolded when a witness evaluates the model on concrete input"

section \<open>Decimal digits\<close>

definition digit_char :: "nat \<Rightarrow> char" where
  "digit_char d = char_of (48 + d)"

definition digit_val :: "char \<Rightarrow> nat option" where
  "digit_val c = (let k = (of_char c :: nat) in
     if 48 \<le> k \<and> k \<le> 57 then Some (k - 48) else None)"

declare digit_val_def [eval_simps]

text \<open>\<open>pad_digits w n\<close>: the last \<open>w\<close> decimal digits of \<open>n\<close>, zero-padded on the left.\<close>

primrec pad_digits :: "nat \<Rightarrow> nat \<Rightarrow> string" where
  "pad_digits 0 n = []"
| "pad_digits (Suc w) n = pad_digits w (n div 10) @ [digit_char (n mod 10)]"

text \<open>Reading a string of decimal digits, with an accumulator; \<open>None\<close> on a non-digit.\<close>

fun digits_acc :: "nat \<Rightarrow> string \<Rightarrow> nat option" where
  "digits_acc acc [] = Some acc"
| "digits_acc acc (c # cs) =
     (case digit_val c of None \<Rightarrow> None | Some d \<Rightarrow> digits_acc (10 * acc + d) cs)"

definition read_digits :: "string \<Rightarrow> nat option" where
  "read_digits s = (if s = [] then None else digits_acc 0 s)"

section \<open>Lemmas on digits\<close>

lemma digit_char_eval [eval_simps]:
  "digit_char 0 = CHR ''0''" "digit_char 1 = CHR ''1''" "digit_char (Suc 0) = CHR ''1''" "digit_char 2 = CHR ''2''"
  "digit_char 3 = CHR ''3''" "digit_char 4 = CHR ''4''" "digit_char 5 = CHR ''5''"
  "digit_char 6 = CHR ''6''" "digit_char 7 = CHR ''7''" "digit_char 8 = CHR ''8''"
  "digit_char 9 = CHR ''9''"
  by (simp_all add: digit_char_def char_of_def bit_0)

lemma digit_val_digit_char [simp]: "d < 10 \<Longrightarrow> digit_val (digit_char d) = Some d"
  by (simp add: digit_val_def digit_char_def of_char_of)

lemma digit_val_SomeD: "digit_val c = Some d \<Longrightarrow> d < 10 \<and> digit_char d = c"
  by (auto simp: digit_val_def digit_char_def Let_def split: if_splits)

lemma length_pad_digits [simp]: "length (pad_digits w n) = w"
  by (induction w arbitrary: n) auto

lemma pad_digits_numeral [eval_simps]:
  "pad_digits (numeral w) n = pad_digits (pred_numeral w) (n div 10) @ [digit_char (n mod 10)]"
  by (simp only: numeral_eq_Suc [of w] pad_digits.simps(2))

lemma digits_acc_append:
  "digits_acc a (xs @ ys) = (case digits_acc a xs of None \<Rightarrow> None | Some b \<Rightarrow> digits_acc b ys)"
  by (induction a xs rule: digits_acc.induct) (auto split: option.splits)

lemma digits_acc_pad_digits:
  "digits_acc a (pad_digits w n) = Some (a * 10 ^ w + n mod 10 ^ w)"
proof (induction w arbitrary: a n)
  case 0
  then show ?case by simp
next
  case (Suc w)
  have "10 * (a * 10 ^ w + n div 10 mod 10 ^ w) + n mod 10 = a * 10 ^ Suc w + n mod 10 ^ Suc w"
    by (simp add: mod_mult2_eq algebra_simps)
  with Suc show ?case by (simp add: digits_acc_append)
qed

lemma read_digits_pad_digits [simp]:
  "0 < w \<Longrightarrow> read_digits (pad_digits w n) = Some (n mod 10 ^ w)"
  by (simp add: read_digits_def digits_acc_pad_digits) (metis length_pad_digits length_0_conv less_irrefl)

section \<open>Generic list lemmas\<close>

lemma foldl_add_sum_list:
  "foldl (\<lambda>s x. s + f x) (a::'b::comm_monoid_add) xs = a + sum_list (map f xs)"
  by (induction xs arbitrary: a) (simp_all add: add.assoc)

end
