(* ===== verification/Types.thy ===== *)
theory Types
  imports Prelude
begin

text \<open>
  The data of the program: the interfaces and the enum of \<^verbatim>\<open>src/types.ts\<close> as
  records and a datatype, and the constants of \<^verbatim>\<open>src/constants.ts\<close>, among them
  the mobile-number pattern \<^verbatim>\<open>INDIAN_MOBILE_REGEX\<close> as an executable test.
\<close>

section \<open>Interfaces of types.ts\<close>

record user_profile =
  name :: string
  mobile :: string

text \<open>
  \<^verbatim>\<open>Expense.id\<close> is the field \<open>expense_id\<close> (\<open>id\<close> is the identity of HOL).
\<close>

record expense =
  expense_id :: string
  amount :: js_number
  category :: string
  date :: string
  description :: string

text \<open>
  \<^verbatim>\<open>WeeklyData\<close> and \<^verbatim>\<open>MonthlySummary\<close> are only consumed by the dashboard
  component, whose source is not part of the repository; their fields carry a
  prefix so that they do not clash with those of \<open>expense\<close>.
\<close>

record weekly_data =
  wd_day :: string
  wd_amount :: js_number

record monthly_summary =
  ms_month :: string
  ms_total :: js_number
  ms_savings :: js_number

record app_settings =
  weeklyLimit :: js_number
  phoneNumber :: string

datatype app_tab = DASHBOARD | HISTORY | SCANNER | EDITOR | SETTINGS

primrec app_tab_value :: "app_tab \<Rightarrow> string" where
  "app_tab_value DASHBOARD = ''dashboard''"
| "app_tab_value HISTORY = ''history''"
| "app_tab_value SCANNER = ''scanner''"
| "app_tab_value EDITOR = ''editor''"
| "app_tab_value SETTINGS = ''settings''"

text \<open>
  \<^verbatim>\<open>Partial<Expense>\<close>: every field may be absent.
\<close>

record partial_expense =
  p_id :: "string option"
  p_amount :: "js_number option"
  p_category :: "string option"
  p_date :: "string option"
  p_description :: "string option"

section \<open>Constants of constants.ts\<close>

definition DAYS_OF_WEEK :: "string list" where
  "DAYS_OF_WEEK = [''Monday'', ''Tuesday'', ''Wednesday'', ''Thursday'', ''Friday'',
     ''Saturday'', ''Sunday'']"

definition CATEGORIES :: "string list" where
  "CATEGORIES = [''Food'', ''Transport'', ''Utilities'', ''Shopping'', ''Entertainment'',
     ''Health'', ''Other'']"

definition STORAGE_KEY :: string where "STORAGE_KEY = ''spendwise_data_v1''"
definition SETTINGS_KEY :: string where "SETTINGS_KEY = ''spendwise_settings_v1''"
definition USER_KEY :: string where "USER_KEY = ''spendwise_user_v1''"

text \<open>
  \<^verbatim>\<open>/^[6-9]\d{9}$/\<close>: the whole string is a digit from 6 to 9 followed by
  exactly nine decimal digits (\<^verbatim>\<open>\d\<close> without the \<^verbatim>\<open>u\<close> flag is
  \<^verbatim>\<open>[0-9]\<close>).
\<close>

definition is_digit :: "char \<Rightarrow> bool" where
  "is_digit c \<longleftrightarrow> digit_val c \<noteq> None"

definition INDIAN_MOBILE_REGEX_test :: "string \<Rightarrow> bool" where
  "INDIAN_MOBILE_REGEX_test s \<longleftrightarrow>
     (case s of
        [] \<Rightarrow> False
      | c # cs \<Rightarrow> (case digit_val c of Some d \<Rightarrow> 6 \<le> d | None \<Rightarrow> False)
                  \<and> length cs = 9 \<and> list_all is_digit cs)"

declare CATEGORIES_def [eval_simps] INDIAN_MOBILE_REGEX_test_def [eval_simps] is_digit_def [eval_simps]

section \<open>Lemmas\<close>

lemma storage_keys_distinct:
  "STORAGE_KEY \<noteq> SETTINGS_KEY" "STORAGE_KEY \<noteq> USER_KEY" "SETTINGS_KEY \<noteq> USER_KEY"
  by (simp_all add: STORAGE_KEY_def SETTINGS_KEY_def USER_KEY_def)

lemma Other_in_CATEGORIES: "''Other'' \<in> set CATEGORIES"
  by (simp add: CATEGORIES_def)

lemma CATEGORIES_nonempty: "c \<in> set CATEGORIES \<Longrightarrow> c \<noteq> []"
  by (auto simp: CATEGORIES_def)

lemma INDIAN_MOBILE_REGEX_test_length:
  "INDIAN_MOBILE_REGEX_test s \<Longrightarrow> length s = 10"
  by (auto simp: INDIAN_MOBILE_REGEX_test_def split: list.splits)


end
