(* ===== verification/Dates.thy ===== *)
theory Dates
  imports Prelude
begin

text \<open>
  The JavaScript \<^verbatim>\<open>Date\<close> values the program creates and compares, and the
  date-fns functions it calls (\<^verbatim>\<open>parseISO\<close>, \<^verbatim>\<open>subMonths\<close>,
  \<^verbatim>\<open>isAfter\<close>) together with \<^verbatim>\<open>Date.prototype.toISOString\<close>.
  A date is held as its local calendar fields; the local time zone is a fixed
  offset \<open>tz\<close> (milliseconds east of UTC, no daylight saving), so that local
  calendar order is instant order.
\<close>

section \<open>Calendar\<close>

record js_date =
  year :: int
  month :: nat  \<comment> \<open>1 to 12 (JavaScript's \<^verbatim>\<open>getMonth() + 1\<close>)\<close>
  day :: nat    \<comment> \<open>1 to the length of the month\<close>
  msec :: nat   \<comment> \<open>milliseconds since local midnight\<close>

definition day_ms :: nat where "day_ms = 86400000"

definition is_leap_year :: "int \<Rightarrow> bool" where
  "is_leap_year y \<longleftrightarrow> (4 dvd y \<and> \<not> 100 dvd y) \<or> 400 dvd y"

definition days_in_month :: "int \<Rightarrow> nat \<Rightarrow> nat" where
  "days_in_month y m =
     (if m = 2 then (if is_leap_year y then 29 else 28)
      else if m = 4 \<or> m = 6 \<or> m = 9 \<or> m = 11 then 30 else 31)"

definition valid_date :: "js_date \<Rightarrow> bool" where
  "valid_date d \<longleftrightarrow> 1 \<le> month d \<and> month d \<le> 12 \<and> 1 \<le> day d
     \<and> day d \<le> days_in_month (year d) (month d) \<and> msec d < day_ms"

definition next_day :: "js_date \<Rightarrow> js_date" where
  "next_day d =
     (if day d < days_in_month (year d) (month d) then d\<lparr>day := Suc (day d)\<rparr>
      else if month d < 12 then d\<lparr>month := Suc (month d), day := 1\<rparr>
      else d\<lparr>year := year d + 1, month := 1, day := 1\<rparr>)"

definition prev_day :: "js_date \<Rightarrow> js_date" where
  "prev_day d =
     (if 1 < day d then d\<lparr>day := day d - 1\<rparr>
      else if 1 < month d then d\<lparr>month := month d - 1, day := days_in_month (year d) (month d - 1)\<rparr>
      else d\<lparr>year := year d - 1, month := 12, day := 31\<rparr>)"

definition add_days :: "int \<Rightarrow> js_date \<Rightarrow> js_date" where
  "add_days k d = (if 0 \<le> k then (next_day ^^ nat k) d else (prev_day ^^ nat (- k)) d)"

text \<open>Moving a date by a number of milliseconds, carrying into the calendar.\<close>

definition add_msec :: "int \<Rightarrow> js_date \<Rightarrow> js_date" where
  "add_msec delta d =
     (let t = int (msec d) + delta
      in add_days (t div int day_ms) (d\<lparr>msec := nat (t mod int day_ms)\<rparr>))"

section \<open>Order: \<^verbatim>\<open>isAfter\<close>\<close>

definition date_lt :: "js_date \<Rightarrow> js_date \<Rightarrow> bool" where
  "date_lt a b \<longleftrightarrow>
     year a < year b \<or> year a = year b \<and>
       (month a < month b \<or> month a = month b \<and>
         (day a < day b \<or> day a = day b \<and> msec a < msec b))"

text \<open>\<^verbatim>\<open>isAfter(date, dateToCompare)\<close> is \<^verbatim>\<open>date > dateToCompare\<close>.\<close>

definition isAfter :: "js_date \<Rightarrow> js_date \<Rightarrow> bool" where
  "isAfter d c \<longleftrightarrow> date_lt c d"

section \<open>\<^verbatim>\<open>subMonths\<close>\<close>

text \<open>
  date-fns \<^verbatim>\<open>subMonths(date, n)\<close> is \<^verbatim>\<open>addMonths(date, -n)\<close>: it moves to the
  month \<open>n\<close> months earlier, clamps the day of the month to that month's length
  (\<^verbatim>\<open>dayOfMonth >= daysInMonth\<close> gives the end of the month) and keeps the time of day.
\<close>

definition subMonths :: "nat \<Rightarrow> js_date \<Rightarrow> js_date" where
  "subMonths n d =
     (let idx = year d * 12 + (int (month d) - 1) - int n;
          y = idx div 12; m = nat (idx mod 12) + 1
      in d\<lparr>year := y, month := m, day := min (day d) (days_in_month y m)\<rparr>)"

section \<open>\<^verbatim>\<open>toISOString\<close> and \<^verbatim>\<open>split('T')[0]\<close>\<close>

text \<open>
  \<^verbatim>\<open>toISOString\<close> prints the UTC fields of the instant; a year outside 0 to 9999
  is printed with a sign and six digits.
\<close>

definition iso_year :: "int \<Rightarrow> string" where
  "iso_year y =
     (if 0 \<le> y \<and> y \<le> 9999 then pad_digits 4 (nat y)
      else (if y < 0 then ''-'' else ''+'') @ pad_digits 6 (nat \<bar>y\<bar>))"

definition iso_ymd :: "int \<Rightarrow> nat \<Rightarrow> nat \<Rightarrow> string" where
  "iso_ymd y m d = iso_year y @ ''-'' @ pad_digits 2 m @ ''-'' @ pad_digits 2 d"

definition toISOString :: "int \<Rightarrow> js_date \<Rightarrow> string" where
  "toISOString tz d =
     (let u = add_msec (- tz) d; t = msec u
      in iso_ymd (year u) (month u) (day u) @ ''T''
         @ pad_digits 2 (t div 3600000) @ '':'' @ pad_digits 2 (t div 60000 mod 60)
         @ '':'' @ pad_digits 2 (t div 1000 mod 60) @ ''.'' @ pad_digits 3 (t mod 1000) @ ''Z'')"

definition split_T_0 :: "string \<Rightarrow> string" where
  "split_T_0 s = takeWhile (\<lambda>c. c \<noteq> CHR ''T'') s"

section \<open>\<^verbatim>\<open>parseISO\<close>\<close>

text \<open>
  The two shapes of ISO string the program writes: a calendar date
  \<^verbatim>\<open>YYYY-MM-DD\<close> (the date input and \<^verbatim>\<open>split('T')[0]\<close>), read as local
  midnight, and the output of \<^verbatim>\<open>toISOString\<close>,
  \<^verbatim>\<open>YYYY-MM-DDTHH:mm:ss.sssZ\<close>, read as a UTC instant. date-fns checks the
  ranges (\<^verbatim>\<open>validateDate\<close>, \<^verbatim>\<open>validateTime\<close>, where hour 24 is allowed
  only as \<^verbatim>\<open>24:00:00\<close>) and otherwise returns an Invalid Date, here \<open>None\<close>.
\<close>

definition parse_ymd :: "string \<Rightarrow> (int \<times> nat \<times> nat) option" where
  "parse_ymd s =
     (if length s = 10 \<and> s ! 4 = CHR ''-'' \<and> s ! 7 = CHR ''-'' then
        (case (read_digits (take 4 s), read_digits (take 2 (drop 5 s)), read_digits (drop 8 s)) of
           (Some y, Some m, Some d) \<Rightarrow> Some (int y, m, d)
         | _ \<Rightarrow> None)
      else None)"

definition parse_hms :: "string \<Rightarrow> (nat \<times> nat \<times> nat \<times> nat) option" where
  "parse_hms s =
     (if length s = 12 \<and> s ! 2 = CHR '':'' \<and> s ! 5 = CHR '':'' \<and> s ! 8 = CHR ''.'' then
        (case (read_digits (take 2 s), read_digits (take 2 (drop 3 s)),
               read_digits (take 2 (drop 6 s)), read_digits (drop 9 s)) of
           (Some h, Some mi, Some sec, Some ms) \<Rightarrow> Some (h, mi, sec, ms)
         | _ \<Rightarrow> None)
      else None)"

definition validateDate :: "int \<Rightarrow> nat \<Rightarrow> nat \<Rightarrow> bool" where
  "validateDate y m d \<longleftrightarrow> 1 \<le> m \<and> m \<le> 12 \<and> 1 \<le> d \<and> d \<le> days_in_month y m"

definition validateTime :: "nat \<Rightarrow> nat \<Rightarrow> nat \<Rightarrow> nat \<Rightarrow> bool" where
  "validateTime h mi sec ms \<longleftrightarrow>
     (if h = 24 then mi = 0 \<and> sec = 0 \<and> ms = 0 else sec < 60 \<and> mi < 60 \<and> h < 25)"

definition midnight :: "int \<Rightarrow> nat \<Rightarrow> nat \<Rightarrow> js_date" where
  "midnight y m d = \<lparr>year = y, month = m, day = d, msec = 0\<rparr>"

definition parseISO :: "int \<Rightarrow> string \<Rightarrow> js_date option" where
  "parseISO tz s =
     (if length s = 10 then
        (case parse_ymd s of
           Some (y, m, d) \<Rightarrow> if validateDate y m d then Some (midnight y m d) else None
         | None \<Rightarrow> None)
      else if length s = 24 \<and> s ! 10 = CHR ''T'' \<and> s ! 23 = CHR ''Z'' then
        (case (parse_ymd (take 10 s), parse_hms (take 12 (drop 11 s))) of
           (Some (y, m, d), Some (h, mi, sec, ms)) \<Rightarrow>
             if validateDate y m d \<and> validateTime h mi sec ms
             then Some (add_msec (int (h * 3600000 + mi * 60000 + sec * 1000 + ms) + tz)
                          (midnight y m d))
             else None
         | _ \<Rightarrow> None)
      else None)"

declare day_ms_def [eval_simps] is_leap_year_def [eval_simps] days_in_month_def [eval_simps]
  valid_date_def [eval_simps] next_day_def [eval_simps] prev_day_def [eval_simps]
  add_days_def [eval_simps] add_msec_def [eval_simps] date_lt_def [eval_simps]
  isAfter_def [eval_simps] subMonths_def [eval_simps] iso_year_def [eval_simps]
  iso_ymd_def [eval_simps] toISOString_def [eval_simps] split_T_0_def [eval_simps]
  parse_ymd_def [eval_simps] parse_hms_def [eval_simps] validateDate_def [eval_simps]
  validateTime_def [eval_simps] midnight_def [eval_simps] parseISO_def [eval_simps]
  read_digits_def [eval_simps]

section \<open>Lemmas\<close>

subsection \<open>Calendar steps\<close>

lemma days_in_month_bounds: "28 \<le> days_in_month y m" "days_in_month y m \<le> 31"
  by (simp_all add: days_in_month_def)

lemma days_in_month_pos [simp]: "0 < days_in_month y m"
  by (simp add: days_in_month_def)

lemma days_in_month_Dec_Jan [simp]: "days_in_month y 12 = 31" "days_in_month y (Suc 0) = 31"
  by (simp_all add: days_in_month_def)

lemma valid_next_day: "valid_date d \<Longrightarrow> valid_date (next_day d)"
  by (auto simp: valid_date_def next_day_def Suc_le_eq)

lemma valid_prev_day: "valid_date d \<Longrightarrow> valid_date (prev_day d)"
  by (auto simp: valid_date_def prev_day_def Suc_le_eq)

lemma prev_next_day: "valid_date d \<Longrightarrow> prev_day (next_day d) = d"
proof -
  assume v: "valid_date d"
  consider (same) "day d < days_in_month (year d) (month d)"
    | (month) "day d = days_in_month (year d) (month d)" "month d < 12"
    | (year) "day d = 31" "month d = 12"
    using v by (fastforce simp: valid_date_def)
  then show ?thesis
  proof cases
    case same
    with v show ?thesis by (auto simp: next_day_def prev_day_def valid_date_def)
  next
    case month
    with v show ?thesis by (auto simp: next_day_def prev_day_def valid_date_def)
  next
    case year
    with v show ?thesis by (auto simp: next_day_def prev_day_def valid_date_def)
  qed
qed

lemma next_prev_day: "valid_date d \<Longrightarrow> next_day (prev_day d) = d"
proof -
  assume v: "valid_date d"
  consider (same) "1 < day d"
    | (month) "day d = 1" "1 < month d"
    | (year) "day d = 1" "month d = 1"
    using v by (fastforce simp: valid_date_def)
  then show ?thesis
  proof cases
    case same
    with v show ?thesis by (auto simp: next_day_def prev_day_def valid_date_def)
  next
    case month
    with v show ?thesis by (auto simp: next_day_def prev_day_def valid_date_def)
  next
    case year
    with v show ?thesis by (auto simp: next_day_def prev_day_def valid_date_def)
  qed
qed


lemma valid_funpow_next_day: "valid_date d \<Longrightarrow> valid_date ((next_day ^^ n) d)"
  by (induction n) (simp_all add: valid_next_day)

lemma valid_funpow_prev_day: "valid_date d \<Longrightarrow> valid_date ((prev_day ^^ n) d)"
  by (induction n) (simp_all add: valid_prev_day)

lemma valid_add_days: "valid_date d \<Longrightarrow> valid_date (add_days k d)"
  by (simp add: add_days_def valid_funpow_next_day valid_funpow_prev_day)

lemma add_days_next_day:
  assumes v: "valid_date d"
  shows "add_days k (next_day d) = add_days (k + 1) d"
proof (cases "0 \<le> k")
  case True
  then have "nat (k + 1) = Suc (nat k)" by simp
  with True show ?thesis by (simp add: add_days_def funpow_Suc_right del: funpow.simps)
next
  case False
  then have "nat (- k) = Suc (nat (- (k + 1)))" by simp
  with False v show ?thesis
    by (cases "k = -1") (simp_all add: add_days_def funpow_Suc_right prev_next_day del: funpow.simps)
qed

lemma add_days_prev_day:
  assumes v: "valid_date d"
  shows "add_days k (prev_day d) = add_days (k - 1) d"
proof (cases "0 < k")
  case True
  then have "nat k = Suc (nat (k - 1))" by simp
  with True v show ?thesis by (simp add: add_days_def funpow_Suc_right next_prev_day del: funpow.simps)
next
  case False
  then have "nat (- (k - 1)) = Suc (nat (- k))" by simp
  with False show ?thesis
    by (cases "k = 0") (simp_all add: add_days_def funpow_Suc_right del: funpow.simps)
qed

lemma add_days_0 [simp]: "add_days 0 d = d"
  by (simp add: add_days_def)

lemma add_days_add:
  "valid_date d \<Longrightarrow> add_days i (add_days j d) = add_days (i + j) d"
proof (cases "0 \<le> j")
  case True
  assume v: "valid_date d"
  have "\<And>i d. valid_date d \<Longrightarrow> add_days i ((next_day ^^ n) d) = add_days (i + int n) d" for n
  proof (induction n)
    case 0
    then show ?case by simp
  next
    case (Suc n)
    then show ?case
      by (simp add: funpow_Suc_right add_days_next_day valid_next_day algebra_simps del: funpow.simps)
  qed
  with True v show ?thesis by (simp add: add_days_def [of j])
next
  case False
  assume v: "valid_date d"
  have "\<And>i d. valid_date d \<Longrightarrow> add_days i ((prev_day ^^ n) d) = add_days (i - int n) d" for n
  proof (induction n)
    case 0
    then show ?case by simp
  next
    case (Suc n)
    then show ?case
      by (simp add: funpow_Suc_right add_days_prev_day valid_prev_day algebra_simps del: funpow.simps)
  qed
  with False v show ?thesis by (simp add: add_days_def [of j])
qed

lemma next_day_msec_update: "next_day (d\<lparr>msec := m\<rparr>) = (next_day d)\<lparr>msec := m\<rparr>"
  by (simp add: next_day_def)

lemma prev_day_msec_update: "prev_day (d\<lparr>msec := m\<rparr>) = (prev_day d)\<lparr>msec := m\<rparr>"
  by (simp add: prev_day_def)

lemma add_days_msec_update: "add_days k (d\<lparr>msec := m\<rparr>) = (add_days k d)\<lparr>msec := m\<rparr>"
proof -
  have "(next_day ^^ n) (d\<lparr>msec := m\<rparr>) = ((next_day ^^ n) d)\<lparr>msec := m\<rparr>"
   and "(prev_day ^^ n) (d\<lparr>msec := m\<rparr>) = ((prev_day ^^ n) d)\<lparr>msec := m\<rparr>" for n
    by (induction n) (simp_all add: next_day_msec_update prev_day_msec_update)
  then show ?thesis by (simp add: add_days_def)
qed

lemma msec_add_days [simp]: "msec (add_days k d) = msec d"
proof -
  have "msec ((next_day ^^ n) d) = msec d" and "msec ((prev_day ^^ n) d) = msec d" for n
    by (induction n) (simp_all add: next_day_def prev_day_def)
  then show ?thesis by (simp add: add_days_def)
qed

lemma valid_msec_update: "valid_date d \<Longrightarrow> m < day_ms \<Longrightarrow> valid_date (d\<lparr>msec := m\<rparr>)"
  by (simp add: valid_date_def)

lemma day_ms_pos: "0 < int day_ms"
  by (simp add: day_ms_def)

lemma valid_add_msec: "valid_date d \<Longrightarrow> valid_date (add_msec k d)"
proof -
  assume v: "valid_date d"
  have "nat ((int (msec d) + k) mod int day_ms) < day_ms"
    using day_ms_pos by (simp add: nat_less_iff)
  with v show ?thesis
    by (simp add: add_msec_def Let_def valid_add_days valid_msec_update)
qed

lemma msec_add_msec: "msec (add_msec k d) = nat ((int (msec d) + k) mod int day_ms)"
  by (simp add: add_msec_def Let_def)

lemma add_msec_add:
  assumes v: "valid_date d"
  shows "add_msec a (add_msec b d) = add_msec (a + b) d"
proof -
  define D where "D = int day_ms"
  define t where "t = int (msec d) + b"
  have D: "0 < D" using day_ms_pos by (simp add: D_def)
  have t_mod: "0 \<le> t mod D" using D by simp
  have split: "t + a = (t mod D + a) + (t div D) * D"
    by (simp add: algebra_simps)
  have q: "(t + a) div D = (t mod D + a) div D + t div D"
    using D div_mult_self1 [of D "t mod D + a" "t div D"] by (simp only: split)
  have r: "(t + a) mod D = (t mod D + a) mod D"
    using mod_mult_self1 [of "t mod D + a" "t div D" D] by (simp only: split)
  have "add_msec a (add_msec b d)
      = add_days ((t mod D + a) div D) ((add_days (t div D) d)\<lparr>msec := nat ((t mod D + a) mod D)\<rparr>)"
    using t_mod by (simp add: add_msec_def Let_def D_def t_def add_days_msec_update)
  also have "\<dots> = (add_days ((t + a) div D) d)\<lparr>msec := nat ((t + a) mod D)\<rparr>"
    using v by (simp add: add_days_msec_update add_days_add q r)
  also have "\<dots> = add_msec (a + b) d"
    by (simp add: add_msec_def Let_def D_def t_def add_days_msec_update algebra_simps)
  finally show ?thesis .
qed

lemma add_msec_0: "valid_date d \<Longrightarrow> add_msec 0 d = d"
  by (simp add: add_msec_def valid_date_def)

lemma add_msec_cancel: "valid_date d \<Longrightarrow> add_msec a (add_msec (- a) d) = d"
  by (simp add: add_msec_add add_msec_0)

lemma date_lt_irrefl: "\<not> date_lt d d"
  by (simp add: date_lt_def)

lemma date_lt_trans: "date_lt a b \<Longrightarrow> date_lt b c \<Longrightarrow> date_lt a c"
  unfolding date_lt_def by (elim disjE conjE) auto

lemma date_lt_linear: "a \<noteq> b \<Longrightarrow> date_lt a b \<or> date_lt b a"
  for a b :: js_date
  unfolding date_lt_def by (cases a, cases b) auto

lemma month_index_split:
  fixes j y :: int
  assumes "0 \<le> r" "r < 12" "j < y * 12 + r"
  shows "j div 12 < y \<or> j div 12 = y \<and> j mod 12 < r"
proof -
  have j: "j = 12 * (j div 12) + j mod 12" by simp
  have "0 \<le> j mod 12" "j mod 12 < 12" by simp_all
  with assms j show ?thesis by linarith
qed

lemma subMonths_fields:
  fixes d :: js_date and n :: nat
  defines "j \<equiv> year d * 12 + (int (month d) - 1) - int n"
  shows "year (subMonths n d) = j div 12"
    and "month (subMonths n d) = nat (j mod 12) + 1"
    and "day (subMonths n d) = min (day d) (days_in_month (j div 12) (nat (j mod 12) + 1))"
    and "msec (subMonths n d) = msec d"
  by (simp_all add: subMonths_def Let_def j_def)

lemma valid_subMonths: "valid_date d \<Longrightarrow> valid_date (subMonths n d)"
proof -
  assume v: "valid_date d"
  let ?j = "year d * 12 + (int (month d) - 1) - int n"
  have m: "nat (?j mod 12) + 1 \<le> 12"
    by (simp add: nat_le_iff)
  have "1 \<le> min (day d) (days_in_month (?j div 12) (nat (?j mod 12) + 1))"
    using v by (simp add: valid_date_def Suc_le_eq)
  with m v show ?thesis
    unfolding valid_date_def subMonths_fields by simp
qed

lemma subMonths_lt: "valid_date d \<Longrightarrow> 0 < n \<Longrightarrow> date_lt (subMonths n d) d"
proof -
  assume v: "valid_date d" and n: "0 < n"
  let ?j = "year d * 12 + (int (month d) - 1) - int n"
  have r: "0 \<le> int (month d) - 1" "int (month d) - 1 < 12"
    using v by (auto simp: valid_date_def)
  have "?j < year d * 12 + (int (month d) - 1)" using n by simp
  with r have c: "?j div 12 < year d \<or> ?j div 12 = year d \<and> ?j mod 12 < int (month d) - 1"
    by (rule month_index_split)
  have "?j mod 12 < int (month d) - 1 \<Longrightarrow> nat (?j mod 12) + 1 < month d"
    by (simp add: nat_less_iff)
  with c have "year (subMonths n d) < year d
      \<or> year (subMonths n d) = year d \<and> month (subMonths n d) < month d"
    unfolding subMonths_fields by blast
  then show ?thesis
    unfolding date_lt_def by blast
qed

lemma valid_midnight: "validateDate y m d \<Longrightarrow> valid_date (midnight y m d)"
  by (simp add: validateDate_def valid_date_def midnight_def day_ms_def)

text \<open>
  C15: whatever string it is given, \<^verbatim>\<open>parseISO\<close> either reports an invalid date
  or returns a valid calendar date (month 1 to 12, day within the month, time within
  the day).
\<close>

theorem parseISO_valid_date: "parseISO tz s = Some d \<Longrightarrow> valid_date d"
  by (auto simp: parseISO_def valid_midnight valid_add_msec
           split: if_splits option.splits prod.splits)

theorem parseISO_valid_date_witness:
  "parseISO 0 ''2024-02-29'' = Some (midnight 2024 2 29) \<and> valid_date (midnight 2024 2 29)"
proof -
  have p: "parseISO 0 ''2024-02-29'' = Some (midnight 2024 2 29)"
    by (simp add: eval_simps)
  show ?thesis using p parseISO_valid_date [OF p] by simp
qed

lemma digit_char_not_T: "d < 10 \<Longrightarrow> CHR ''T'' \<noteq> digit_char d"
proof
  assume "d < 10" "CHR ''T'' = digit_char d"
  then have "digit_val (CHR ''T'') = Some d" by simp
  then show False by (simp add: digit_val_def)
qed

lemma pad_digits_no_T: "CHR ''T'' \<notin> set (pad_digits w n)"
  by (induction w arbitrary: n) (simp_all add: digit_char_not_T)

lemma iso_year_no_T: "CHR ''T'' \<notin> set (iso_year y)"
  by (simp add: iso_year_def pad_digits_no_T)

lemma iso_ymd_no_T: "CHR ''T'' \<notin> set (iso_ymd y m d)"
  by (simp add: iso_ymd_def iso_year_no_T pad_digits_no_T)

lemma split_T_0_toISOString:
  "split_T_0 (toISOString tz d) =
     (let u = add_msec (- tz) d in iso_ymd (year u) (month u) (day u))"
proof -
  have "\<forall>c\<in>set (iso_ymd y m dd). c \<noteq> CHR ''T''" for y m dd
    using iso_ymd_no_T by metis
  then show ?thesis
    by (simp add: split_T_0_def toISOString_def Let_def)
qed

lemma parse_ymd_iso_ymd:
  assumes "0 \<le> y" "y \<le> 9999"
  shows "parse_ymd (iso_ymd y m d) = Some (y, m mod 100, d mod 100)"
proof -
  have y: "iso_year y = pad_digits 4 (nat y)" using assms by (simp add: iso_year_def)
  have "nat y mod 10000 = nat y" using assms by simp
  with assms show ?thesis
    by (simp add: parse_ymd_def iso_ymd_def y nth_append)
qed

lemma parseISO_iso_ymd:
  assumes "0 \<le> y" "y \<le> 9999" "validateDate y m d"
  shows "parseISO tz (iso_ymd y m d) = Some (midnight y m d)"
proof -
  have "m < 100" "d < 100"
    using assms(3) days_in_month_bounds(2) [of y m]
    by (simp_all add: validateDate_def)
  moreover have "length (iso_ymd y m d) = 10"
    using assms by (simp add: iso_ymd_def iso_year_def)
  ultimately show ?thesis
    using assms by (simp add: parseISO_def parse_ymd_iso_ymd)
qed

text \<open>
  C16: \<^verbatim>\<open>subMonths\<close> of a valid date by a positive number of months is a valid
  date (the day is clamped to the length of the target month) that lies strictly
  before it.
\<close>

theorem subMonths_valid_earlier:
  "valid_date d \<Longrightarrow> 0 < n \<Longrightarrow> valid_date (subMonths n d) \<and> date_lt (subMonths n d) d"
  by (simp add: valid_subMonths subMonths_lt)

theorem subMonths_valid_earlier_witness:
  "valid_date \<lparr>year = 2024, month = 4, day = 30, msec = 5\<rparr>
   \<and> subMonths 2 \<lparr>year = 2024, month = 4, day = 30, msec = 5\<rparr> = \<lparr>year = 2024, month = 2, day = 29, msec = 5\<rparr>
   \<and> valid_date \<lparr>year = 2024, month = 2, day = 29, msec = 5\<rparr>
   \<and> date_lt \<lparr>year = 2024, month = 2, day = 29, msec = 5\<rparr> \<lparr>year = 2024, month = 4, day = 30, msec = 5\<rparr>"
proof -
  have v: "valid_date \<lparr>year = 2024, month = 4, day = 30, msec = 5\<rparr>"
    by (simp add: eval_simps)
  have e: "subMonths 2 \<lparr>year = 2024, month = 4, day = 30, msec = 5\<rparr> = \<lparr>year = 2024, month = 2, day = 29, msec = 5\<rparr>"
    by (simp add: eval_simps)
  show ?thesis
    using v e subMonths_valid_earlier [OF v, of 2] by simp
qed

text \<open>
  C17: a calendar date written as \<^verbatim>\<open>YYYY-MM-DD\<close> (a year from 0 to 9999) is
  read back by \<^verbatim>\<open>parseISO\<close> as that date at local midnight, in every time zone.
\<close>

theorem iso_date_roundtrip:
  assumes "valid_date d" "0 \<le> year d" "year d \<le> 9999"
  shows "parseISO tz (iso_ymd (year d) (month d) (day d)) = Some (d\<lparr>msec := 0\<rparr>)"
proof -
  have "validateDate (year d) (month d) (day d)"
    using assms(1) by (simp add: valid_date_def validateDate_def)
  then have "parseISO tz (iso_ymd (year d) (month d) (day d)) = Some (midnight (year d) (month d) (day d))"
    using assms(2,3) by (rule parseISO_iso_ymd [rotated 2])
  moreover have "midnight (year d) (month d) (day d) = d\<lparr>msec := 0\<rparr>"
    by (cases d) (simp add: midnight_def)
  ultimately show ?thesis by simp
qed

theorem iso_date_roundtrip_witness:
  "valid_date \<lparr>year = 2023, month = 12, day = 31, msec = 1000\<rparr>
   \<and> iso_ymd 2023 12 31 = ''2023-12-31''
   \<and> parseISO 19800000 ''2023-12-31'' = Some \<lparr>year = 2023, month = 12, day = 31, msec = 0\<rparr>"
proof -
  have v: "valid_date \<lparr>year = 2023, month = 12, day = 31, msec = 1000\<rparr>"
    by (simp add: eval_simps)
  have i: "iso_ymd 2023 12 31 = ''2023-12-31''"
    by (simp add: eval_simps)
  show ?thesis
    using v i iso_date_roundtrip [OF v, of 19800000] by simp
qed

end
