(* ===== verification/Numbers.thy ===== *)
theory Numbers
  imports Prelude
begin

text \<open>
  Numbers as text. The program prints numbers in template literals
  (\<^verbatim>\<open>Number::toString\<close>) and reads the two number inputs with
  \<^verbatim>\<open>Number(e.target.value)\<close> (\<^verbatim>\<open>src/App.tsx\<close> lines 216 and 286). This theory
  models the decimal printer \<open>js_num_str\<close>, the grammar of the values a
  \<^verbatim>\<open>type="number"\<close> input reports (the HTML \<^emph>\<open>valid floating-point number\<close>, or the
  empty string), \<open>Number\<close> on those values, and proves that reading a printed
  decimal gives the number back.
\<close>

section \<open>Printing: \<^verbatim>\<open>Number::toString\<close>\<close>

text \<open>
  Sign, integer digits, and the fractional digits up to the last non-zero one. This
  is exact for numbers with at most 20 decimal places, magnitude below \<open>10\<^sup>2\<^sup>1\<close>
  and at least \<open>10\<^sup>-\<^sup>6\<close> (outside that range JavaScript switches to exponent
  notation).
\<close>

fun nat_str :: "nat \<Rightarrow> string" where
  "nat_str n = (if n < 10 then [digit_char n] else nat_str (n div 10) @ [digit_char (n mod 10)])"

fun frac_digits :: "nat \<Rightarrow> nat \<Rightarrow> nat \<Rightarrow> string" where
  "frac_digits 0 r q = []"
| "frac_digits (Suc fuel) r q =
     (if r = 0 then [] else digit_char (10 * r div q) # frac_digits fuel (10 * r mod q) q)"

definition js_num_str :: "js_number \<Rightarrow> string" where
  "js_num_str x =
     (let (p, q) = quotient_of x; n = nat \<bar>p\<bar> div nat q; r = nat \<bar>p\<bar> mod nat q
      in (if p < 0 then ''-'' else []) @ nat_str n @ (if r = 0 then [] else ''.'' @ frac_digits 20 r (nat q)))"

section \<open>Reading: the value of a number input and \<^verbatim>\<open>Number\<close>\<close>

text \<open>
  A number input reports either the empty string or a valid floating-point number:
  an optional \<open>-\<close>, digits, or digits, a full stop and digits, or a full stop and
  digits, then optionally \<open>e\<close> or \<open>E\<close>, an optional sign and digits. The
  mantissa is read by \<open>parse_mantissa\<close>, the exponent by \<open>parse_exponent\<close>.
\<close>

definition parse_mantissa :: "string \<Rightarrow> js_number option" where
  "parse_mantissa s =
     (let ip = takeWhile (\<lambda>c. c \<noteq> CHR ''.'') s; rest = dropWhile (\<lambda>c. c \<noteq> CHR ''.'') s in
      if rest = [] then map_option of_nat (read_digits ip)
      else (case (if ip = [] then Some 0 else read_digits ip, read_digits (tl rest)) of
              (Some n, Some f) \<Rightarrow> Some (of_nat n + of_nat f / 10 ^ length (tl rest))
            | _ \<Rightarrow> None))"

definition parse_exponent :: "string \<Rightarrow> int option" where
  "parse_exponent s =
     (case s of
        [] \<Rightarrow> None
      | c # ds \<Rightarrow>
          if c = CHR ''-'' then map_option (\<lambda>n. - int n) (read_digits ds)
          else if c = CHR ''+'' then map_option int (read_digits ds)
          else map_option int (read_digits s))"

definition is_exp_mark :: "char \<Rightarrow> bool" where
  "is_exp_mark c = (c = CHR ''e'' \<or> c = CHR ''E'')"

definition pow10 :: "int \<Rightarrow> js_number" where
  "pow10 k = (if 0 \<le> k then 10 ^ nat k else 1 / 10 ^ nat (- k))"

definition parse_float :: "string \<Rightarrow> js_number option" where
  "parse_float s =
     (let neg = (s \<noteq> [] \<and> hd s = CHR ''-''); u = (if neg then tl s else s);
          m = takeWhile (\<lambda>c. \<not> is_exp_mark c) u; ex = dropWhile (\<lambda>c. \<not> is_exp_mark c) u
      in case (parse_mantissa m, if ex = [] then Some 0 else parse_exponent (tl ex)) of
           (Some v, Some k) \<Rightarrow> Some ((if neg then - v else v) * pow10 k)
         | _ \<Rightarrow> None)"

text \<open>What the browser lets an input of \<^verbatim>\<open>type="number"\<close> report.\<close>

definition number_input_ok :: "string \<Rightarrow> bool" where
  "number_input_ok v = (v = [] \<or> parse_float v \<noteq> None)"

text \<open>
  \<^verbatim>\<open>Number(v)\<close> on such a value: \<open>Number('') = 0\<close>, and a valid floating-point
  number denotes its decimal value. (\<^verbatim>\<open>Number\<close> yields NaN on other strings; an
  input never reports one, see \<open>number_input_ok\<close>.)
\<close>

definition Number_input :: "string \<Rightarrow> js_number" where
  "Number_input v = (case parse_float v of Some x \<Rightarrow> x | None \<Rightarrow> 0)"

text \<open>
  \<open>frac_rem fuel r q\<close>: the remainder the long division of \<open>r / q\<close> has left
  when \<open>frac_digits\<close> stops.
\<close>

fun frac_rem :: "nat \<Rightarrow> nat \<Rightarrow> nat \<Rightarrow> nat" where
  "frac_rem 0 r q = r"
| "frac_rem (Suc fuel) r q = (if r = 0 then 0 else frac_rem fuel (10 * r mod q) q)"

declare nat_str.simps [simp del]

declare nat_str.simps [eval_simps] js_num_str_def [eval_simps] parse_mantissa_def [eval_simps]
  parse_exponent_def [eval_simps] is_exp_mark_def [eval_simps] pow10_def [eval_simps]
  parse_float_def [eval_simps] number_input_ok_def [eval_simps] Number_input_def [eval_simps]
  read_digits_def [eval_simps]

section \<open>Lemmas: printed digits read back\<close>

lemma frac_digits_numeral [eval_simps]:
  "frac_digits (numeral w) r q =
     (if r = 0 then [] else digit_char (10 * r div q) # frac_digits (pred_numeral w) (10 * r mod q) q)"
  by (simp only: numeral_eq_Suc [of w] frac_digits.simps(2))

lemma frac_rem_numeral [eval_simps]:
  "frac_rem (numeral w) r q = (if r = 0 then 0 else frac_rem (pred_numeral w) (10 * r mod q) q)"
  by (simp only: numeral_eq_Suc [of w] frac_rem.simps(2))

lemma digit_char_not_mark:
  "d < 10 \<Longrightarrow> digit_char d \<noteq> CHR ''.'' \<and> \<not> is_exp_mark (digit_char d) \<and> digit_char d \<noteq> CHR ''-''"
  using digit_val_digit_char [of d]
  by (auto simp: is_exp_mark_def digit_val_def)

lemma nat_str_digits: "c \<in> set (nat_str n) \<Longrightarrow> \<exists>d<10. c = digit_char d"
proof (induction n rule: nat_str.induct)
  case (1 n)
  have "\<exists>d<10. digit_char (n mod 10) = digit_char d"
    by (rule exI [of _ "n mod 10"]) simp
  with 1 show ?case by (subst (asm) nat_str.simps) (auto split: if_splits)
qed

lemma nat_str_nonempty [simp]: "nat_str n \<noteq> []"
  by (subst nat_str.simps) simp

lemma digits_acc_nat_str:
  "digits_acc a (nat_str n) = Some (a * 10 ^ length (nat_str n) + n)"
proof (induction n arbitrary: a rule: nat_str.induct)
  case (1 n)
  show ?case
  proof (cases "n < 10")
    case True
    then show ?thesis by (subst (1 2) nat_str.simps) simp
  next
    case False
    then have "digits_acc a (nat_str n) =
        digits_acc (a * 10 ^ length (nat_str (n div 10)) + n div 10) [digit_char (n mod 10)]"
      using "1.IH" by (subst nat_str.simps) (simp add: digits_acc_append)
    also have "\<dots> = Some (a * 10 ^ length (nat_str n) + n)"
      using False by (subst (2) nat_str.simps) (simp add: algebra_simps)
    finally show ?thesis .
  qed
qed

lemma read_digits_nat_str [simp]: "read_digits (nat_str n) = Some n"
  by (simp add: read_digits_def digits_acc_nat_str)

lemma frac_rem_eq: "0 < q \<Longrightarrow> r < q \<Longrightarrow> frac_rem fuel r q = r * 10 ^ fuel mod q"
proof (induction fuel r q rule: frac_rem.induct)
  case (2 fuel r q)
  show ?case
  proof (cases "r = 0")
    case False
    have "frac_rem (Suc fuel) r q = 10 * r mod q * 10 ^ fuel mod q"
      using False "2.IH" "2.prems" by simp
    also have "\<dots> = 10 * r * 10 ^ fuel mod q"
      by (rule mod_mult_left_eq)
    also have "\<dots> = r * 10 ^ Suc fuel mod q"
      by (simp add: ac_simps)
    finally show ?thesis .
  qed simp
qed simp

lemma frac_digits_digits: "0 < q \<Longrightarrow> r < q \<Longrightarrow> c \<in> set (frac_digits fuel r q) \<Longrightarrow> \<exists>d<10. c = digit_char d"
proof (induction fuel r q rule: frac_digits.induct)
  case (2 fuel r q)
  have "10 * r div q < 10" using "2.prems" by (intro less_mult_imp_div_less) simp
  with 2 show ?case by (auto split: if_splits)
qed simp

lemma digits_acc_frac_digits:
  "0 < q \<Longrightarrow> r < q \<Longrightarrow>
   \<exists>v. digits_acc a (frac_digits fuel r q) = Some v \<and>
       q * v + frac_rem fuel r q = (a * q + r) * 10 ^ length (frac_digits fuel r q)"
proof (induction fuel r q arbitrary: a rule: frac_digits.induct)
  case (2 fuel r q)
  show ?case
  proof (cases "r = 0")
    case False
    let ?d = "10 * r div q" and ?r' = "10 * r mod q"
    have d: "?d < 10" using "2.prems" by (intro less_mult_imp_div_less) simp
    obtain v where v: "digits_acc (10 * a + ?d) (frac_digits fuel ?r' q) = Some v"
      "q * v + frac_rem fuel ?r' q = ((10 * a + ?d) * q + ?r') * 10 ^ length (frac_digits fuel ?r' q)"
      using "2.IH" [OF False _ _, of "10 * a + ?d"] "2.prems" by auto
    have e: "(10 * a + ?d) * q + ?r' = (a * q + r) * 10"
      using div_mult_mod_eq [of "10 * r" q] by (simp add: algebra_simps)
    have "digits_acc a (frac_digits (Suc fuel) r q) = Some v"
      using v(1) d False by simp
    moreover have "q * v + frac_rem (Suc fuel) r q = ((10 * a + ?d) * q + ?r') * 10 ^ length (frac_digits fuel ?r' q)"
      using v(2) False by simp
    then have "q * v + frac_rem (Suc fuel) r q = (a * q + r) * 10 ^ length (frac_digits (Suc fuel) r q)"
      using False by (simp only: e) simp
    ultimately show ?thesis by blast
  qed simp
qed simp


lemma digit_str_marks:
  assumes "\<forall>c\<in>set s. \<exists>d<10. c = digit_char d"
  shows "takeWhile (\<lambda>c. c \<noteq> CHR ''.'') (s @ t) = s @ takeWhile (\<lambda>c. c \<noteq> CHR ''.'') t"
    "dropWhile (\<lambda>c. c \<noteq> CHR ''.'') (s @ t) = dropWhile (\<lambda>c. c \<noteq> CHR ''.'') t"
    "takeWhile (\<lambda>c. \<not> is_exp_mark c) (s @ t) = s @ takeWhile (\<lambda>c. \<not> is_exp_mark c) t"
    "dropWhile (\<lambda>c. \<not> is_exp_mark c) (s @ t) = dropWhile (\<lambda>c. \<not> is_exp_mark c) t"
proof -
  have nd: "c \<noteq> CHR ''.'' \<and> \<not> is_exp_mark c" if c_in: "c \<in> set s" for c
  proof -
    obtain d where d: "d < 10 \<and> c = digit_char d" using bspec [OF assms c_in] by (rule exE)
    show ?thesis
      using digit_char_not_mark [OF conjunct1 [OF d]] unfolding conjunct2 [OF d]
      by (elim conjE) (intro conjI; assumption)
  qed
  show "takeWhile (\<lambda>c. c \<noteq> CHR ''.'') (s @ t) = s @ takeWhile (\<lambda>c. c \<noteq> CHR ''.'') t"
    by (intro takeWhile_append2) (simp add: nd)
  show "dropWhile (\<lambda>c. c \<noteq> CHR ''.'') (s @ t) = dropWhile (\<lambda>c. c \<noteq> CHR ''.'') t"
    by (intro dropWhile_append2) (simp add: nd)
  show "takeWhile (\<lambda>c. \<not> is_exp_mark c) (s @ t) = s @ takeWhile (\<lambda>c. \<not> is_exp_mark c) t"
    by (intro takeWhile_append2) (simp add: nd)
  show "dropWhile (\<lambda>c. \<not> is_exp_mark c) (s @ t) = dropWhile (\<lambda>c. \<not> is_exp_mark c) t"
    by (intro dropWhile_append2) (simp add: nd)
qed

lemma denominator_dvd_pow10:
  assumes "quotient_of x = (p, q)" and "x * 10 ^ k \<in> \<int>"
  shows "q dvd 10 ^ k"
proof -
  have q: "0 < q" and cop: "coprime p q" and x: "x = of_int p / of_int q"
    using quotient_of_denom_pos [OF assms(1)] quotient_of_coprime [OF assms(1)]
      quotient_of_div [OF assms(1)] by auto
  obtain m where "x * 10 ^ k = of_int m" using assms(2) by (auto elim: Ints_cases)
  moreover have "of_int p = x * of_int q" using q x by simp
  ultimately have "of_int (p * 10 ^ k) = (of_int (m * q) :: rat)"
    by (simp add: ac_simps)
  then have "q dvd p * 10 ^ k" unfolding of_int_eq_iff by (metis dvd_triv_right)
  with cop show ?thesis by (simp add: coprime_commute coprime_dvd_mult_right_iff)
qed


lemma parse_float_plain:
  assumes "\<forall>c\<in>set u. \<not> is_exp_mark c" and "parse_mantissa u = Some v"
    and "u \<noteq> []" and "hd u \<noteq> CHR ''-''"
  shows "parse_float u = Some v" "parse_float (CHR ''-'' # u) = Some (- v)"
proof -
  have tw: "takeWhile (\<lambda>c. \<not> is_exp_mark c) u = u" and dw: "dropWhile (\<lambda>c. \<not> is_exp_mark c) u = []"
    using assms(1) by (simp_all add: takeWhile_eq_all_conv dropWhile_eq_Nil_conv)
  show "parse_float u = Some v" "parse_float (CHR ''-'' # u) = Some (- v)"
    using assms(2-4) by (simp_all add: parse_float_def pow10_def Let_def tw dw)
qed

lemma digit_str_no_mark:
  "\<forall>c\<in>set s. \<exists>d<10. c = digit_char d \<Longrightarrow> \<forall>c\<in>set s. \<not> is_exp_mark c"
  using digit_str_marks(3) [of s "[]"] by (simp add: takeWhile_eq_all_conv)

lemma parse_mantissa_decimal:
  assumes "0 < q" and "r < q" and "r * 10 ^ 20 mod q = 0"
  shows "parse_mantissa (nat_str n @ (if r = 0 then [] else ''.'' @ frac_digits 20 r q))
           = Some (of_nat (n * q + r) / of_nat q)"
proof (cases "r = 0")
  case True
  have tw: "takeWhile (\<lambda>c. c \<noteq> CHR ''.'') (nat_str n) = nat_str n"
    and dw: "dropWhile (\<lambda>c. c \<noteq> CHR ''.'') (nat_str n) = []"
    using digit_str_marks(1,2) [of "nat_str n" "[]"] nat_str_digits by auto
  from True assms(1) show ?thesis by (simp add: parse_mantissa_def Let_def tw dw)
next
  case False
  define f where "f = frac_digits 20 r q"
  obtain v where v: "digits_acc 0 f = Some v" "q * v + frac_rem 20 r q = r * 10 ^ length f"
    using digits_acc_frac_digits [OF assms(1,2), of 0 20] by (auto simp: f_def)
  have rem: "frac_rem 20 r q = 0" using frac_rem_eq [OF assms(1,2)] assms(3) by simp
  have f_ne: "f \<noteq> []" using False by (simp add: f_def numeral_eq_Suc)
  have tw: "takeWhile (\<lambda>c. c \<noteq> CHR ''.'') (nat_str n @ CHR ''.'' # f) = nat_str n"
    and dw: "dropWhile (\<lambda>c. c \<noteq> CHR ''.'') (nat_str n @ CHR ''.'' # f) = CHR ''.'' # f"
    using digit_str_marks(1,2) [of "nat_str n" "CHR ''.'' # f"] nat_str_digits by auto
  have "q * v = r * 10 ^ length f" using v(2) rem by simp
  then have "(of_nat (q * v) :: rat) = of_nat (r * 10 ^ length f)" by (simp only:)
  then have "(of_nat v :: rat) * of_nat q = of_nat r * 10 ^ length f" by (simp add: ac_simps)
  then have "of_nat v / 10 ^ length f = (of_nat r / of_nat q :: rat)"
    using assms(1) by (simp add: frac_eq_eq)
  moreover have "read_digits f = Some v" using v(1) f_ne by (simp add: read_digits_def)
  ultimately show ?thesis
    using False assms(1) by (simp add: parse_mantissa_def f_def [symmetric] Let_def add_divide_distrib tw dw)
qed


lemma decimal_str_shape:
  assumes "0 < q" and "r < q" and "u = nat_str n @ (if r = 0 then [] else ''.'' @ frac_digits 20 r q)"
  shows "u \<noteq> [] \<and> hd u \<noteq> CHR ''-'' \<and> (\<forall>c\<in>set u. \<not> is_exp_mark c)"
proof -
  have "\<forall>c\<in>set (frac_digits 20 r q). \<exists>d<10. c = digit_char d"
    by (intro ballI frac_digits_digits) (use assms(1,2) in simp_all)
  then have "\<forall>c\<in>set (frac_digits 20 r q). \<not> is_exp_mark c"
    by (rule digit_str_no_mark)
  moreover have "\<forall>c\<in>set (nat_str n). \<not> is_exp_mark c"
    by (rule digit_str_no_mark, intro ballI nat_str_digits)
  moreover have "hd (nat_str n) \<noteq> CHR ''-''"
  proof -
    obtain d where d: "d < 10 \<and> hd (nat_str n) = digit_char d"
      using nat_str_digits [OF hd_in_set [OF nat_str_nonempty]] by (rule exE)
    show ?thesis
      using digit_char_not_mark [OF conjunct1 [OF d]] unfolding conjunct2 [OF d]
      by (elim conjE)
  qed
  moreover have "\<not> is_exp_mark CHR ''.''" by (simp add: is_exp_mark_def)
  ultimately show ?thesis using assms(3) by auto
qed

lemma parse_float_js_num_str:
  assumes "x * 10 ^ k \<in> \<int>" and "k \<le> 20"
  shows "parse_float (js_num_str x) = Some x"
    and "0 \<le> x \<Longrightarrow> parse_float (CHR ''-'' # js_num_str x) = Some (- x)"
proof -
  obtain p q where qo: "quotient_of x = (p, q)" by (cases "quotient_of x")
  have q: "0 < q" and x: "x = of_int p / of_int q"
    using quotient_of_denom_pos [OF qo] quotient_of_div [OF qo] by auto
  let ?n = "nat \<bar>p\<bar> div nat q" and ?r = "nat \<bar>p\<bar> mod nat q"
  define u where "u = nat_str ?n @ (if ?r = 0 then [] else ''.'' @ frac_digits 20 ?r (nat q))"
  have "q dvd 10 ^ k" using denominator_dvd_pow10 [OF qo assms(1)] .
  then have "int (nat q) dvd int (10 ^ k)" using q by simp
  then have "nat q dvd 10 ^ k" by (simp only: of_nat_dvd_iff)
  then have "nat q dvd 10 ^ 20" using le_imp_power_dvd [OF assms(2)] by (rule dvd_trans)
  then have rem: "?r * 10 ^ 20 mod nat q = 0" by simp
  have rq: "?r < nat q" using q by simp
  have "parse_mantissa u = Some (of_nat (?n * nat q + ?r) / of_nat (nat q))"
    unfolding u_def by (rule parse_mantissa_decimal [OF _ rq rem]) (use q in simp)
  also have "(of_nat (?n * nat q + ?r) :: rat) = of_nat (nat \<bar>p\<bar>)"
    by (simp only: div_mult_mod_eq)
  also have "of_nat (nat \<bar>p\<bar>) / of_nat (nat q) = (of_int \<bar>p\<bar> / of_int q :: rat)"
    using q by simp
  finally have m: "parse_mantissa u = Some (of_int \<bar>p\<bar> / of_int q)" .
  have u: "u \<noteq> []" "hd u \<noteq> CHR ''-''" "\<forall>c\<in>set u. \<not> is_exp_mark c"
    using decimal_str_shape [OF _ rq u_def] q by simp_all
  have s: "js_num_str x = (if p < 0 then ''-'' else []) @ u"
    by (simp add: js_num_str_def qo u_def Let_def)
  show "parse_float (js_num_str x) = Some x"
    using parse_float_plain [OF u(3) m u(1,2)] s x by (auto simp: abs_if)
  assume "0 \<le> x"
  then have "0 \<le> p" using x q by (simp add: zero_le_divide_iff)
  then show "parse_float (CHR ''-'' # js_num_str x) = Some (- x)"
    using parse_float_plain [OF u(3) m u(1,2)] s x by simp
qed

lemma js_num_str_chars:
  "c \<in> set (js_num_str x) \<Longrightarrow> c = CHR ''-'' \<or> c = CHR ''.'' \<or> (\<exists>d<10. c = digit_char d)"
proof -
  assume c: "c \<in> set (js_num_str x)"
  obtain p q where qo: "quotient_of x = (p, q)" by (cases "quotient_of x")
  have q: "0 < nat q" using quotient_of_denom_pos [OF qo] by simp
  have r: "nat \<bar>p\<bar> mod nat q < nat q" using q by simp
  show ?thesis
    using c nat_str_digits [of c] frac_digits_digits [OF q r, of c]
    by (auto simp: js_num_str_def qo Let_def split: if_splits)
qed

lemma frac_digits_more_fuel:
  "frac_rem fuel r q = 0 \<Longrightarrow> frac_digits (fuel + n) r q = frac_digits fuel r q"
proof (induction fuel arbitrary: r)
  case 0
  then show ?case by (cases n) simp_all
next
  case (Suc fuel)
  then show ?case by (cases "r = 0") simp_all
qed

section \<open>Termination of the fraction digits\<close>

text \<open>
  \<open>Number::toString\<close> is modelled with fuel 20 for the long division of the
  fraction. For a fraction whose denominator divides \<open>10\<^sup>k\<close>, \<open>k \<le> fuel\<close>
  (every number with at most \<open>k\<close> decimal places), the division ends within the
  fuel with remainder 0, and more fuel prints the same digits: the fuel is enough.
\<close>

lemma frac_digits_fuel_enough:
  assumes "0 < q" and "r < q" and "q dvd 10 ^ k" and "k \<le> fuel"
  shows "frac_rem fuel r q = 0 \<and> frac_digits (fuel + n) r q = frac_digits fuel r q"
proof -
  have "q dvd 10 ^ fuel" using assms(3) le_imp_power_dvd [OF assms(4)] by (rule dvd_trans)
  then have "frac_rem fuel r q = 0" using frac_rem_eq [OF assms(1,2)] by simp
  then show ?thesis using frac_digits_more_fuel by blast
qed

section \<open>Round trip\<close>

text \<open>
  C20: a number with at most 20 decimal places, printed as JavaScript prints it, is
  a value a number input can hold, and \<^verbatim>\<open>Number\<close> reads it back as the same
  number.
\<close>

theorem js_num_str_roundtrip:
  assumes "x * 10 ^ k \<in> \<int>" and "k \<le> 20"
  shows "number_input_ok (js_num_str x) \<and> Number_input (js_num_str x) = x"
  using parse_float_js_num_str [OF assms] by (simp add: number_input_ok_def Number_input_def)

theorem js_num_str_roundtrip_witness:
  "js_num_str (25 / 2) = ''12.5'' \<and> number_input_ok ''12.5'' \<and> Number_input ''12.5'' = 25 / 2"
proof -
  have "js_num_str (25 / 2) = ''12.5''" by code_simp
  moreover have "(25 / 2 :: rat) * 10 ^ 1 \<in> \<int>" by simp
  ultimately show ?thesis using js_num_str_roundtrip [of "25 / 2" 1] by simp
qed

end
