(* ===== verification/Ledger.thy ===== *)
theory Ledger
  imports Types Dates Numbers
begin

text \<open>
  The expense ledger of \<^verbatim>\<open>src/App.tsx\<close>: the record that \<^verbatim>\<open>addExpense\<close>
  builds from a partial expense, the running total it compares with the weekly
  limit, the alert text, and the two-month retention filter of the load effect.
  These are the pure parts; \<open>App\<close> threads them through the component state.
\<close>

section \<open>JavaScript truthiness\<close>

text \<open>
  \<^verbatim>\<open>x || d\<close> on an optional field: an absent field, the number 0 and the empty
  string are falsy and give the default.
\<close>

definition num_or :: "js_number option \<Rightarrow> js_number \<Rightarrow> js_number" where
  "num_or x dflt = (case x of Some v \<Rightarrow> if v \<noteq> 0 then v else dflt | None \<Rightarrow> dflt)"

definition str_or :: "string option \<Rightarrow> string \<Rightarrow> string" where
  "str_or x dflt = (case x of Some v \<Rightarrow> if v \<noteq> [] then v else dflt | None \<Rightarrow> dflt)"

section \<open>\<^verbatim>\<open>addExpense\<close>: the full record\<close>

text \<open>
  \<^verbatim>\<open>const fullExpense: Expense = {id: crypto.randomUUID(), amount: exp.amount || 0,
  category: exp.category || 'Other', description: exp.description || '',
  date: exp.date || new Date().toISOString()}\<close>. The fresh identifier and the
  current time are inputs of the model (\<open>uuid\<close>, \<open>now_iso\<close>).
\<close>

definition full_expense :: "string \<Rightarrow> string \<Rightarrow> partial_expense \<Rightarrow> expense" where
  "full_expense uuid now_iso pe =
     \<lparr>expense_id = uuid,
      amount = num_or (p_amount pe) 0,
      category = str_or (p_category pe) ''Other'',
      date = str_or (p_date pe) now_iso,
      description = str_or (p_description pe) []\<rparr>"

text \<open>\<^verbatim>\<open>const updatedExpenses = [fullExpense, ...expenses]\<close>.\<close>

definition add_to_ledger :: "expense \<Rightarrow> expense list \<Rightarrow> expense list" where
  "add_to_ledger e xs = e # xs"

section \<open>Limit check\<close>

text \<open>\<^verbatim>\<open>updatedExpenses.reduce((sum, e) => sum + e.amount, 0)\<close>.\<close>

definition currentWeekTotal :: "expense list \<Rightarrow> js_number" where
  "currentWeekTotal xs = foldl (\<lambda>sum e. sum + amount e) 0 xs"

definition rupee_sign :: string where
  "rupee_sign = [char_of (226::nat), char_of (130::nat), char_of (185::nat)]"

text \<open>
  \<^verbatim>\<open>`ALERT: Weekly limit of \<rupee>${settings.weeklyLimit} exceeded! SMS sent to
  ${settings.phoneNumber}`\<close> (the rupee sign as its UTF-8 bytes).
\<close>

definition limit_alert :: "app_settings \<Rightarrow> string" where
  "limit_alert st =
     ''ALERT: Weekly limit of '' @ rupee_sign @ js_num_str (weeklyLimit st)
     @ '' exceeded! SMS sent to '' @ phoneNumber st"

text \<open>
  \<^verbatim>\<open>if (currentWeekTotal > settings.weeklyLimit) { const msg = ...; ... }\<close>: the
  message the check produces, if any.
\<close>

definition check_limit :: "expense list \<Rightarrow> app_settings \<Rightarrow> string option" where
  "check_limit xs st =
     (if currentWeekTotal xs > weeklyLimit st then Some (limit_alert st) else None)"

section \<open>Retention filter of the load effect\<close>

text \<open>
  \<^verbatim>\<open>const twoMonthsAgo = subMonths(new Date(), 2);
  parsed.filter(e => isAfter(parseISO(e.date), twoMonthsAgo))\<close>. An unparsable
  date gives an Invalid Date, for which \<^verbatim>\<open>isAfter\<close> is false.
\<close>

definition retention_cutoff :: "js_date \<Rightarrow> js_date" where
  "retention_cutoff now = subMonths 2 now"

definition keep_entry :: "int \<Rightarrow> js_date \<Rightarrow> expense \<Rightarrow> bool" where
  "keep_entry tz cutoff e =
     (case parseISO tz (date e) of Some d \<Rightarrow> isAfter d cutoff | None \<Rightarrow> False)"

definition keep_recent :: "int \<Rightarrow> js_date \<Rightarrow> expense list \<Rightarrow> expense list" where
  "keep_recent tz now xs = filter (keep_entry tz (retention_cutoff now)) xs"

declare num_or_def [eval_simps] str_or_def [eval_simps]
  full_expense_def [eval_simps] add_to_ledger_def [eval_simps]
  currentWeekTotal_def [eval_simps] rupee_sign_def [eval_simps] limit_alert_def [eval_simps]
  check_limit_def [eval_simps] retention_cutoff_def [eval_simps] keep_entry_def [eval_simps]
  keep_recent_def [eval_simps]

section \<open>Lemmas\<close>

lemma num_or_0: "num_or x 0 = (case x of Some v \<Rightarrow> v | None \<Rightarrow> 0)"
  by (simp add: num_or_def split: option.splits)

lemma str_or_empty: "str_or x [] = (case x of Some v \<Rightarrow> v | None \<Rightarrow> [])"
  by (simp add: str_or_def split: option.splits)

lemma str_or_nonempty: "dflt \<noteq> [] \<Longrightarrow> str_or x dflt \<noteq> []"
  by (simp add: str_or_def split: option.splits)

lemma full_expense_category_nonempty: "category (full_expense uuid now_iso pe) \<noteq> []"
  by (simp add: full_expense_def str_or_nonempty)

lemma currentWeekTotal_add:
  "currentWeekTotal (add_to_ledger e xs) = amount e + currentWeekTotal xs"
  by (simp add: currentWeekTotal_def foldl_add_sum_list add_to_ledger_def)

lemma keep_recent_iff:
  "e \<in> set (keep_recent tz now xs) \<longleftrightarrow>
     e \<in> set xs \<and> (\<exists>d. parseISO tz (date e) = Some d \<and> isAfter d (retention_cutoff now))"
  by (auto simp: keep_recent_def keep_entry_def split: option.splits)

lemma keep_recent_subseq: "subseq (keep_recent tz now xs) xs"
  by (simp add: keep_recent_def)

lemma keep_recent_idem: "keep_recent tz now (keep_recent tz now xs) = keep_recent tz now xs"
  by (simp add: keep_recent_def)

lemma retention_cutoff_before: "valid_date now \<Longrightarrow> date_lt (retention_cutoff now) now"
  by (simp add: retention_cutoff_def subMonths_lt)

lemma distinct_ids_add:
  "distinct (map expense_id xs) \<Longrightarrow> uuid \<notin> expense_id ` set xs \<Longrightarrow>
   distinct (map expense_id (add_to_ledger (full_expense uuid now_iso pe) xs))"
  by (simp add: add_to_ledger_def full_expense_def)

lemma distinct_ids_keep_recent:
  "distinct (map expense_id xs) \<Longrightarrow> distinct (map expense_id (keep_recent tz now xs))"
  by (simp add: keep_recent_def distinct_map_filter)

text \<open>
  C2: every expense that survives the load filter has a date that parses and lies
  strictly after the cutoff, and the cutoff lies strictly before the current time;
  expenses whose date does not parse are dropped.
\<close>

theorem keep_recent_after_cutoff:
  assumes "valid_date now" and "e \<in> set (keep_recent tz now xs)"
  shows "(\<exists>d. parseISO tz (date e) = Some d \<and> date_lt (subMonths 2 now) d)
         \<and> date_lt (subMonths 2 now) now"
  using assms retention_cutoff_before [of now]
  by (auto simp: keep_recent_def keep_entry_def isAfter_def retention_cutoff_def
           split: option.splits)

theorem keep_recent_after_cutoff_witness:
  "valid_date \<lparr>year = 2024, month = 5, day = 10, msec = 7200000\<rparr>
   \<and> \<lparr>expense_id = ''e1'', amount = 250, category = ''Food'', date = ''2024-05-01'', description = []\<rparr>
       \<in> set (keep_recent 19800000 \<lparr>year = 2024, month = 5, day = 10, msec = 7200000\<rparr>
            [\<lparr>expense_id = ''e1'', amount = 250, category = ''Food'', date = ''2024-05-01'', description = []\<rparr>,
             \<lparr>expense_id = ''e2'', amount = 90, category = ''Other'', date = ''2024-01-01'', description = []\<rparr>])
   \<and> parseISO 19800000 ''2024-05-01'' = Some (midnight 2024 5 1)
   \<and> date_lt (subMonths 2 \<lparr>year = 2024, month = 5, day = 10, msec = 7200000\<rparr>) (midnight 2024 5 1)"
proof -
  let ?now = "\<lparr>year = 2024, month = 5, day = 10, msec = 7200000\<rparr>"
  let ?e = "\<lparr>expense_id = ''e1'', amount = 250, category = ''Food'', date = ''2024-05-01'', description = []\<rparr>"
  let ?xs = "[?e, \<lparr>expense_id = ''e2'', amount = 90, category = ''Other'', date = ''2024-01-01'', description = []\<rparr>]"
  have v: "valid_date ?now" by (simp add: eval_simps)
  have m: "?e \<in> set (keep_recent 19800000 ?now ?xs)" by (simp add: eval_simps)
  have p: "parseISO 19800000 ''2024-05-01'' = Some (midnight 2024 5 1)" by (simp add: eval_simps)
  show ?thesis
    using v m p keep_recent_after_cutoff [OF v m] by simp
qed

text \<open>
  The retention cutoff is not monotone in time. Two months before
  29 April 23:00 is 29 February 23:00, two months before 30 April 01:00 is
  29 February 01:00 (the day is clamped to February's length). An expense timestamped
  29 February 12:00 UTC is dropped by a load on the evening of the 29th and kept by a
  load two hours later.
\<close>

lemma retention_cutoff_not_monotone:
  "date_lt \<lparr>year = 2024, month = 4, day = 29, msec = 82800000\<rparr> \<lparr>year = 2024, month = 4, day = 30, msec = 3600000\<rparr>
   \<and> keep_recent 0 \<lparr>year = 2024, month = 4, day = 29, msec = 82800000\<rparr>
       [\<lparr>expense_id = ''e1'', amount = 40, category = ''Food'', date = ''2024-02-29T12:00:00.000Z'', description = []\<rparr>] = []
   \<and> keep_recent 0 \<lparr>year = 2024, month = 4, day = 30, msec = 3600000\<rparr>
       [\<lparr>expense_id = ''e1'', amount = 40, category = ''Food'', date = ''2024-02-29T12:00:00.000Z'', description = []\<rparr>]
     = [\<lparr>expense_id = ''e1'', amount = 40, category = ''Food'', date = ''2024-02-29T12:00:00.000Z'', description = []\<rparr>]"
  by (simp add: eval_simps)

end
