(* ===== verification/App.thy ===== *)
theory App
  imports Ledger
begin

text \<open>
  The component \<^verbatim>\<open>App\<close> of \<^verbatim>\<open>src/App.tsx\<close> as a state machine. Its
  \<^verbatim>\<open>useState\<close> hooks form the record \<open>app_state\<close>; a handler does not change
  the state but queues setter calls (\<open>update\<close>) computed from the state of the
  render it was created in; React applies the queue in order and then runs the save
  effect if one of its dependencies changed. \<^verbatim>\<open>localStorage\<close> holds the three
  keys of \<^verbatim>\<open>constants.ts\<close>. The environment supplies, for each event, the
  current time, the time zone and the value of \<^verbatim>\<open>crypto.randomUUID()\<close> (\<open>ctx\<close>).
\<close>

section \<open>State\<close>

record ctx =
  now :: js_date
  tz :: int
  uuid :: string

record app_state =
  user :: "user_profile option"
  expenses :: "expense list"
  settings :: app_settings
  activeTab :: app_tab
  showAddForm :: bool
  newExpense :: partial_expense
  notifications :: "string list"

definition default_settings :: app_settings where
  "default_settings = \<lparr>weeklyLimit = 5000, phoneNumber = []\<rparr>"

text \<open>
  \<^verbatim>\<open>{amount: 0, category: 'Other', description: '',
  date: new Date().toISOString().split('T')[0]}\<close>, the blank form (lines 29-34 and 103-108).
\<close>

definition blank_new_expense :: "ctx \<Rightarrow> partial_expense" where
  "blank_new_expense c =
     \<lparr>p_id = None, p_amount = Some 0, p_category = Some ''Other'',
      p_date = Some (split_T_0 (toISOString (tz c) (now c))), p_description = Some []\<rparr>"

definition initial_state :: "ctx \<Rightarrow> app_state" where
  "initial_state c =
     \<lparr>user = None, expenses = [], settings = default_settings, activeTab = DASHBOARD,
      showAddForm = False, newExpense = blank_new_expense c, notifications = []\<rparr>"

section \<open>Queued state updates\<close>

text \<open>
  A setter called with a value, or with a function of the previous value
  (\<^verbatim>\<open>setSettings(prev => ...)\<close>, \<^verbatim>\<open>setNotifications(prev => ...)\<close>).
\<close>

datatype update =
    SetUser "user_profile option"
  | SetExpenses "expense list"
  | SetSettings app_settings
  | UpdSettings "app_settings \<Rightarrow> app_settings"
  | SetActiveTab app_tab
  | SetShowAddForm bool
  | SetNewExpense partial_expense
  | SetNotifications "string list"
  | UpdNotifications "string list \<Rightarrow> string list"

primrec apply_update :: "app_state \<Rightarrow> update \<Rightarrow> app_state" where
  "apply_update s (SetUser u) = s\<lparr>user := u\<rparr>"
| "apply_update s (SetExpenses xs) = s\<lparr>expenses := xs\<rparr>"
| "apply_update s (SetSettings v) = s\<lparr>settings := v\<rparr>"
| "apply_update s (UpdSettings f) = s\<lparr>settings := f (settings s)\<rparr>"
| "apply_update s (SetActiveTab t) = s\<lparr>activeTab := t\<rparr>"
| "apply_update s (SetShowAddForm b) = s\<lparr>showAddForm := b\<rparr>"
| "apply_update s (SetNewExpense p) = s\<lparr>newExpense := p\<rparr>"
| "apply_update s (SetNotifications ns) = s\<lparr>notifications := ns\<rparr>"
| "apply_update s (UpdNotifications f) = s\<lparr>notifications := f (notifications s)\<rparr>"

definition commit :: "app_state \<Rightarrow> update list \<Rightarrow> app_state" where
  "commit s ups = foldl apply_update s ups"

section \<open>Local storage\<close>

text \<open>
  A key is absent, holds the JSON text the program wrote for a value (\<open>Written\<close>;
  \<^verbatim>\<open>JSON.parse\<close> gives the value back), or holds other text that is not JSON
  (\<open>Garbage\<close>), on which \<^verbatim>\<open>JSON.parse\<close> throws unless it is the empty string,
  which the \<^verbatim>\<open>if (stored)\<close> tests skip.
\<close>

datatype 'a slot = Absent | Written 'a | Garbage string

record storage =
  user_slot :: "user_profile slot"      \<comment> \<open>\<^verbatim>\<open>USER_KEY\<close>\<close>
  data_slot :: "expense list slot"      \<comment> \<open>\<^verbatim>\<open>STORAGE_KEY\<close>\<close>
  settings_slot :: "app_settings slot"  \<comment> \<open>\<^verbatim>\<open>SETTINGS_KEY\<close>\<close>

definition empty_storage :: storage where
  "empty_storage = \<lparr>user_slot = Absent, data_slot = Absent, settings_slot = Absent\<rparr>"

datatype js_error = JSONSyntaxError string

text \<open>\<^verbatim>\<open>const v = localStorage.getItem(k); if (v) { ... JSON.parse(v) ... }\<close>\<close>

definition read_slot :: "'a slot \<Rightarrow> js_error + 'a option" where
  "read_slot sl =
     (case sl of
        Absent \<Rightarrow> Inr None
      | Written v \<Rightarrow> Inr (Some v)
      | Garbage t \<Rightarrow> if t = [] then Inr None else Inl (JSONSyntaxError t))"

section \<open>Effects\<close>

text \<open>
  The load effect (lines 38-58): the three keys are read, then parsed in the order
  user, expenses, settings; a throwing \<^verbatim>\<open>JSON.parse\<close> aborts the effect.
\<close>

definition load_effect :: "ctx \<Rightarrow> storage \<Rightarrow> js_error + update list" where
  "load_effect c st =
     (case read_slot (user_slot st) of
        Inl e \<Rightarrow> Inl e
      | Inr u \<Rightarrow>
          (case read_slot (data_slot st) of
             Inl e \<Rightarrow> Inl e
           | Inr xs \<Rightarrow>
               (case read_slot (settings_slot st) of
                  Inl e \<Rightarrow> Inl e
                | Inr v \<Rightarrow>
                    Inr ((case u of Some p \<Rightarrow> [SetUser (Some p)] | None \<Rightarrow> [])
                       @ (case xs of
                            Some parsed \<Rightarrow> [SetExpenses (keep_recent (tz c) (now c) parsed)]
                          | None \<Rightarrow> [])
                       @ (case v of Some x \<Rightarrow> [SetSettings x] | None \<Rightarrow> [])))))"

text \<open>The save effect (lines 61-65), on the dependencies \<^verbatim>\<open>[expenses, settings, user]\<close>.\<close>

definition save_effect :: "app_state \<Rightarrow> storage \<Rightarrow> storage" where
  "save_effect s st =
     st\<lparr>user_slot := (case user s of Some u \<Rightarrow> Written u | None \<Rightarrow> user_slot st),
        data_slot := Written (expenses s),
        settings_slot := Written (settings s)\<rparr>"

definition save_deps :: "app_state \<Rightarrow> expense list \<times> app_settings \<times> user_profile option" where
  "save_deps s = (expenses s, settings s, user s)"

text \<open>A re-render after a batch of updates, with the save effect when its dependencies changed.\<close>

definition render_commit :: "app_state \<Rightarrow> update list \<Rightarrow> storage \<Rightarrow> app_state \<times> storage" where
  "render_commit s ups st =
     (let s' = commit s ups
      in (s', if save_deps s' \<noteq> save_deps s then save_effect s' st else st))"

text \<open>
  Mounting: the first render from the initial state, then the load effect (reading
  the storage as it is), then the save effect of the first render (it always runs
  on mount), then the re-render with the loaded values.
\<close>

definition mount :: "ctx \<Rightarrow> storage \<Rightarrow> js_error + app_state \<times> storage" where
  "mount c st =
     (let s0 = initial_state c
      in case load_effect c st of
           Inl e \<Rightarrow> Inl e
         | Inr ups \<Rightarrow> Inr (render_commit s0 ups (save_effect s0 st)))"

section \<open>Handlers\<close>

text \<open>
  \<^verbatim>\<open>handleRegister\<close> (lines 67-70), called by the registration form once the
  mobile number matches \<^verbatim>\<open>INDIAN_MOBILE_REGEX\<close>; on a mismatch the form keeps
  the user on the registration view and calls nothing.
\<close>

definition handleRegister :: "user_profile \<Rightarrow> update list" where
  "handleRegister p =
     [SetUser (Some p), UpdSettings (\<lambda>prev. prev\<lparr>phoneNumber := ''+91 '' @ mobile p\<rparr>)]"

definition registration_submit :: "user_profile \<Rightarrow> update list" where
  "registration_submit p = (if INDIAN_MOBILE_REGEX_test (mobile p) then handleRegister p else [])"

text \<open>
  \<^verbatim>\<open>addExpense\<close> (lines 72-98): the new ledger is built from the
  \<^verbatim>\<open>expenses\<close> and \<^verbatim>\<open>settings\<close> of the render the handler belongs to.
\<close>

definition addExpense :: "ctx \<Rightarrow> app_state \<Rightarrow> partial_expense \<Rightarrow> update list" where
  "addExpense c s pe =
     (let fe = full_expense (uuid c) (toISOString (tz c) (now c)) pe;
          updated = add_to_ledger fe (expenses s)
      in [SetExpenses updated]
         @ (case check_limit updated (settings s) of
              Some msg \<Rightarrow> [UpdNotifications (\<lambda>prev. msg # prev)]
            | None \<Rightarrow> [])
         @ [SetShowAddForm False, SetActiveTab DASHBOARD])"

text \<open>\<^verbatim>\<open>handleManualAdd\<close> (lines 100-109).\<close>

definition handleManualAdd :: "ctx \<Rightarrow> app_state \<Rightarrow> update list" where
  "handleManualAdd c s = addExpense c s (newExpense s) @ [SetNewExpense (blank_new_expense c)]"

section \<open>Events\<close>

text \<open>
  What the rendered page lets the user (or a mounted child component) do: submit
  the registration form, the bill scanner's \<^verbatim>\<open>onExpenseExtracted\<close>, submit and
  edit the add-expense form, the navigation buttons, the floating add button,
  the settings inputs, dismissing the alert, the reset button, and reloading the page.
\<close>

datatype event =
    Register user_profile
  | AddExpense partial_expense
  | SubmitManualAdd
  | NavTo app_tab
  | OpenAddForm
  | CancelAddForm
  | EditAmount string
  | EditCategory string
  | EditDescription string
  | EditDate string
  | EditWeeklyLimit string
  | DismissNotifications
  | ResetApp
  | Reload

fun handle :: "ctx \<Rightarrow> app_state \<Rightarrow> event \<Rightarrow> update list" where
  "handle c s (Register p) = registration_submit p"
| "handle c s (AddExpense pe) = addExpense c s pe"
| "handle c s SubmitManualAdd = handleManualAdd c s"
| "handle c s (NavTo t) = [SetActiveTab t]"
| "handle c s OpenAddForm = [SetShowAddForm True]"
| "handle c s CancelAddForm = [SetShowAddForm False]"
| "handle c s (EditAmount v) = [SetNewExpense (newExpense s\<lparr>p_amount := Some (Number_input v)\<rparr>)]"
| "handle c s (EditCategory v) = [SetNewExpense (newExpense s\<lparr>p_category := Some v\<rparr>)]"
| "handle c s (EditDescription v) = [SetNewExpense (newExpense s\<lparr>p_description := Some v\<rparr>)]"
| "handle c s (EditDate v) = [SetNewExpense (newExpense s\<lparr>p_date := Some v\<rparr>)]"
| "handle c s (EditWeeklyLimit v) = [SetSettings (settings s\<lparr>weeklyLimit := Number_input v\<rparr>)]"
| "handle c s DismissNotifications = [SetNotifications []]"
| "handle c s ResetApp = []"
| "handle c s Reload = []"

text \<open>
  The amount input shows \<^verbatim>\<open>newExpense.amount || ''\<close>: the number as
  \<^verbatim>\<open>String\<close> prints it, or the empty string for 0 and for an absent amount.
\<close>

definition amount_field_text :: "js_number option \<Rightarrow> string" where
  "amount_field_text a = (case a of Some v \<Rightarrow> if v \<noteq> 0 then js_num_str v else [] | None \<Rightarrow> [])"

text \<open>
  The browser's constraint validation of that input before the form submits:
  \<^verbatim>\<open>required\<close> rejects the empty value, \<^verbatim>\<open>step="0.01"\<close> (step base 0, there
  is no \<^verbatim>\<open>min\<close>) rejects a value that is not a multiple of 0.01. A date input
  holds the empty string or a valid \<^verbatim>\<open>yyyy-mm-dd\<close>.
\<close>

definition step_ok :: "js_number \<Rightarrow> bool" where
  "step_ok v = (of_int \<lfloor>v * 100\<rfloor> = v * 100)"

definition amount_field_valid :: "js_number option \<Rightarrow> bool" where
  "amount_field_valid a =
     (let t = amount_field_text a in t \<noteq> [] \<and> step_ok (Number_input t))"

definition date_field_valid :: "int \<Rightarrow> string \<Rightarrow> bool" where
  "date_field_valid z v = (v = [] \<or> length v = 10 \<and> parseISO z v \<noteq> None)"

text \<open>
  Which events the rendered page offers: only the registration form while there is
  no user (line 123); the add-expense overlay covers the page while it is shown; the
  scanner is mounted on its tab, the settings inputs and the reset button on theirs,
  the floating add button on every tab but the editor, the dismiss button while
  there is a notification. Reloading is always possible.
\<close>

definition enabled :: "ctx \<Rightarrow> app_state \<Rightarrow> event \<Rightarrow> bool" where
  "enabled c s ev =
     (case user s of
        None \<Rightarrow> (case ev of Register _ \<Rightarrow> True | Reload \<Rightarrow> True | _ \<Rightarrow> False)
      | Some _ \<Rightarrow>
          (case ev of
             Register _ \<Rightarrow> False
           | AddExpense _ \<Rightarrow> activeTab s = SCANNER
           | SubmitManualAdd \<Rightarrow> showAddForm s \<and> amount_field_valid (p_amount (newExpense s))
           | NavTo _ \<Rightarrow> \<not> showAddForm s
           | OpenAddForm \<Rightarrow> \<not> showAddForm s \<and> activeTab s \<noteq> EDITOR
           | CancelAddForm \<Rightarrow> showAddForm s
           | EditAmount v \<Rightarrow> showAddForm s \<and> number_input_ok v
           | EditCategory v \<Rightarrow> showAddForm s \<and> v \<in> set CATEGORIES
           | EditDescription _ \<Rightarrow> showAddForm s
           | EditDate v \<Rightarrow> showAddForm s \<and> date_field_valid (tz c) v
           | EditWeeklyLimit v \<Rightarrow> \<not> showAddForm s \<and> activeTab s = SETTINGS \<and> number_input_ok v
           | DismissNotifications \<Rightarrow> \<not> showAddForm s \<and> notifications s \<noteq> []
           | ResetApp \<Rightarrow> \<not> showAddForm s \<and> activeTab s = SETTINGS
           | Reload \<Rightarrow> True))"

section \<open>Steps and reachable states\<close>

text \<open>
  One event: the handler's updates are committed and the save effect runs; the
  reset button clears the storage (\<^verbatim>\<open>localStorage.clear()\<close>) and reloads,
  which mounts the component afresh on the cleared storage.
\<close>

definition app_step :: "ctx \<Rightarrow> app_state \<times> storage \<Rightarrow> event \<Rightarrow> js_error + app_state \<times> storage" where
  "app_step c w ev =
     (case ev of
        ResetApp \<Rightarrow> mount c empty_storage
      | Reload \<Rightarrow> mount c (snd w)
      | _ \<Rightarrow> Inr (render_commit (fst w) (handle c (fst w) ev) (snd w)))"

text \<open>
  The states of a run from a fresh install. \<^verbatim>\<open>crypto.randomUUID()\<close> is taken to
  return an identifier that no expense of the ledger carries.
\<close>

inductive reachable :: "app_state \<times> storage \<Rightarrow> bool" where
  install: "mount c empty_storage = Inr w \<Longrightarrow> reachable w"
| step: "reachable w \<Longrightarrow> enabled c (fst w) ev \<Longrightarrow> uuid c \<notin> expense_id ` set (expenses (fst w))
    \<Longrightarrow> app_step c w ev = Inr w' \<Longrightarrow> reachable w'"

declare default_settings_def [eval_simps] blank_new_expense_def [eval_simps]
  initial_state_def [eval_simps] commit_def [eval_simps] empty_storage_def [eval_simps]
  read_slot_def [eval_simps] load_effect_def [eval_simps] save_effect_def [eval_simps]
  save_deps_def [eval_simps] render_commit_def [eval_simps] mount_def [eval_simps]
  handleRegister_def [eval_simps] registration_submit_def [eval_simps] addExpense_def [eval_simps]
  handleManualAdd_def [eval_simps] amount_field_text_def [eval_simps]
  amount_field_valid_def [eval_simps]
  date_field_valid_def [eval_simps] enabled_def [eval_simps] app_step_def [eval_simps]

section \<open>Lemmas\<close>

lemma step_ok_Ints [eval_simps]: "step_ok v = (v * 100 \<in> \<int>)"
  unfolding step_ok_def by (metis Ints_of_int floor_of_int of_int_floor)

lemma amount_field_text_roundtrip:
  assumes "v * 10 ^ k \<in> \<int>" and "k \<le> 20"
  shows "Number_input (amount_field_text (Some v)) = v"
proof (cases "v = 0")
  case True
  then show ?thesis by (simp add: amount_field_text_def eval_simps)
next
  case False
  then show ?thesis
    using parse_float_js_num_str [OF assms] by (simp add: amount_field_text_def Number_input_def)
qed

lemma js_num_str_nonempty: "js_num_str v \<noteq> []"
  by (simp add: js_num_str_def Let_def split: prod.splits)

lemma weeklyLimit_update_same [simp]: "(r\<lparr>weeklyLimit := x\<rparr> = r) = (x = weeklyLimit r)"
  by (cases r) auto

lemma commit_Nil [simp]: "commit s [] = s"
  by (simp add: commit_def)

lemma commit_Cons [simp]: "commit s (u # us) = commit (apply_update s u) us"
  by (simp add: commit_def)

lemma commit_append: "commit s (xs @ ys) = commit (commit s xs) ys"
  by (simp add: commit_def)

lemma addExpense_commit:
  "commit s (addExpense c s pe) =
     (let fe = full_expense (uuid c) (toISOString (tz c) (now c)) pe;
          updated = fe # expenses s
      in s\<lparr>expenses := updated,
           notifications := (case check_limit updated (settings s) of
                               Some msg \<Rightarrow> msg # notifications s | None \<Rightarrow> notifications s),
           showAddForm := False, activeTab := DASHBOARD\<rparr>)"
  by (simp add: addExpense_def Let_def add_to_ledger_def commit_append split: option.splits)

lemmas handler_defs = handleManualAdd_def registration_submit_def handleRegister_def
  commit_append Let_def addExpense_commit

lemma handle_keeps_user:
  "user s \<noteq> None \<Longrightarrow> user (commit s (handle c s ev)) \<noteq> None"
  by (cases ev) (simp_all add: handler_defs)

lemma fst_render_commit [simp]: "fst (render_commit s ups st) = commit s ups"
  by (simp add: render_commit_def Let_def)

text \<open>
  C1: adding an expense (the scanner's \<^verbatim>\<open>onExpenseExtracted\<close>) puts the new
  record at the front of the ledger, prepends the alert to the notifications exactly
  when the limit check fires on the new ledger, closes the form, shows the dashboard,
  and writes the whole state to storage.
\<close>

theorem add_expense_step:
  "app_step c (s, st) (AddExpense pe) =
     (let fe = full_expense (uuid c) (toISOString (tz c) (now c)) pe;
          xs = fe # expenses s;
          s' = s\<lparr>expenses := xs,
                 notifications := (case check_limit xs (settings s) of
                                     Some msg \<Rightarrow> msg # notifications s | None \<Rightarrow> notifications s),
                 showAddForm := False, activeTab := DASHBOARD\<rparr>
      in Inr (s', save_effect s' st))"
  by (simp add: app_step_def addExpense_def add_to_ledger_def commit_append render_commit_def
                save_deps_def Let_def split: option.splits)

theorem add_expense_step_witness:
  "\<exists>s'. app_step \<lparr>now = \<lparr>year = 2024, month = 5, day = 10, msec = 7200000\<rparr>, tz = 19800000, uuid = ''u1''\<rparr>
     (\<lparr>user = Some \<lparr>name = ''Asha'', mobile = ''9876543210''\<rparr>, expenses = [],
       settings = \<lparr>weeklyLimit = 5000, phoneNumber = ''+91 9876543210''\<rparr>, activeTab = SCANNER,
       showAddForm = False, newExpense = \<lparr>p_id = None, p_amount = None, p_category = None, p_date = None, p_description = None\<rparr>,
       notifications = []\<rparr>, empty_storage)
     (AddExpense \<lparr>p_id = None, p_amount = Some 6000, p_category = Some ''Food'', p_date = None, p_description = None\<rparr>)
   = Inr (s', save_effect s' empty_storage)
   \<and> notifications s' = [''ALERT: Weekly limit of '' @ rupee_sign @ ''5000 exceeded! SMS sent to +91 9876543210'']
   \<and> map amount (expenses s') = [6000] \<and> map category (expenses s') = [''Food''] \<and> activeTab s' = DASHBOARD"
  using add_expense_step [of "\<lparr>now = \<lparr>year = 2024, month = 5, day = 10, msec = 7200000\<rparr>, tz = 19800000, uuid = ''u1''\<rparr>"
      "\<lparr>user = Some \<lparr>name = ''Asha'', mobile = ''9876543210''\<rparr>, expenses = [],
       settings = \<lparr>weeklyLimit = 5000, phoneNumber = ''+91 9876543210''\<rparr>, activeTab = SCANNER,
       showAddForm = False, newExpense = \<lparr>p_id = None, p_amount = None, p_category = None, p_date = None, p_description = None\<rparr>,
       notifications = []\<rparr>" empty_storage
      "\<lparr>p_id = None, p_amount = Some 6000, p_category = Some ''Food'', p_date = None, p_description = None\<rparr>"]
  by (simp add: Let_def eval_simps)

text \<open>
  C9: a registration with a mobile number matching the pattern stores the profile
  and sets the notification number to \<^verbatim>\<open>+91\<close> followed by the mobile number, and
  persists both; a number that does not match changes nothing.
\<close>

theorem register_step:
  assumes "user s = None"
  shows "app_step c (s, st) (Register p) =
     (if INDIAN_MOBILE_REGEX_test (mobile p)
      then (let s' = s\<lparr>user := Some p, settings := (settings s)\<lparr>phoneNumber := ''+91 '' @ mobile p\<rparr>\<rparr>
            in Inr (s', save_effect s' st))
      else Inr (s, st))"
  using assms
  by (simp add: app_step_def registration_submit_def handleRegister_def render_commit_def
                save_deps_def Let_def)

theorem register_step_witness:
  "user (initial_state \<lparr>now = \<lparr>year = 2024, month = 5, day = 10, msec = 7200000\<rparr>, tz = 19800000, uuid = ''u1''\<rparr>) = None
   \<and> app_step \<lparr>now = \<lparr>year = 2024, month = 5, day = 10, msec = 7200000\<rparr>, tz = 19800000, uuid = ''u1''\<rparr>
       (initial_state \<lparr>now = \<lparr>year = 2024, month = 5, day = 10, msec = 7200000\<rparr>, tz = 19800000, uuid = ''u1''\<rparr>, empty_storage)
       (Register \<lparr>name = ''Asha'', mobile = ''9876543210''\<rparr>)
     = Inr ((initial_state \<lparr>now = \<lparr>year = 2024, month = 5, day = 10, msec = 7200000\<rparr>, tz = 19800000, uuid = ''u1''\<rparr>)
              \<lparr>user := Some \<lparr>name = ''Asha'', mobile = ''9876543210''\<rparr>,
                 settings := \<lparr>weeklyLimit = 5000, phoneNumber = ''+91 9876543210''\<rparr>\<rparr>,
            \<lparr>user_slot = Written \<lparr>name = ''Asha'', mobile = ''9876543210''\<rparr>, data_slot = Written [],
             settings_slot = Written \<lparr>weeklyLimit = 5000, phoneNumber = ''+91 9876543210''\<rparr>\<rparr>)"
proof -
  let ?c = "\<lparr>now = \<lparr>year = 2024, month = 5, day = 10, msec = 7200000\<rparr>, tz = 19800000, uuid = ''u1''\<rparr>"
  have u: "user (initial_state ?c) = None" by (simp add: initial_state_def)
  show ?thesis
    using u register_step [OF u, of ?c empty_storage "\<lparr>name = ''Asha'', mobile = ''9876543210''\<rparr>"]
    by (simp add: Let_def eval_simps)
qed

text \<open>
  C10: dismissing clears every pending notification, not only the one shown, and
  writes nothing to storage.
\<close>

theorem dismiss_step:
  "app_step c (s, st) DismissNotifications = Inr (s\<lparr>notifications := []\<rparr>, st)"
  by (simp add: app_step_def render_commit_def save_deps_def)

text \<open>
  C11: the reset button returns to the state of a fresh install (no user, empty
  ledger, default settings); the storage is cleared and the remount immediately
  writes the empty ledger and the default settings back, only the user key stays absent.
\<close>

theorem reset_step:
  "app_step c w ResetApp =
     Inr (initial_state c,
          \<lparr>user_slot = Absent, data_slot = Written [], settings_slot = Written default_settings\<rparr>)"
  by (simp add: app_step_def mount_def load_effect_def empty_storage_def read_slot_def
                render_commit_def save_effect_def initial_state_def)

text \<open>
  C12: two calls of \<^verbatim>\<open>addExpense\<close> handled in one render (the same snapshot of
  the state) leave only the second expense in the ledger: each call builds its ledger
  from the captured \<^verbatim>\<open>expenses\<close> and the second \<^verbatim>\<open>setExpenses\<close> overwrites the first.
\<close>

theorem batched_adds_keep_last:
  "expenses (commit s (addExpense c1 s pe1 @ addExpense c2 s pe2)) =
     full_expense (uuid c2) (toISOString (tz c2) (now c2)) pe2 # expenses s"
  by (simp add: commit_append addExpense_def Let_def add_to_ledger_def split: option.splits)

text \<open>
  C13: the blank form's date is the UTC calendar date of the current instant
  (\<^verbatim>\<open>toISOString().split('T')[0]\<close>), which \<^verbatim>\<open>parseISO\<close> reads as local midnight of
  that date. East of UTC, before the offset has elapsed, this is the previous local day.
\<close>

theorem default_date_is_utc_date:
  assumes "valid_date (now c)"
    and "0 \<le> year (add_msec (- tz c) (now c))" and "year (add_msec (- tz c) (now c)) \<le> 9999"
  shows "p_date (blank_new_expense c) =
           Some (iso_ymd (year (add_msec (- tz c) (now c))) (month (add_msec (- tz c) (now c)))
                         (day (add_msec (- tz c) (now c))))
         \<and> parseISO (tz c) (the (p_date (blank_new_expense c))) =
           Some (midnight (year (add_msec (- tz c) (now c))) (month (add_msec (- tz c) (now c)))
                          (day (add_msec (- tz c) (now c))))"
proof -
  let ?u = "add_msec (- tz c) (now c)"
  have v: "valid_date ?u" using assms(1) by (rule valid_add_msec)
  then have "validateDate (year ?u) (month ?u) (day ?u)"
    by (simp add: valid_date_def validateDate_def)
  then have "parseISO (tz c) (iso_ymd (year ?u) (month ?u) (day ?u)) = Some (midnight (year ?u) (month ?u) (day ?u))"
    using assms(2,3) by (rule parseISO_iso_ymd [rotated 2])
  then show ?thesis
    by (simp add: blank_new_expense_def split_T_0_toISOString Let_def)
qed


theorem default_date_is_utc_date_witness:
  "valid_date (now (\<lparr>now = \<lparr>year = 2024, month = 5, day = 10, msec = 7200000\<rparr>, tz = 19800000, uuid = ''u1''\<rparr>)) \<and> add_msec (- tz (\<lparr>now = \<lparr>year = 2024, month = 5, day = 10, msec = 7200000\<rparr>, tz = 19800000, uuid = ''u1''\<rparr>)) (now (\<lparr>now = \<lparr>year = 2024, month = 5, day = 10, msec = 7200000\<rparr>, tz = 19800000, uuid = ''u1''\<rparr>)) = \<lparr>year = 2024, month = 5, day = 9, msec = 73800000\<rparr>
   \<and> p_date (blank_new_expense (\<lparr>now = \<lparr>year = 2024, month = 5, day = 10, msec = 7200000\<rparr>, tz = 19800000, uuid = ''u1''\<rparr>)) = Some ''2024-05-09''
   \<and> parseISO (tz (\<lparr>now = \<lparr>year = 2024, month = 5, day = 10, msec = 7200000\<rparr>, tz = 19800000, uuid = ''u1''\<rparr>)) ''2024-05-09'' = Some (midnight 2024 5 9)
   \<and> day (now (\<lparr>now = \<lparr>year = 2024, month = 5, day = 10, msec = 7200000\<rparr>, tz = 19800000, uuid = ''u1''\<rparr>)) = 10"
proof -
  let ?c = "\<lparr>now = \<lparr>year = 2024, month = 5, day = 10, msec = 7200000\<rparr>, tz = 19800000, uuid = ''u1''\<rparr>"
  have v: "valid_date (now ?c)" by (simp add:  eval_simps)
  have u: "add_msec (- 19800000) \<lparr>year = 2024, month = 5, day = 10, msec = 7200000\<rparr>
      = \<lparr>year = 2024, month = 5, day = 9, msec = 73800000\<rparr>"
    by (simp add:  eval_simps)
  have h: "0 \<le> year (add_msec (- tz ?c) (now ?c))" "year (add_msec (- tz ?c) (now ?c)) \<le> 9999"
    by (simp_all add: u)
  note f = default_date_is_utc_date [of ?c, OF v h]
  have r1: "p_date (blank_new_expense ?c) = Some (iso_ymd 2024 5 9)"
    using conjunct1 [OF f] by (simp add: u)
  have r2: "parseISO (tz ?c) (iso_ymd 2024 5 9) = Some (midnight 2024 5 9)"
    using conjunct2 [OF f] by (simp add: u r1)
  have i: "iso_ymd 2024 5 9 = ''2024-05-09''" by (simp add: eval_simps)
  show ?thesis using v u r1 r2 i by simp
qed


text \<open>
  C21: the browser's check of the amount field, made on the text the field shows,
  accepts exactly the non-zero amounts that are multiples of 0.01, for every amount
  with at most 20 decimal places (every amount the input can produce and
  \<^verbatim>\<open>String\<close> print exactly).
\<close>

theorem amount_field_valid_iff:
  assumes "v * 10 ^ k \<in> \<int>" and "k \<le> 20"
  shows "amount_field_valid (Some v) = (v \<noteq> 0 \<and> v * 100 \<in> \<int>)"
  using amount_field_text_roundtrip [OF assms] js_num_str_nonempty [of v]
  by (auto simp: amount_field_valid_def amount_field_text_def step_ok_Ints Let_def)

theorem amount_field_valid_iff_witness:
  "(25 / 2 :: rat) * 10 ^ 1 \<in> \<int> \<and> amount_field_valid (Some (25 / 2))
   \<and> (1 / 1000 :: rat) * 10 ^ 3 \<in> \<int> \<and> \<not> amount_field_valid (Some (1 / 1000))"
proof -
  have a: "(25 / 2 :: rat) * 10 ^ 1 \<in> \<int>" "(1 / 1000 :: rat) * 10 ^ 3 \<in> \<int>" by simp_all
  have "(1 / 1000 :: rat) * 100 \<notin> \<int>"
  proof
    assume "(1 / 1000 :: rat) * 100 \<in> \<int>"
    then obtain n where "(1 / 10 :: rat) = of_int n" by (auto elim: Ints_cases)
    then have "(1 :: rat) = of_int (10 * n)" by simp
    then have "(1 :: int) = 10 * n" by (simp only: of_int_eq_1_iff)
    then show False by presburger
  qed
  then show ?thesis
    using a amount_field_valid_iff [of "25 / 2" 1] amount_field_valid_iff [of "1 / 1000" 3] by simp
qed

text \<open>
  C22: editing the weekly limit stores \<^verbatim>\<open>Number\<close> of the field's text, whatever it
  is: clearing the field sets the limit to 0 and a negative entry sets a negative
  limit; a changed limit is written to storage at once.
\<close>

theorem edit_limit_step:
  "app_step c (s, st) (EditWeeklyLimit v) =
     (let s' = s\<lparr>settings := (settings s)\<lparr>weeklyLimit := Number_input v\<rparr>\<rparr>
      in Inr (s', if Number_input v = weeklyLimit (settings s) then st else save_effect s' st))"
  by (simp add: app_step_def render_commit_def save_deps_def Let_def)

end
