(* ===== verification/Persistence.thy ===== *)
theory Persistence
  imports App
begin

text \<open>
  What the load effect makes of a storage, stated abstractly: \<open>loaded_state\<close> is the
  state \<^verbatim>\<open>load\<close> of the design promises (the stored profile, the stored settings or
  the defaults, the stored ledger through the retention filter), and \<open>synced\<close> says
  that the storage holds exactly the state's profile, ledger and settings. The lemmas
  show that mounting refines the abstract load wherever no key holds non-JSON text,
  and that the save effect keeps the storage in step with the state.
\<close>

section \<open>Abstract load and the storage relation\<close>

definition slot_ok :: "'a slot \<Rightarrow> bool" where
  "slot_ok sl = (case sl of Garbage t \<Rightarrow> t = [] | _ \<Rightarrow> True)"

definition storage_ok :: "storage \<Rightarrow> bool" where
  "storage_ok st \<longleftrightarrow> slot_ok (user_slot st) \<and> slot_ok (data_slot st) \<and> slot_ok (settings_slot st)"

definition slot_value :: "'a slot \<Rightarrow> 'a option" where
  "slot_value sl = (case sl of Written v \<Rightarrow> Some v | _ \<Rightarrow> None)"

definition loaded_state :: "ctx \<Rightarrow> storage \<Rightarrow> app_state" where
  "loaded_state c st =
     (initial_state c)\<lparr>
        user := slot_value (user_slot st),
        expenses := (case slot_value (data_slot st) of
                       Some xs \<Rightarrow> keep_recent (tz c) (now c) xs | None \<Rightarrow> []),
        settings := (case slot_value (settings_slot st) of
                       Some v \<Rightarrow> v | None \<Rightarrow> default_settings)\<rparr>"

definition synced :: "app_state \<times> storage \<Rightarrow> bool" where
  "synced w \<longleftrightarrow>
     read_slot (user_slot (snd w)) = Inr (user (fst w))
     \<and> data_slot (snd w) = Written (expenses (fst w))
     \<and> settings_slot (snd w) = Written (settings (fst w))"

section \<open>Lemmas\<close>

lemma read_slot_ok: "slot_ok sl \<Longrightarrow> read_slot sl = Inr (slot_value sl)"
  by (simp add: slot_ok_def read_slot_def slot_value_def split: slot.splits)

lemma read_slot_not_ok: "\<not> slot_ok sl \<Longrightarrow> \<exists>t. read_slot sl = Inl (JSONSyntaxError t)"
  by (auto simp: slot_ok_def read_slot_def split: slot.splits)

lemma read_slot_Written [simp]: "read_slot (Written v) = Inr (Some v)"
  by (simp add: read_slot_def)

lemma commit_option_list:
  "commit s (case x of Some v \<Rightarrow> [f v] | None \<Rightarrow> []) =
     (case x of Some v \<Rightarrow> apply_update s (f v) | None \<Rightarrow> s)"
  by (simp split: option.splits)

lemma load_effect_commit:
  assumes "storage_ok st"
  shows "\<exists>ups. load_effect c st = Inr ups \<and> commit (initial_state c) ups = loaded_state c st"
proof -
  from assms have r: "read_slot (user_slot st) = Inr (slot_value (user_slot st))"
    "read_slot (data_slot st) = Inr (slot_value (data_slot st))"
    "read_slot (settings_slot st) = Inr (slot_value (settings_slot st))"
    by (simp_all add: storage_ok_def read_slot_ok)
  show ?thesis
    unfolding load_effect_def r
    by (simp add: commit_append commit_option_list loaded_state_def initial_state_def split: option.split)
qed

lemma save_effect_twice: "user s0 = None \<Longrightarrow> save_effect s (save_effect s0 st) = save_effect s st"
  by (simp add: save_effect_def split: option.splits)

lemma save_effect_same_deps: "save_deps s = save_deps s0 \<Longrightarrow> save_effect s0 st = save_effect s st"
  by (simp add: save_effect_def save_deps_def)

lemma mount_ok:
  assumes "storage_ok st"
  shows "mount c st = Inr (loaded_state c st, save_effect (loaded_state c st) st)"
proof -
  obtain ups where ups: "load_effect c st = Inr ups" "commit (initial_state c) ups = loaded_state c st"
    using load_effect_commit [OF assms] by blast
  have u: "user (initial_state c) = None" by (simp add: initial_state_def)
  have eq: "save_deps (loaded_state c st) = save_deps (initial_state c) \<Longrightarrow>
      save_effect (initial_state c) st = save_effect (loaded_state c st) st"
    by (rule save_effect_same_deps)
  show ?thesis
    using u eq by (simp add: mount_def ups render_commit_def save_effect_twice Let_def)
qed

lemma synced_storage_ok: "synced w \<Longrightarrow> storage_ok (snd w)"
  by (auto simp: synced_def storage_ok_def slot_ok_def read_slot_def split: slot.splits if_splits)

lemma synced_mount_ok: "storage_ok st \<Longrightarrow> synced (loaded_state c st, save_effect (loaded_state c st) st)"
  by (auto simp: synced_def storage_ok_def save_effect_def loaded_state_def read_slot_ok
                 initial_state_def split: option.splits)

lemma loaded_state_synced:
  "synced (s, st) \<Longrightarrow>
   loaded_state c st = (initial_state c)\<lparr>user := user s,
      expenses := keep_recent (tz c) (now c) (expenses s), settings := settings s\<rparr>"
  by (auto simp: synced_def loaded_state_def slot_value_def read_slot_def
           split: slot.splits if_splits)

lemma synced_render_commit:
  assumes sy: "synced (s, st)" and u: "user s \<noteq> None \<Longrightarrow> user (commit s ups) \<noteq> None"
  shows "synced (render_commit s ups st)"
proof (cases "user (commit s ups)")
  case None
  with u have "user s = None" by blast
  with None sy show ?thesis
    by (simp add: synced_def render_commit_def save_effect_def save_deps_def Let_def)
next
  case (Some p)
  with sy show ?thesis
    by (auto simp: synced_def render_commit_def save_effect_def save_deps_def Let_def)
qed

lemma load_effect_garbage:
  assumes "\<not> storage_ok st"
  shows "\<exists>e. \<forall>c. load_effect c st = Inl e"
proof (cases "slot_ok (user_slot st)")
  case False
  then obtain t where "read_slot (user_slot st) = Inl (JSONSyntaxError t)"
    using read_slot_not_ok by blast
  then show ?thesis by (auto simp: load_effect_def)
next
  case u: True
  show ?thesis
  proof (cases "slot_ok (data_slot st)")
    case False
    then obtain t where "read_slot (data_slot st) = Inl (JSONSyntaxError t)"
      using read_slot_not_ok by blast
    with u show ?thesis by (auto simp: load_effect_def read_slot_ok)
  next
    case d: True
    with u assms have "\<not> slot_ok (settings_slot st)" by (simp add: storage_ok_def)
    then obtain t where "read_slot (settings_slot st) = Inl (JSONSyntaxError t)"
      using read_slot_not_ok by blast
    with u d show ?thesis by (auto simp: load_effect_def read_slot_ok)
  qed
qed

lemma mount_Inr_storage_ok:
  assumes "mount c st = Inr w"
  shows "storage_ok st"
proof (rule ccontr)
  assume "\<not> storage_ok st"
  then obtain e where "load_effect c st = Inl e" using load_effect_garbage by blast
  with assms show False by (simp add: mount_def Let_def)
qed

text \<open>
  C8: when a key holds text that is not JSON (other than the empty string), the load
  effect throws, so mounting fails with the same error at every time and in every time
  zone, and so does every reload: nothing in the program repairs the storage.
\<close>

theorem mount_garbage_fails:
  assumes "\<not> storage_ok st"
  shows "\<exists>e. \<forall>c s. mount c st = Inl e \<and> app_step c (s, st) Reload = Inl e"
  using load_effect_garbage [OF assms] by (auto simp: mount_def app_step_def Let_def)

theorem mount_garbage_fails_witness:
  "\<not> storage_ok \<lparr>user_slot = Absent, data_slot = Written [], settings_slot = Garbage ''{weeklyLimit:''\<rparr>
   \<and> (\<exists>e. \<forall>c s. mount c \<lparr>user_slot = Absent, data_slot = Written [], settings_slot = Garbage ''{weeklyLimit:''\<rparr> = Inl e
          \<and> app_step c (s, \<lparr>user_slot = Absent, data_slot = Written [], settings_slot = Garbage ''{weeklyLimit:''\<rparr>) Reload = Inl e)"
proof -
  have g: "\<not> storage_ok \<lparr>user_slot = Absent, data_slot = Written [], settings_slot = Garbage ''{weeklyLimit:''\<rparr>"
    by (simp add: storage_ok_def slot_ok_def)
  show ?thesis using g mount_garbage_fails [OF g] by blast
qed

end
