(* ===== verification/Invariants.thy ===== *)
theory Invariants
  imports Persistence
begin

text \<open>
  The invariants of a run from a fresh install: the storage mirrors the state, every
  expense has a non-empty category and its own identifier, a registered profile has a
  valid mobile number and the matching notification number, and nothing is recorded
  before registration. Each is kept by every step (one lemma per kind of step), hence
  holds in every reachable state by rule induction.
\<close>

section \<open>Invariants\<close>

definition categories_ok :: "app_state \<Rightarrow> bool" where
  "categories_ok s \<longleftrightarrow> (\<forall>e\<in>set (expenses s). category e \<noteq> [])"

definition ids_distinct :: "app_state \<Rightarrow> bool" where
  "ids_distinct s \<longleftrightarrow> distinct (map expense_id (expenses s))"

definition registration_ok :: "app_state \<Rightarrow> bool" where
  "registration_ok s \<longleftrightarrow>
     (case user s of
        None \<Rightarrow> True
      | Some u \<Rightarrow> INDIAN_MOBILE_REGEX_test (mobile u) \<and> phoneNumber (settings s) = ''+91 '' @ mobile u)"

definition unregistered_empty :: "app_state \<Rightarrow> bool" where
  "unregistered_empty s \<longleftrightarrow> (case user s of None \<Rightarrow> expenses s = [] | Some _ \<Rightarrow> True)"

definition app_inv :: "app_state \<times> storage \<Rightarrow> bool" where
  "app_inv w \<longleftrightarrow> synced w \<and> categories_ok (fst w) \<and> ids_distinct (fst w)
     \<and> registration_ok (fst w) \<and> unregistered_empty (fst w)"

section \<open>Preservation\<close>

lemma handle_categories_ok:
  "categories_ok s \<Longrightarrow> categories_ok (commit s (handle c s ev))"
  by (cases ev) (simp_all add: categories_ok_def handler_defs full_expense_category_nonempty)

lemma handle_ids_distinct:
  "ids_distinct s \<Longrightarrow> uuid c \<notin> expense_id ` set (expenses s) \<Longrightarrow>
   ids_distinct (commit s (handle c s ev))"
  by (cases ev) (simp_all add: ids_distinct_def handler_defs full_expense_def)

lemma handle_registration_ok:
  "registration_ok s \<Longrightarrow> registration_ok (commit s (handle c s ev))"
  by (cases ev) (simp_all add: registration_ok_def handler_defs split: option.splits)

lemma handle_unregistered_empty:
  "unregistered_empty s \<Longrightarrow> enabled c s ev \<Longrightarrow> unregistered_empty (commit s (handle c s ev))"
  by (cases ev) (auto simp: unregistered_empty_def enabled_def handler_defs split: option.splits)

lemma keep_recent_Nil [simp]: "keep_recent z t [] = []"
  by (simp add: keep_recent_def)

lemma app_inv_mount:
  assumes "app_inv w" and m: "mount c (snd w) = Inr w'"
  shows "app_inv w'"
proof -
  obtain s st where w: "w = (s, st)" by fastforce
  have sy: "synced (s, st)" using assms(1) w by (simp add: app_inv_def)
  have ok: "storage_ok st" using sy synced_storage_ok by fastforce
  have l: "loaded_state c st = (initial_state c)\<lparr>user := user s,
      expenses := keep_recent (tz c) (now c) (expenses s), settings := settings s\<rparr>"
    using sy loaded_state_synced by blast
  have w': "w' = (loaded_state c st, save_effect (loaded_state c st) st)"
    using m mount_ok [OF ok] w by simp
  have sw: "synced w'" using synced_mount_ok [OF ok] w' by simp
  have fs: "fst w' = (initial_state c)\<lparr>user := user s,
      expenses := keep_recent (tz c) (now c) (expenses s), settings := settings s\<rparr>"
    using w' l by simp
  show ?thesis
    using assms(1) sw unfolding app_inv_def w
    by (auto simp: fs categories_ok_def ids_distinct_def registration_ok_def keep_recent_iff
                   distinct_ids_keep_recent unregistered_empty_def split: option.splits)
qed

lemma app_inv_empty:
  assumes m: "mount c empty_storage = Inr w"
  shows "app_inv w"
proof -
  have ok: "storage_ok empty_storage"
    by (simp add: storage_ok_def empty_storage_def slot_ok_def)
  have l: "loaded_state c empty_storage = initial_state c"
    by (simp add: loaded_state_def empty_storage_def slot_value_def initial_state_def)
  have w: "w = (initial_state c, save_effect (initial_state c) empty_storage)"
    using m mount_ok [OF ok] by (simp add: l)
  have "synced w"
    using synced_mount_ok [OF ok, of c] by (simp add: w l)
  then show ?thesis
    by (simp add: w app_inv_def categories_ok_def ids_distinct_def registration_ok_def
                  unregistered_empty_def initial_state_def)
qed

lemma app_inv_step:
  assumes inv: "app_inv w" and en: "enabled c (fst w) ev"
    and fresh: "uuid c \<notin> expense_id ` set (expenses (fst w))"
    and st: "app_step c w ev = Inr w'"
  shows "app_inv w'"
proof -
  obtain s sto where w: "w = (s, sto)" by fastforce
  consider (reset) "ev = ResetApp" | (reload) "ev = Reload"
    | (other) "ev \<noteq> ResetApp" "ev \<noteq> Reload" by blast
  then show ?thesis
  proof cases
    case reset
    with st show ?thesis by (simp add: app_step_def app_inv_empty)
  next
    case reload
    with st inv show ?thesis by (simp add: app_step_def app_inv_mount)
  next
    case other
    then have w': "w' = render_commit s (handle c s ev) sto"
      using st w by (cases ev) (simp_all add: app_step_def)
    have "synced w'"
      using inv w synced_render_commit [of s sto "handle c s ev"] handle_keeps_user
      by (simp add: app_inv_def w')
    then show ?thesis
      using inv en fresh w handle_categories_ok handle_ids_distinct handle_registration_ok
        handle_unregistered_empty
      by (simp add: app_inv_def w')
  qed
qed

lemma reachable_app_inv: "reachable w \<Longrightarrow> app_inv w"
proof (induction rule: reachable.induct)
  case (install c w)
  then show ?case by (rule app_inv_empty)
next
  case (step w c ev w')
  then show ?case by (blast intro: app_inv_step)
qed

section \<open>Runs\<close>

text \<open>
  A fresh install is reachable from any environment, and so is the state after a
  registration and one manual expense (used below to instantiate the theorems).
\<close>

lemma fresh_install_reachable:
  "reachable (initial_state c,
     \<lparr>user_slot = Absent, data_slot = Written [], settings_slot = Written default_settings\<rparr>)"
  by (rule reachable.install [where c = c])
     (simp add: mount_def load_effect_def empty_storage_def read_slot_def render_commit_def
                save_effect_def initial_state_def)

lemma demo_run_reachable:
  "reachable (projr (app_step \<lparr>now = \<lparr>year = 2024, month = 5, day = 10, msec = 7200500\<rparr>, tz = 19800000, uuid = ''u4''\<rparr>
    (projr (app_step \<lparr>now = \<lparr>year = 2024, month = 5, day = 10, msec = 7200400\<rparr>, tz = 19800000, uuid = ''u3''\<rparr>
    (projr (app_step \<lparr>now = \<lparr>year = 2024, month = 5, day = 10, msec = 7200300\<rparr>, tz = 19800000, uuid = ''u2''\<rparr>
    (projr (app_step \<lparr>now = \<lparr>year = 2024, month = 5, day = 10, msec = 7200200\<rparr>, tz = 19800000, uuid = ''u1''\<rparr>
    (projr (mount \<lparr>now = \<lparr>year = 2024, month = 5, day = 10, msec = 7200000\<rparr>, tz = 19800000, uuid = ''u0''\<rparr> empty_storage))
      (Register \<lparr>name = ''Asha'', mobile = ''9876543210''\<rparr>)))
      OpenAddForm))
      (EditAmount ''-50'')))
      SubmitManualAdd))"
proof -
  let ?c0 = "\<lparr>now = \<lparr>year = 2024, month = 5, day = 10, msec = 7200000\<rparr>, tz = 19800000, uuid = ''u0''\<rparr>"
  let ?c1 = "\<lparr>now = \<lparr>year = 2024, month = 5, day = 10, msec = 7200200\<rparr>, tz = 19800000, uuid = ''u1''\<rparr>"
  let ?c2 = "\<lparr>now = \<lparr>year = 2024, month = 5, day = 10, msec = 7200300\<rparr>, tz = 19800000, uuid = ''u2''\<rparr>"
  let ?c3 = "\<lparr>now = \<lparr>year = 2024, month = 5, day = 10, msec = 7200400\<rparr>, tz = 19800000, uuid = ''u3''\<rparr>"
  let ?c4 = "\<lparr>now = \<lparr>year = 2024, month = 5, day = 10, msec = 7200500\<rparr>, tz = 19800000, uuid = ''u4''\<rparr>"
  let ?w0 = "projr (mount ?c0 empty_storage)"
  let ?w1 = "projr (app_step ?c1 ?w0 (Register \<lparr>name = ''Asha'', mobile = ''9876543210''\<rparr>))"
  let ?w2 = "projr (app_step ?c2 ?w1 OpenAddForm)"
  let ?w3 = "projr (app_step ?c3 ?w2 (EditAmount ''-50''))"
  have r0: "reachable ?w0"
    by (rule reachable.install [where c = ?c0]) (simp add: eval_simps)
  have r1: "reachable ?w1"
    by (rule reachable.step [OF r0, where c = ?c1 and ev = "Register \<lparr>name = ''Asha'', mobile = ''9876543210''\<rparr>"])
       (simp_all add: eval_simps)
  have r2: "reachable ?w2"
    by (rule reachable.step [OF r1, where c = ?c2 and ev = OpenAddForm]) (simp_all add: eval_simps)
  have r3: "reachable ?w3"
    by (rule reachable.step [OF r2, where c = ?c3 and ev = "EditAmount ''-50''"]) (simp_all add: eval_simps)
  show ?thesis
    by (rule reachable.step [OF r3, where c = ?c4 and ev = SubmitManualAdd]) (simp_all add: eval_simps)
qed

lemma demo_run_state:
  "reachable
     (\<lparr>user = Some \<lparr>name = ''Asha'', mobile = ''9876543210''\<rparr>,
       expenses = [\<lparr>expense_id = ''u4'', amount = -50, category = ''Other'', date = ''2024-05-09'', description = []\<rparr>],
       settings = \<lparr>weeklyLimit = 5000, phoneNumber = ''+91 9876543210''\<rparr>,
       activeTab = DASHBOARD, showAddForm = False,
       newExpense = \<lparr>p_id = None, p_amount = Some 0, p_category = Some ''Other'', p_date = Some ''2024-05-09'', p_description = Some []\<rparr>,
       notifications = []\<rparr>,
      \<lparr>user_slot = Written \<lparr>name = ''Asha'', mobile = ''9876543210''\<rparr>,
       data_slot = Written [\<lparr>expense_id = ''u4'', amount = -50, category = ''Other'', date = ''2024-05-09'', description = []\<rparr>],
       settings_slot = Written \<lparr>weeklyLimit = 5000, phoneNumber = ''+91 9876543210''\<rparr>\<rparr>)"
  using demo_run_reachable by (simp add: eval_simps)

section \<open>Properties of reachable states\<close>

text \<open>
  C3: in every reachable state the storage holds exactly the current ledger and
  settings, and the profile key reads back as the current profile: the three stores
  are persisted as a unit.
\<close>

theorem reachable_storage_synced:
  assumes "reachable (s, st)"
  shows "data_slot st = Written (expenses s) \<and> settings_slot st = Written (settings s)
         \<and> read_slot (user_slot st) = Inr (user s)"
  using reachable_app_inv [OF assms] by (simp add: app_inv_def synced_def)

theorem reachable_storage_synced_witness:
  "reachable (\<lparr>user = Some \<lparr>name = ''Asha'', mobile = ''9876543210''\<rparr>,
       expenses = [\<lparr>expense_id = ''u4'', amount = -50, category = ''Other'', date = ''2024-05-09'', description = []\<rparr>],
       settings = \<lparr>weeklyLimit = 5000, phoneNumber = ''+91 9876543210''\<rparr>,
       activeTab = DASHBOARD, showAddForm = False,
       newExpense = \<lparr>p_id = None, p_amount = Some 0, p_category = Some ''Other'', p_date = Some ''2024-05-09'', p_description = Some []\<rparr>,
       notifications = []\<rparr>,
      \<lparr>user_slot = Written \<lparr>name = ''Asha'', mobile = ''9876543210''\<rparr>,
       data_slot = Written [\<lparr>expense_id = ''u4'', amount = -50, category = ''Other'', date = ''2024-05-09'', description = []\<rparr>],
       settings_slot = Written \<lparr>weeklyLimit = 5000, phoneNumber = ''+91 9876543210''\<rparr>\<rparr>)
   \<and> data_slot \<lparr>user_slot = Written \<lparr>name = ''Asha'', mobile = ''9876543210''\<rparr>,
       data_slot = Written [\<lparr>expense_id = ''u4'', amount = -50, category = ''Other'', date = ''2024-05-09'', description = []\<rparr>],
       settings_slot = Written \<lparr>weeklyLimit = 5000, phoneNumber = ''+91 9876543210''\<rparr>\<rparr> = Written [\<lparr>expense_id = ''u4'', amount = -50, category = ''Other'', date = ''2024-05-09'', description = []\<rparr>]"
  using demo_run_state reachable_storage_synced [OF demo_run_state] by simp

text \<open>
  C4: reloading the page in a reachable state restores the profile and the settings
  and the ledger through the retention filter of the reload's time; the pending
  notifications, the open form and the tab are reset.
\<close>

theorem reload_restores_state:
  assumes "reachable (s, st)"
  shows "app_step c (s, st) Reload =
    (let s' = (initial_state c)\<lparr>user := user s,
                 expenses := keep_recent (tz c) (now c) (expenses s), settings := settings s\<rparr>
     in Inr (s', save_effect s' st))"
proof -
  have sy: "read_slot (user_slot st) = Inr (user s)" "data_slot st = Written (expenses s)"
      "settings_slot st = Written (settings s)"
    using reachable_app_inv [OF assms] by (simp_all add: app_inv_def synced_def)
  show ?thesis
  proof (cases "user s")
    case None
    with sy show ?thesis
      by (simp add: app_step_def mount_def load_effect_def render_commit_def save_effect_def
                    save_deps_def initial_state_def Let_def)
  next
    case (Some u)
    with sy show ?thesis
      by (simp add: app_step_def mount_def load_effect_def render_commit_def save_effect_def
                    save_deps_def initial_state_def Let_def)
  qed
qed

theorem reload_restores_state_witness:
  "reachable (\<lparr>user = Some \<lparr>name = ''Asha'', mobile = ''9876543210''\<rparr>,
       expenses = [\<lparr>expense_id = ''u4'', amount = -50, category = ''Other'', date = ''2024-05-09'', description = []\<rparr>],
       settings = \<lparr>weeklyLimit = 5000, phoneNumber = ''+91 9876543210''\<rparr>,
       activeTab = DASHBOARD, showAddForm = False,
       newExpense = \<lparr>p_id = None, p_amount = Some 0, p_category = Some ''Other'', p_date = Some ''2024-05-09'', p_description = Some []\<rparr>,
       notifications = []\<rparr>,
      \<lparr>user_slot = Written \<lparr>name = ''Asha'', mobile = ''9876543210''\<rparr>,
       data_slot = Written [\<lparr>expense_id = ''u4'', amount = -50, category = ''Other'', date = ''2024-05-09'', description = []\<rparr>],
       settings_slot = Written \<lparr>weeklyLimit = 5000, phoneNumber = ''+91 9876543210''\<rparr>\<rparr>)
   \<and> expenses (fst (projr (app_step
        \<lparr>now = \<lparr>year = 2024, month = 7, day = 10, msec = 10800000\<rparr>, tz = 19800000, uuid = ''u5''\<rparr>
        (\<lparr>user = Some \<lparr>name = ''Asha'', mobile = ''9876543210''\<rparr>,
       expenses = [\<lparr>expense_id = ''u4'', amount = -50, category = ''Other'', date = ''2024-05-09'', description = []\<rparr>],
       settings = \<lparr>weeklyLimit = 5000, phoneNumber = ''+91 9876543210''\<rparr>,
       activeTab = DASHBOARD, showAddForm = False,
       newExpense = \<lparr>p_id = None, p_amount = Some 0, p_category = Some ''Other'', p_date = Some ''2024-05-09'', p_description = Some []\<rparr>,
       notifications = []\<rparr>,
         \<lparr>user_slot = Written \<lparr>name = ''Asha'', mobile = ''9876543210''\<rparr>,
       data_slot = Written [\<lparr>expense_id = ''u4'', amount = -50, category = ''Other'', date = ''2024-05-09'', description = []\<rparr>],
       settings_slot = Written \<lparr>weeklyLimit = 5000, phoneNumber = ''+91 9876543210''\<rparr>\<rparr>) Reload))) = []"
  using demo_run_state
    reload_restores_state [OF demo_run_state,
      of "\<lparr>now = \<lparr>year = 2024, month = 7, day = 10, msec = 10800000\<rparr>, tz = 19800000, uuid = ''u5''\<rparr>"]
  by (simp add: Let_def eval_simps)

text \<open>C5: in every reachable state the expense identifiers of the ledger are distinct.\<close>

theorem reachable_ids_distinct:
  "reachable w \<Longrightarrow> distinct (map expense_id (expenses (fst w)))"
  using reachable_app_inv by (simp add: app_inv_def ids_distinct_def)

theorem reachable_ids_distinct_witness:
  "reachable (\<lparr>user = Some \<lparr>name = ''Asha'', mobile = ''9876543210''\<rparr>,
       expenses = [\<lparr>expense_id = ''u4'', amount = -50, category = ''Other'', date = ''2024-05-09'', description = []\<rparr>],
       settings = \<lparr>weeklyLimit = 5000, phoneNumber = ''+91 9876543210''\<rparr>,
       activeTab = DASHBOARD, showAddForm = False,
       newExpense = \<lparr>p_id = None, p_amount = Some 0, p_category = Some ''Other'', p_date = Some ''2024-05-09'', p_description = Some []\<rparr>,
       notifications = []\<rparr>,
      \<lparr>user_slot = Written \<lparr>name = ''Asha'', mobile = ''9876543210''\<rparr>,
       data_slot = Written [\<lparr>expense_id = ''u4'', amount = -50, category = ''Other'', date = ''2024-05-09'', description = []\<rparr>],
       settings_slot = Written \<lparr>weeklyLimit = 5000, phoneNumber = ''+91 9876543210''\<rparr>\<rparr>)
   \<and> distinct (map expense_id [\<lparr>expense_id = ''u4'', amount = -50, category = ''Other'', date = ''2024-05-09'', description = []\<rparr>])"
  using demo_run_state reachable_ids_distinct [OF demo_run_state] by simp

text \<open>C6: in every reachable state every expense of the ledger has a non-empty category.\<close>

theorem reachable_categories_nonempty:
  "reachable w \<Longrightarrow> e \<in> set (expenses (fst w)) \<Longrightarrow> category e \<noteq> []"
  using reachable_app_inv by (auto simp: app_inv_def categories_ok_def)

theorem reachable_categories_nonempty_witness:
  "reachable (\<lparr>user = Some \<lparr>name = ''Asha'', mobile = ''9876543210''\<rparr>,
       expenses = [\<lparr>expense_id = ''u4'', amount = -50, category = ''Other'', date = ''2024-05-09'', description = []\<rparr>],
       settings = \<lparr>weeklyLimit = 5000, phoneNumber = ''+91 9876543210''\<rparr>,
       activeTab = DASHBOARD, showAddForm = False,
       newExpense = \<lparr>p_id = None, p_amount = Some 0, p_category = Some ''Other'', p_date = Some ''2024-05-09'', p_description = Some []\<rparr>,
       notifications = []\<rparr>,
      \<lparr>user_slot = Written \<lparr>name = ''Asha'', mobile = ''9876543210''\<rparr>,
       data_slot = Written [\<lparr>expense_id = ''u4'', amount = -50, category = ''Other'', date = ''2024-05-09'', description = []\<rparr>],
       settings_slot = Written \<lparr>weeklyLimit = 5000, phoneNumber = ''+91 9876543210''\<rparr>\<rparr>)
   \<and> category \<lparr>expense_id = ''u4'', amount = -50, category = ''Other'', date = ''2024-05-09'', description = []\<rparr> = ''Other''"
  using demo_run_state reachable_categories_nonempty [OF demo_run_state] by simp

text \<open>
  C7: in every reachable state a registered profile has a mobile number matching
  \<^verbatim>\<open>INDIAN_MOBILE_REGEX\<close> and the notification number is \<^verbatim>\<open>+91\<close> followed by it.
\<close>

theorem reachable_registration_consistent:
  "reachable w \<Longrightarrow> user (fst w) = Some u \<Longrightarrow>
   INDIAN_MOBILE_REGEX_test (mobile u) \<and> phoneNumber (settings (fst w)) = ''+91 '' @ mobile u"
  using reachable_app_inv by (fastforce simp: app_inv_def registration_ok_def)

theorem reachable_registration_consistent_witness:
  "reachable (\<lparr>user = Some \<lparr>name = ''Asha'', mobile = ''9876543210''\<rparr>,
       expenses = [\<lparr>expense_id = ''u4'', amount = -50, category = ''Other'', date = ''2024-05-09'', description = []\<rparr>],
       settings = \<lparr>weeklyLimit = 5000, phoneNumber = ''+91 9876543210''\<rparr>,
       activeTab = DASHBOARD, showAddForm = False,
       newExpense = \<lparr>p_id = None, p_amount = Some 0, p_category = Some ''Other'', p_date = Some ''2024-05-09'', p_description = Some []\<rparr>,
       notifications = []\<rparr>,
      \<lparr>user_slot = Written \<lparr>name = ''Asha'', mobile = ''9876543210''\<rparr>,
       data_slot = Written [\<lparr>expense_id = ''u4'', amount = -50, category = ''Other'', date = ''2024-05-09'', description = []\<rparr>],
       settings_slot = Written \<lparr>weeklyLimit = 5000, phoneNumber = ''+91 9876543210''\<rparr>\<rparr>)
   \<and> INDIAN_MOBILE_REGEX_test ''9876543210''"
  using demo_run_state reachable_registration_consistent [OF demo_run_state] by simp

text \<open>
  C18: before a profile is registered the ledger is empty: the page offers only the
  registration form, and neither a reload nor a reset brings expenses back.
\<close>

theorem no_expenses_before_registration:
  "reachable w \<Longrightarrow> user (fst w) = None \<Longrightarrow> expenses (fst w) = []"
  using reachable_app_inv by (fastforce simp: app_inv_def unregistered_empty_def)

theorem no_expenses_before_registration_witness:
  "reachable (initial_state \<lparr>now = \<lparr>year = 2024, month = 5, day = 10, msec = 0\<rparr>, tz = 0, uuid = ''u''\<rparr>,
     \<lparr>user_slot = Absent, data_slot = Written [], settings_slot = Written default_settings\<rparr>)
   \<and> user (initial_state \<lparr>now = \<lparr>year = 2024, month = 5, day = 10, msec = 0\<rparr>, tz = 0, uuid = ''u''\<rparr>) = None
   \<and> expenses (initial_state \<lparr>now = \<lparr>year = 2024, month = 5, day = 10, msec = 0\<rparr>, tz = 0, uuid = ''u''\<rparr>) = []"
proof -
  let ?c = "\<lparr>now = \<lparr>year = 2024, month = 5, day = 10, msec = 0\<rparr>, tz = 0, uuid = ''u''\<rparr>"
  have u: "user (initial_state ?c) = None" by (simp add: initial_state_def)
  show ?thesis
    using fresh_install_reachable [of ?c] u
      no_expenses_before_registration [OF fresh_install_reachable [of ?c]]
    by simp
qed

end
