(* ===== verification/View.thy ===== *)
theory View
  imports Invariants
begin

text \<open>
  What \<^verbatim>\<open>App\<close> renders (\<^verbatim>\<open>src/App.tsx\<close> lines 111-325): the registration form
  while there is no user, otherwise the header with the greeting and the bell badge,
  the first pending notification, the content of the active tab, the floating add
  button, the navigation bar and the add-expense overlay. Rendering is a function of
  the state; it fails, as React's render does, when \<^verbatim>\<open>format\<close> throws on an
  invalid date in the History list. The number and date texts are modelled as the
  browser prints them: \<^verbatim>\<open>toLocaleString('en-IN')\<close> with Indian digit grouping and
  date-fns \<^verbatim>\<open>format(date, 'MMM d, yyyy')\<close>.
\<close>

section \<open>\<^verbatim>\<open>Number.prototype.toLocaleString('en-IN')\<close>\<close>

text \<open>
  The default options: at most three fraction digits, rounded half away from zero,
  trailing zeros dropped, the integer digits grouped the Indian way (the last three,
  then pairs: \<open>12,34,567\<close>), a minus sign for a negative number.
\<close>

definition round3 :: "js_number \<Rightarrow> js_number" where
  "round3 x = of_int \<lfloor>x * 1000 + 1 / 2\<rfloor> / 1000"

function group_pairs :: "string \<Rightarrow> string" where
  "group_pairs s =
     (if length s \<le> 2 then s
      else group_pairs (take (length s - 2) s) @ CHR '','' # drop (length s - 2) s)"
  by pat_completeness auto
termination by (relation "measure length") auto

definition group_en_IN :: "string \<Rightarrow> string" where
  "group_en_IN s =
     (if length s \<le> 3 then s else group_pairs (take (length s - 3) s) @ CHR '','' # drop (length s - 3) s)"

definition toLocaleString_en_IN :: "js_number \<Rightarrow> string" where
  "toLocaleString_en_IN x =
     (let s = js_num_str (round3 \<bar>x\<bar>)
      in (if x < 0 then ''-'' else []) @ group_en_IN (takeWhile (\<lambda>c. c \<noteq> CHR ''.'') s)
         @ dropWhile (\<lambda>c. c \<noteq> CHR ''.'') s)"

section \<open>date-fns \<^verbatim>\<open>format(date, 'MMM d, yyyy')\<close>\<close>

definition month_short :: "nat \<Rightarrow> string" where
  "month_short m =
     [''Jan'', ''Feb'', ''Mar'', ''Apr'', ''May'', ''Jun'', ''Jul'', ''Aug'', ''Sep'', ''Oct'',
      ''Nov'', ''Dec''] ! (m - 1)"

text \<open>
  \<open>yyyy\<close>: the year of the era (\<open>1 - y\<close> for years up to 0), at least four digits.
\<close>

definition format_yyyy :: "int \<Rightarrow> string" where
  "format_yyyy y =
     (let s = nat_str (if 0 < y then nat y else nat (1 - y)) in replicate (4 - length s) CHR ''0'' @ s)"

definition format_MMM_d_yyyy :: "js_date \<Rightarrow> string" where
  "format_MMM_d_yyyy d = month_short (month d) @ '' '' @ nat_str (day d) @ '', '' @ format_yyyy (year d)"

section \<open>The rendered page\<close>

text \<open>\<^verbatim>\<open>format\<close> throws \<^verbatim>\<open>RangeError: Invalid time value\<close> on an Invalid Date.\<close>

datatype render_error = RangeError string

text \<open>One entry of the History list (lines 188-200).\<close>

record history_row =
  row_key :: string       \<comment> \<open>\<^verbatim>\<open>key={exp.id}\<close>\<close>
  row_initial :: string   \<comment> \<open>\<^verbatim>\<open>exp.category[0]\<close>\<close>
  row_title :: string     \<comment> \<open>\<^verbatim>\<open>exp.description || exp.category\<close>\<close>
  row_date :: string      \<comment> \<open>\<^verbatim>\<open>format(parseISO(exp.date), 'MMM d, yyyy')\<close>\<close>
  row_amount :: string    \<comment> \<open>\<^verbatim>\<open>-\<rupee>{exp.amount.toLocaleString('en-IN')}\<close>\<close>

definition history_row :: "int \<Rightarrow> expense \<Rightarrow> render_error + history_row" where
  "history_row z e =
     (case parseISO z (date e) of
        None \<Rightarrow> Inl (RangeError ''Invalid time value'')
      | Some d \<Rightarrow> Inr \<lparr>row_key = expense_id e, row_initial = take 1 (category e),
                     row_title = (if description e \<noteq> [] then description e else category e),
                     row_date = format_MMM_d_yyyy d,
                     row_amount = ''-'' @ rupee_sign @ toLocaleString_en_IN (amount e)\<rparr>)"

primrec history_rows :: "int \<Rightarrow> expense list \<Rightarrow> render_error + history_row list" where
  "history_rows z [] = Inr []"
| "history_rows z (e # es) =
     (case history_row z e of
        Inl err \<Rightarrow> Inl err
      | Inr r \<Rightarrow> (case history_rows z es of Inl err \<Rightarrow> Inl err | Inr rs \<Rightarrow> Inr (r # rs)))"

text \<open>
  The content of the active tab (lines 170-244). The dashboard, the scanner and the
  editor are child components whose sources are not in the repository. An empty
  History list shows the text \<^emph>\<open>No expenses found\<close>. The settings panel shows the
  limit input's value \<^verbatim>\<open>{settings.weeklyLimit}\<close> and the disabled phone input.
\<close>

datatype tab_view =
    DashboardView
  | HistoryView "history_row list"
  | ScannerView
  | EditorView
  | SettingsView string string

definition tab_content :: "int \<Rightarrow> app_state \<Rightarrow> render_error + tab_view" where
  "tab_content z s =
     (case activeTab s of
        DASHBOARD \<Rightarrow> Inr DashboardView
      | HISTORY \<Rightarrow> (case history_rows z (expenses s) of Inl e \<Rightarrow> Inl e | Inr rs \<Rightarrow> Inr (HistoryView rs))
      | SCANNER \<Rightarrow> Inr ScannerView
      | EDITOR \<Rightarrow> Inr EditorView
      | SETTINGS \<Rightarrow> Inr (SettingsView (js_num_str (weeklyLimit (settings s))) (phoneNumber (settings s))))"

text \<open>The values of the overlay form's inputs (lines 285-315).\<close>

record form_view =
  f_amount :: string
  f_category :: string
  f_description :: string
  f_date :: string

definition form_fields :: "partial_expense \<Rightarrow> form_view" where
  "form_fields pe =
     \<lparr>f_amount = amount_field_text (p_amount pe),
      f_category = (case p_category pe of Some v \<Rightarrow> v | None \<Rightarrow> []),
      f_description = (case p_description pe of Some v \<Rightarrow> v | None \<Rightarrow> []),
      f_date = (case p_date pe of Some v \<Rightarrow> v | None \<Rightarrow> [])\<rparr>"

record main_view =
  greeting :: string               \<comment> \<open>\<^verbatim>\<open>Hi, {user.name}\<close>\<close>
  badge :: bool                    \<comment> \<open>\<^verbatim>\<open>notifications.length > 0\<close>\<close>
  banner :: "string option"        \<comment> \<open>\<^verbatim>\<open>notifications.slice(0, 1)\<close>\<close>
  content :: tab_view
  add_button :: bool               \<comment> \<open>\<^verbatim>\<open>activeTab !== AppTab.EDITOR\<close>\<close>
  nav_active :: app_tab            \<comment> \<open>the highlighted \<^verbatim>\<open>NavButton\<close>\<close>
  overlay :: "form_view option"    \<comment> \<open>\<^verbatim>\<open>showAddForm && ...\<close>\<close>

datatype page = RegistrationPage | MainPage main_view

definition render :: "int \<Rightarrow> app_state \<Rightarrow> render_error + page" where
  "render z s =
     (case user s of
        None \<Rightarrow> Inr RegistrationPage
      | Some u \<Rightarrow>
          (case tab_content z s of
             Inl e \<Rightarrow> Inl e
           | Inr tv \<Rightarrow>
               Inr (MainPage
                 \<lparr>greeting = ''Hi, '' @ name u,
                  badge = (notifications s \<noteq> []),
                  banner = (case notifications s of [] \<Rightarrow> None | n # _ \<Rightarrow> Some n),
                  content = tv,
                  add_button = (activeTab s \<noteq> EDITOR),
                  nav_active = activeTab s,
                  overlay = (if showAddForm s then Some (form_fields (newExpense s)) else None)\<rparr>)))"

declare group_pairs.simps [eval_simps] group_en_IN_def [eval_simps]
  toLocaleString_en_IN_def [eval_simps] month_short_def [eval_simps] format_yyyy_def [eval_simps]
  format_MMM_d_yyyy_def [eval_simps] history_row_def [eval_simps] tab_content_def [eval_simps]
  form_fields_def [eval_simps] render_def [eval_simps]

declare group_pairs.simps [simp del]

section \<open>Lemmas\<close>

lemma round3_exact:
  assumes "y * 1000 \<in> \<int>"
  shows "round3 y = y"
proof -
  obtain m where m: "y * 1000 = of_int m" using assms by (auto elim: Ints_cases)
  have h: "\<lfloor>1 / 2 :: rat\<rfloor> = 0" by (simp add: floor_eq_iff)
  have "\<lfloor>y * 1000 + 1 / 2\<rfloor> = \<lfloor>1 / 2 + of_int m :: rat\<rfloor>"
    by (simp add: m ac_simps)
  also have "\<dots> = m" by (simp only: floor_add_int [symmetric] h)
  finally show ?thesis using m by (simp add: round3_def)
qed

lemma round3_numeral [eval_simps]: "round3 (numeral k) = numeral k"
  by (rule round3_exact) simp

lemma filter_no_comma: "CHR '','' \<notin> set xs \<Longrightarrow> filter (\<lambda>c. c \<noteq> CHR '','') xs = xs"
  by (auto simp: filter_id_conv)

lemma no_comma_take_drop:
  "CHR '','' \<notin> set s \<Longrightarrow> CHR '','' \<notin> set (take n s) \<and> CHR '','' \<notin> set (drop n s)"
  by (meson in_set_takeD in_set_dropD)

lemma filter_group_pairs:
  "CHR '','' \<notin> set s \<Longrightarrow> filter (\<lambda>c. c \<noteq> CHR '','') (group_pairs s) = s"
proof (induction s rule: group_pairs.induct)
  case (1 s)
  show ?case
  proof (cases "length s \<le> 2")
    case True
    with "1.prems" show ?thesis by (subst group_pairs.simps) (simp add: filter_no_comma)
  next
    case False
    have "CHR '','' \<notin> set (take (length s - 2) s)" "CHR '','' \<notin> set (drop (length s - 2) s)"
      using no_comma_take_drop [OF "1.prems"] by blast+
    with False "1.IH" show ?thesis by (subst group_pairs.simps) (simp add: filter_no_comma)
  qed
qed

lemma filter_group_en_IN:
  "CHR '','' \<notin> set s \<Longrightarrow> filter (\<lambda>c. c \<noteq> CHR '','') (group_en_IN s) = s"
proof -
  assume s: "CHR '','' \<notin> set s"
  then have "CHR '','' \<notin> set (take (length s - 3) s)" "CHR '','' \<notin> set (drop (length s - 3) s)"
    using no_comma_take_drop by blast+
  with s show ?thesis by (simp add: group_en_IN_def filter_group_pairs filter_no_comma)
qed

lemma comma_not_in_js_num_str: "CHR '','' \<notin> set (js_num_str x)"
proof
  assume "CHR '','' \<in> set (js_num_str x)"
  then obtain d where "d < 10" "CHR '','' = digit_char d"
    using js_num_str_chars [of "CHR '',''" x] by auto
  then have "digit_val CHR '','' = Some d" by simp
  then show False by (simp add: digit_val_def)
qed

lemma filter_grouped_js_num_str:
  "filter (\<lambda>c. c \<noteq> CHR '','')
     (group_en_IN (takeWhile (\<lambda>c. c \<noteq> CHR ''.'') (js_num_str y)) @ dropWhile (\<lambda>c. c \<noteq> CHR ''.'') (js_num_str y))
   = js_num_str y"
proof -
  let ?s = "js_num_str y" and ?P = "\<lambda>c. c \<noteq> CHR ''.''"
  have t: "CHR '','' \<notin> set (takeWhile ?P ?s)" and d: "CHR '','' \<notin> set (dropWhile ?P ?s)"
    using comma_not_in_js_num_str [of y] by (meson set_takeWhileD, meson set_dropWhileD)
  then show ?thesis by (simp add: filter_group_en_IN filter_no_comma)
qed

lemma history_rows_eq:
  "history_rows z xs =
     (if \<exists>x\<in>set xs. parseISO z (date x) = None then Inl (RangeError ''Invalid time value'')
      else Inr (map (\<lambda>x. projr (history_row z x)) xs))"
proof (induction xs)
  case (Cons x xs)
  show ?case
  proof (cases "parseISO z (date x)")
    case None
    then show ?thesis by (simp add: history_row_def)
  next
    case (Some d)
    then have "history_row z x = Inr (projr (history_row z x))" by (simp add: history_row_def)
    then show ?thesis using Cons.IH Some by (auto split: sum.splits)
  qed
qed simp

lemma history_rows_Inl:
  "(\<exists>err. history_rows z xs = Inl err) = (\<exists>x\<in>set xs. \<exists>err. history_row z x = Inl err)"
  by (induction xs) (auto split: sum.splits)

lemma render_history:
  assumes "user s = Some u" and "activeTab s = HISTORY"
  shows "render z s =
    (if \<exists>x\<in>set (expenses s). parseISO z (date x) = None then Inl (RangeError ''Invalid time value'')
     else Inr (MainPage \<lparr>greeting = ''Hi, '' @ name u, badge = (notifications s \<noteq> []),
                  banner = (case notifications s of [] \<Rightarrow> None | n # _ \<Rightarrow> Some n),
                  content = HistoryView (map (\<lambda>x. projr (history_row z x)) (expenses s)),
                  add_button = True, nav_active = HISTORY,
                  overlay = (if showAddForm s then Some (form_fields (newExpense s)) else None)\<rparr>))"
  using assms by (simp add: render_def tab_content_def history_rows_eq)

lemma render_not_history:
  assumes "user s = Some u" and "activeTab s \<noteq> HISTORY"
  shows "\<exists>v. render z s = Inr (MainPage v)"
  using assms by (cases "activeTab s") (simp_all add: render_def tab_content_def)

text \<open>
  A run in which the bill scanner reports a date \<^verbatim>\<open>parseISO\<close> cannot read: after
  the demonstration run of \<open>Invariants\<close>, open the scanner tab, let the scanner
  report an expense dated \<open>yesterday\<close>, open the History tab.
\<close>

lemma scanner_run_reachable:
  "reachable (projr (app_step \<lparr>now = \<lparr>year = 2024, month = 5, day = 10, msec = 7200800\<rparr>, tz = 19800000, uuid = ''u7''\<rparr>
    (projr (app_step \<lparr>now = \<lparr>year = 2024, month = 5, day = 10, msec = 7200700\<rparr>, tz = 19800000, uuid = ''u6''\<rparr>
    (projr (app_step \<lparr>now = \<lparr>year = 2024, month = 5, day = 10, msec = 7200600\<rparr>, tz = 19800000, uuid = ''u5''\<rparr>
      (\<lparr>user = Some \<lparr>name = ''Asha'', mobile = ''9876543210''\<rparr>,
       expenses = [\<lparr>expense_id = ''u4'', amount = -50, category = ''Other'', date = ''2024-05-09'', description = []\<rparr>],
       settings = \<lparr>weeklyLimit = 5000, phoneNumber = ''+91 9876543210''\<rparr>,
       activeTab = DASHBOARD, showAddForm = False,
       newExpense = \<lparr>p_id = None, p_amount = Some 0, p_category = Some ''Other'', p_date = Some ''2024-05-09'', p_description = Some []\<rparr>,
       notifications = []\<rparr>,
      \<lparr>user_slot = Written \<lparr>name = ''Asha'', mobile = ''9876543210''\<rparr>,
       data_slot = Written [\<lparr>expense_id = ''u4'', amount = -50, category = ''Other'', date = ''2024-05-09'', description = []\<rparr>],
       settings_slot = Written \<lparr>weeklyLimit = 5000, phoneNumber = ''+91 9876543210''\<rparr>\<rparr>)
      (NavTo SCANNER)))
      (AddExpense \<lparr>p_id = None, p_amount = Some 120, p_category = Some ''Food'', p_date = Some ''yesterday'', p_description = Some ''lunch''\<rparr>)))
      (NavTo HISTORY)))"
proof -
  let ?c5 = "\<lparr>now = \<lparr>year = 2024, month = 5, day = 10, msec = 7200600\<rparr>, tz = 19800000, uuid = ''u5''\<rparr>"
  let ?c6 = "\<lparr>now = \<lparr>year = 2024, month = 5, day = 10, msec = 7200700\<rparr>, tz = 19800000, uuid = ''u6''\<rparr>"
  let ?c7 = "\<lparr>now = \<lparr>year = 2024, month = 5, day = 10, msec = 7200800\<rparr>, tz = 19800000, uuid = ''u7''\<rparr>"
  let ?pe = "\<lparr>p_id = None, p_amount = Some 120, p_category = Some ''Food'', p_date = Some ''yesterday'', p_description = Some ''lunch''\<rparr>"
  let ?w4 = "(\<lparr>user = Some \<lparr>name = ''Asha'', mobile = ''9876543210''\<rparr>,
       expenses = [\<lparr>expense_id = ''u4'', amount = -50, category = ''Other'', date = ''2024-05-09'', description = []\<rparr>],
       settings = \<lparr>weeklyLimit = 5000, phoneNumber = ''+91 9876543210''\<rparr>,
       activeTab = DASHBOARD, showAddForm = False,
       newExpense = \<lparr>p_id = None, p_amount = Some 0, p_category = Some ''Other'', p_date = Some ''2024-05-09'', p_description = Some []\<rparr>,
       notifications = []\<rparr>,
      \<lparr>user_slot = Written \<lparr>name = ''Asha'', mobile = ''9876543210''\<rparr>,
       data_slot = Written [\<lparr>expense_id = ''u4'', amount = -50, category = ''Other'', date = ''2024-05-09'', description = []\<rparr>],
       settings_slot = Written \<lparr>weeklyLimit = 5000, phoneNumber = ''+91 9876543210''\<rparr>\<rparr>)"
  let ?w5 = "projr (app_step ?c5 ?w4 (NavTo SCANNER))"
  let ?w6 = "projr (app_step ?c6 ?w5 (AddExpense ?pe))"
  have r5: "reachable ?w5"
    by (rule reachable.step [OF demo_run_state, where c = ?c5 and ev = "NavTo SCANNER"]) (simp_all add: eval_simps)
  have r6: "reachable ?w6"
    by (rule reachable.step [OF r5, where c = ?c6 and ev = "AddExpense ?pe"]) (simp_all add: eval_simps)
  show ?thesis
    by (rule reachable.step [OF r6, where c = ?c7 and ev = "NavTo HISTORY"]) (simp_all add: eval_simps)
qed

lemma scanner_run_state: "reachable (\<lparr>user = Some \<lparr>name = ''Asha'', mobile = ''9876543210''\<rparr>,
       expenses = [\<lparr>expense_id = ''u6'', amount = 120, category = ''Food'', date = ''yesterday'', description = ''lunch''\<rparr>,
                   \<lparr>expense_id = ''u4'', amount = -50, category = ''Other'', date = ''2024-05-09'', description = []\<rparr>],
       settings = \<lparr>weeklyLimit = 5000, phoneNumber = ''+91 9876543210''\<rparr>,
       activeTab = HISTORY, showAddForm = False,
       newExpense = \<lparr>p_id = None, p_amount = Some 0, p_category = Some ''Other'', p_date = Some ''2024-05-09'', p_description = Some []\<rparr>,
       notifications = []\<rparr>,
      \<lparr>user_slot = Written \<lparr>name = ''Asha'', mobile = ''9876543210''\<rparr>,
       data_slot = Written [\<lparr>expense_id = ''u6'', amount = 120, category = ''Food'', date = ''yesterday'', description = ''lunch''\<rparr>,
                            \<lparr>expense_id = ''u4'', amount = -50, category = ''Other'', date = ''2024-05-09'', description = []\<rparr>],
       settings_slot = Written \<lparr>weeklyLimit = 5000, phoneNumber = ''+91 9876543210''\<rparr>\<rparr>)"
  using scanner_run_reachable by (simp add: eval_simps)

section \<open>Properties of the rendered page\<close>

text \<open>
  C26: for a registered user the page fails to render exactly when the History tab is
  shown and some expense of the ledger has a date that \<^verbatim>\<open>parseISO\<close> cannot read:
  \<^verbatim>\<open>format\<close> then throws and React unmounts the whole application.
\<close>

theorem render_fails_iff:
  assumes "user s \<noteq> None"
  shows "(\<exists>err. render z s = Inl err)
         = (activeTab s = HISTORY \<and> (\<exists>e\<in>set (expenses s). parseISO z (date e) = None))"
proof -
  obtain u where u: "user s = Some u" using assms by blast
  show ?thesis
  proof (cases "activeTab s = HISTORY")
    case True
    have "(\<exists>err. render z s = Inl err) = (\<exists>err. history_rows z (expenses s) = Inl err)"
      using u True by (auto simp: render_def tab_content_def split: sum.splits)
    moreover have "(\<exists>err. history_row z e = Inl err) = (parseISO z (date e) = None)" for e
      by (simp add: history_row_def split: option.splits)
    ultimately show ?thesis using True by (simp add: history_rows_Inl)
  next
    case False
    then show ?thesis using render_not_history [OF u False, of z] by auto
  qed
qed

theorem render_fails_iff_witness:
  "user \<lparr>user = Some \<lparr>name = ''Asha'', mobile = ''9876543210''\<rparr>,
          expenses = [\<lparr>expense_id = ''u6'', amount = 120, category = ''Food'', date = ''yesterday'', description = ''lunch''\<rparr>],
          settings = \<lparr>weeklyLimit = 5000, phoneNumber = ''+91 9876543210''\<rparr>,
          activeTab = HISTORY, showAddForm = False,
          newExpense = \<lparr>p_id = None, p_amount = Some 0, p_category = Some ''Other'', p_date = Some ''2024-05-09'', p_description = Some []\<rparr>,
          notifications = []\<rparr> \<noteq> None
   \<and> (\<exists>err. render 19800000
          \<lparr>user = Some \<lparr>name = ''Asha'', mobile = ''9876543210''\<rparr>,
          expenses = [\<lparr>expense_id = ''u6'', amount = 120, category = ''Food'', date = ''yesterday'', description = ''lunch''\<rparr>],
          settings = \<lparr>weeklyLimit = 5000, phoneNumber = ''+91 9876543210''\<rparr>,
          activeTab = HISTORY, showAddForm = False,
          newExpense = \<lparr>p_id = None, p_amount = Some 0, p_category = Some ''Other'', p_date = Some ''2024-05-09'', p_description = Some []\<rparr>,
          notifications = []\<rparr> = Inl err)"
proof -
  let ?s = "\<lparr>user = Some \<lparr>name = ''Asha'', mobile = ''9876543210''\<rparr>,
          expenses = [\<lparr>expense_id = ''u6'', amount = 120, category = ''Food'', date = ''yesterday'', description = ''lunch''\<rparr>],
          settings = \<lparr>weeklyLimit = 5000, phoneNumber = ''+91 9876543210''\<rparr>,
          activeTab = HISTORY, showAddForm = False,
          newExpense = \<lparr>p_id = None, p_amount = Some 0, p_category = Some ''Other'', p_date = Some ''2024-05-09'', p_description = Some []\<rparr>,
          notifications = []\<rparr>"
  have u: "user ?s \<noteq> None" by simp
  have p: "parseISO 19800000 ''yesterday'' = None" by (simp add: eval_simps)
  show ?thesis using render_fails_iff [OF u, of 19800000] p by simp
qed

text \<open>
  C27: the failure is reachable: a registered user whose bill scanner reports a date
  such as \<open>yesterday\<close> crashes the application on opening the History tab.
\<close>

theorem history_crash_reachable:
  "\<exists>w. reachable w \<and> activeTab (fst w) = HISTORY \<and> (\<exists>err. render 19800000 (fst w) = Inl err)"
proof -
  have p: "parseISO 19800000 ''yesterday'' = None" by (simp add: eval_simps)
  show ?thesis
    using scanner_run_state p
    by (intro exI [where x = "(\<lparr>user = Some \<lparr>name = ''Asha'', mobile = ''9876543210''\<rparr>,
       expenses = [\<lparr>expense_id = ''u6'', amount = 120, category = ''Food'', date = ''yesterday'', description = ''lunch''\<rparr>,
                   \<lparr>expense_id = ''u4'', amount = -50, category = ''Other'', date = ''2024-05-09'', description = []\<rparr>],
       settings = \<lparr>weeklyLimit = 5000, phoneNumber = ''+91 9876543210''\<rparr>,
       activeTab = HISTORY, showAddForm = False,
       newExpense = \<lparr>p_id = None, p_amount = Some 0, p_category = Some ''Other'', p_date = Some ''2024-05-09'', p_description = Some []\<rparr>,
       notifications = []\<rparr>,
      \<lparr>user_slot = Written \<lparr>name = ''Asha'', mobile = ''9876543210''\<rparr>,
       data_slot = Written [\<lparr>expense_id = ''u6'', amount = 120, category = ''Food'', date = ''yesterday'', description = ''lunch''\<rparr>,
                            \<lparr>expense_id = ''u4'', amount = -50, category = ''Other'', date = ''2024-05-09'', description = []\<rparr>],
       settings_slot = Written \<lparr>weeklyLimit = 5000, phoneNumber = ''+91 9876543210''\<rparr>\<rparr>)"]) (simp add: render_def tab_content_def history_rows_eq)
qed

text \<open>
  C28: after a load (a reload, or the reset's remount) the History list renders: the
  retention filter has dropped every expense whose date \<^verbatim>\<open>parseISO\<close> cannot read,
  in the same time zone the list formats them in. The crash of C27 lasts until the next
  reload.
\<close>

theorem mount_history_renders:
  assumes "mount c st = Inr w" and "user (fst w) \<noteq> None"
  shows "\<exists>v. render (tz c) ((fst w)\<lparr>activeTab := HISTORY\<rparr>) = Inr (MainPage v)"
proof -
  have ok: "storage_ok st" using assms(1) by (rule mount_Inr_storage_ok)
  then have w: "fst w = loaded_state c st" using assms(1) mount_ok [OF ok, of c] by (metis Inr_inject fst_conv)
  have "\<forall>x\<in>set (expenses (fst w)). parseISO (tz c) (date x) \<noteq> None"
    by (auto simp: w loaded_state_def keep_recent_iff keep_entry_def split: option.splits)
  then show ?thesis
    using assms(2) render_history [of "(fst w)\<lparr>activeTab := HISTORY\<rparr>" _ "tz c"] by auto
qed

theorem mount_history_renders_witness:
  "mount \<lparr>now = \<lparr>year = 2024, month = 5, day = 10, msec = 7200900\<rparr>, tz = 19800000, uuid = ''u8''\<rparr>
      \<lparr>user_slot = Written \<lparr>name = ''Asha'', mobile = ''9876543210''\<rparr>,
       data_slot = Written [\<lparr>expense_id = ''u6'', amount = 120, category = ''Food'', date = ''yesterday'', description = ''lunch''\<rparr>,
                            \<lparr>expense_id = ''u4'', amount = -50, category = ''Other'', date = ''2024-05-09'', description = []\<rparr>],
       settings_slot = Written \<lparr>weeklyLimit = 5000, phoneNumber = ''+91 9876543210''\<rparr>\<rparr>
     = Inr (projr (mount \<lparr>now = \<lparr>year = 2024, month = 5, day = 10, msec = 7200900\<rparr>, tz = 19800000, uuid = ''u8''\<rparr>
      \<lparr>user_slot = Written \<lparr>name = ''Asha'', mobile = ''9876543210''\<rparr>,
       data_slot = Written [\<lparr>expense_id = ''u6'', amount = 120, category = ''Food'', date = ''yesterday'', description = ''lunch''\<rparr>,
                            \<lparr>expense_id = ''u4'', amount = -50, category = ''Other'', date = ''2024-05-09'', description = []\<rparr>],
       settings_slot = Written \<lparr>weeklyLimit = 5000, phoneNumber = ''+91 9876543210''\<rparr>\<rparr>))
   \<and> user (fst (projr (mount \<lparr>now = \<lparr>year = 2024, month = 5, day = 10, msec = 7200900\<rparr>, tz = 19800000, uuid = ''u8''\<rparr>
      \<lparr>user_slot = Written \<lparr>name = ''Asha'', mobile = ''9876543210''\<rparr>,
       data_slot = Written [\<lparr>expense_id = ''u6'', amount = 120, category = ''Food'', date = ''yesterday'', description = ''lunch''\<rparr>,
                            \<lparr>expense_id = ''u4'', amount = -50, category = ''Other'', date = ''2024-05-09'', description = []\<rparr>],
       settings_slot = Written \<lparr>weeklyLimit = 5000, phoneNumber = ''+91 9876543210''\<rparr>\<rparr>))) \<noteq> None
   \<and> (\<exists>v. render 19800000 ((fst (projr (mount \<lparr>now = \<lparr>year = 2024, month = 5, day = 10, msec = 7200900\<rparr>, tz = 19800000, uuid = ''u8''\<rparr>
      \<lparr>user_slot = Written \<lparr>name = ''Asha'', mobile = ''9876543210''\<rparr>,
       data_slot = Written [\<lparr>expense_id = ''u6'', amount = 120, category = ''Food'', date = ''yesterday'', description = ''lunch''\<rparr>,
                            \<lparr>expense_id = ''u4'', amount = -50, category = ''Other'', date = ''2024-05-09'', description = []\<rparr>],
       settings_slot = Written \<lparr>weeklyLimit = 5000, phoneNumber = ''+91 9876543210''\<rparr>\<rparr>)))\<lparr>activeTab := HISTORY\<rparr>) = Inr (MainPage v))"
proof -
  let ?c = "\<lparr>now = \<lparr>year = 2024, month = 5, day = 10, msec = 7200900\<rparr>, tz = 19800000, uuid = ''u8''\<rparr>"
  let ?st = "\<lparr>user_slot = Written \<lparr>name = ''Asha'', mobile = ''9876543210''\<rparr>,
       data_slot = Written [\<lparr>expense_id = ''u6'', amount = 120, category = ''Food'', date = ''yesterday'', description = ''lunch''\<rparr>,
                            \<lparr>expense_id = ''u4'', amount = -50, category = ''Other'', date = ''2024-05-09'', description = []\<rparr>],
       settings_slot = Written \<lparr>weeklyLimit = 5000, phoneNumber = ''+91 9876543210''\<rparr>\<rparr>"
  have m: "mount ?c ?st = Inr (projr (mount ?c ?st))" by (simp add: eval_simps)
  have u: "user (fst (projr (mount ?c ?st))) \<noteq> None" by (simp add: eval_simps)
  show ?thesis using m u mount_history_renders [OF m u] by simp
qed

text \<open>
  C29: when an added expense takes the running total over the limit, the page that
  follows renders: it shows the dashboard with the overlay closed, the bell badge,
  and the new alert in the notification banner (the most recent notification is the
  one shown).
\<close>

theorem add_alert_banner:
  assumes "user s \<noteq> None"
    and "check_limit (full_expense (uuid c) (toISOString (tz c) (now c)) pe # expenses s) (settings s) = Some msg"
  shows "\<exists>s' st' v. app_step c (s, st) (AddExpense pe) = Inr (s', st')
           \<and> render z s' = Inr (MainPage v) \<and> banner v = Some msg \<and> badge v
           \<and> content v = DashboardView \<and> overlay v = None"
  using assms
  by (auto simp: app_step_def render_commit_def addExpense_commit render_def tab_content_def Let_def)

theorem add_alert_banner_witness:
  "user \<lparr>user = Some \<lparr>name = ''Asha'', mobile = ''9876543210''\<rparr>, expenses = [],
       settings = \<lparr>weeklyLimit = 5000, phoneNumber = ''+91 9876543210''\<rparr>, activeTab = SCANNER,
       showAddForm = False, newExpense = \<lparr>p_id = None, p_amount = None, p_category = None, p_date = None, p_description = None\<rparr>,
       notifications = []\<rparr> \<noteq> None
   \<and> check_limit [full_expense ''u1'' (toISOString 19800000 \<lparr>year = 2024, month = 5, day = 10, msec = 7200000\<rparr>)
        \<lparr>p_id = None, p_amount = Some 6000, p_category = Some ''Food'', p_date = None, p_description = None\<rparr>]
        \<lparr>weeklyLimit = 5000, phoneNumber = ''+91 9876543210''\<rparr>
      = Some (''ALERT: Weekly limit of '' @ rupee_sign @ ''5000 exceeded! SMS sent to +91 9876543210'')
   \<and> (\<exists>s' st' v. app_step \<lparr>now = \<lparr>year = 2024, month = 5, day = 10, msec = 7200000\<rparr>, tz = 19800000, uuid = ''u1''\<rparr>
       (\<lparr>user = Some \<lparr>name = ''Asha'', mobile = ''9876543210''\<rparr>, expenses = [],
       settings = \<lparr>weeklyLimit = 5000, phoneNumber = ''+91 9876543210''\<rparr>, activeTab = SCANNER,
       showAddForm = False, newExpense = \<lparr>p_id = None, p_amount = None, p_category = None, p_date = None, p_description = None\<rparr>,
       notifications = []\<rparr>, empty_storage)
       (AddExpense \<lparr>p_id = None, p_amount = Some 6000, p_category = Some ''Food'', p_date = None, p_description = None\<rparr>)
       = Inr (s', st')
     \<and> render 19800000 s' = Inr (MainPage v)
     \<and> banner v = Some (''ALERT: Weekly limit of '' @ rupee_sign @ ''5000 exceeded! SMS sent to +91 9876543210'')
     \<and> badge v \<and> content v = DashboardView \<and> overlay v = None)"
proof -
  let ?s = "\<lparr>user = Some \<lparr>name = ''Asha'', mobile = ''9876543210''\<rparr>, expenses = [],
       settings = \<lparr>weeklyLimit = 5000, phoneNumber = ''+91 9876543210''\<rparr>, activeTab = SCANNER,
       showAddForm = False, newExpense = \<lparr>p_id = None, p_amount = None, p_category = None, p_date = None, p_description = None\<rparr>,
       notifications = []\<rparr>"
  let ?c = "\<lparr>now = \<lparr>year = 2024, month = 5, day = 10, msec = 7200000\<rparr>, tz = 19800000, uuid = ''u1''\<rparr>"
  let ?pe = "\<lparr>p_id = None, p_amount = Some 6000, p_category = Some ''Food'', p_date = None, p_description = None\<rparr>"
  have u: "user ?s \<noteq> None" by simp
  have ch: "check_limit (full_expense (uuid ?c) (toISOString (tz ?c) (now ?c)) ?pe # expenses ?s) (settings ?s)
      = Some (''ALERT: Weekly limit of '' @ rupee_sign @ ''5000 exceeded! SMS sent to +91 9876543210'')"
    by (simp add: eval_simps)
  show ?thesis using u ch add_alert_banner [OF u ch, of empty_storage 19800000] by simp
qed

text \<open>
  C30: the amount a History row shows, read back without its grouping commas, is the
  amount of the expense, for every amount with at most three decimal places (every
  amount the form's \<^verbatim>\<open>step="0.01"\<close> accepts): the display loses nothing.
\<close>

theorem history_amount_roundtrip:
  assumes "x * 1000 \<in> \<int>"
  shows "Number_input (filter (\<lambda>c. c \<noteq> CHR '','') (toLocaleString_en_IN x)) = x"
proof -
  have a: "\<bar>x\<bar> * 10 ^ 3 \<in> \<int>"
    using assms Ints_abs [of "x * 1000"] by (simp add: abs_mult)
  then have r: "round3 \<bar>x\<bar> = \<bar>x\<bar>" by (intro round3_exact) simp
  have f: "filter (\<lambda>c. c \<noteq> CHR '','') (toLocaleString_en_IN x) = (if x < 0 then ''-'' else []) @ js_num_str \<bar>x\<bar>"
    using filter_grouped_js_num_str [of "\<bar>x\<bar>"] r by (simp add: toLocaleString_en_IN_def Let_def)
  show ?thesis
  proof (cases "x < 0")
    case True
    then show ?thesis
      using parse_float_js_num_str(2) [OF a] r
      by (simp add: f Number_input_def)
  next
    case False
    then show ?thesis
      using parse_float_js_num_str(1) [OF a] r
      by (simp add: f Number_input_def)
  qed
qed

theorem history_amount_roundtrip_witness:
  "(1234567 :: rat) * 1000 \<in> \<int> \<and> toLocaleString_en_IN 1234567 = ''12,34,567''
   \<and> Number_input ''1234567'' = 1234567"
proof -
  have i: "(1234567 :: rat) * 1000 \<in> \<int>" by simp
  have t: "toLocaleString_en_IN 1234567 = ''12,34,567''" by (simp add: eval_simps)
  show ?thesis using i t history_amount_roundtrip [OF i] by simp
qed

end
