(* ===== verification/Runs.thy ===== *)
theory Runs
  imports View
begin

text \<open>
  Runs of user actions as the page offers them. While the page renders, the events
  it offers are those of \<open>enabled\<close>; once rendering has thrown, React has unmounted
  the application and the only thing the user can do is reload the page. \<open>run\<close>
  performs a list of such actions in one environment and is \<open>None\<close> as soon as one
  of them is not offered or fails. (\<open>reachable\<close> of \<open>App\<close> over-approximates:
  it also lets events through after a crash, which only adds states to those its
  invariants cover.)
\<close>

definition offered :: "ctx \<Rightarrow> app_state \<Rightarrow> event \<Rightarrow> bool" where
  "offered c s ev = (case render (tz c) s of Inl _ \<Rightarrow> ev = Reload | Inr _ \<Rightarrow> enabled c s ev)"

fun run :: "ctx \<Rightarrow> app_state \<times> storage \<Rightarrow> event list \<Rightarrow> (app_state \<times> storage) option" where
  "run c w [] = Some w"
| "run c w (ev # evs) =
     (if offered c (fst w) ev
      then (case app_step c w ev of Inl _ \<Rightarrow> None | Inr w' \<Rightarrow> run c w' evs)
      else None)"

text \<open>The storage a reset leaves: the remount writes the empty ledger and the defaults back.\<close>

definition reset_storage :: storage where
  "reset_storage = \<lparr>user_slot = Absent, data_slot = Written [], settings_slot = Written default_settings\<rparr>"

declare offered_def [eval_simps] reset_storage_def [eval_simps]

section \<open>Lemmas\<close>

lemma render_ok_offered: "render (tz c) s = Inr p \<Longrightarrow> offered c s ev = enabled c s ev"
  by (simp add: offered_def)

lemma run_step:
  "offered c (fst w) ev \<Longrightarrow> app_step c w ev = Inr w' \<Longrightarrow> run c w (ev # evs) = run c w' evs"
  by simp

text \<open>From a page that renders, shows no overlay and has a user: settings tab, then reset.\<close>

lemma reset_from_page:
  assumes u: "user s \<noteq> None" and f: "\<not> showAddForm s" and r: "render (tz c) s = Inr p"
  shows "run c (s, st) [NavTo SETTINGS, ResetApp] = Some (initial_state c, reset_storage)"
proof -
  let ?w1 = "render_commit s [SetActiveTab SETTINGS] st"
  obtain u' where uu: "user s = Some u'" using u by blast
  have o0: "offered c s (NavTo SETTINGS)"
    using u f r by (auto simp: offered_def enabled_def split: option.splits)
  have "fst ?w1 = s\<lparr>activeTab := SETTINGS\<rparr>" by simp
  moreover have "\<exists>v. render (tz c) (s\<lparr>activeTab := SETTINGS\<rparr>) = Inr (MainPage v)"
    using render_not_history [of "s\<lparr>activeTab := SETTINGS\<rparr>" u'] uu by simp
  ultimately have o1: "offered c (fst ?w1) ResetApp"
    using u f by (auto simp: offered_def enabled_def split: option.splits)
  have m: "app_step c ?w1 ResetApp = Inr (initial_state c, reset_storage)"
    by (simp add: app_step_def mount_def load_effect_def empty_storage_def read_slot_def
                  render_commit_def save_effect_def initial_state_def reset_storage_def)
  show ?thesis using o0 o1 m by (simp add: app_step_def)
qed

lemma render_ok_close_form:
  assumes "user s = Some u" and "render z s = Inr p"
  shows "\<exists>p'. render z (s\<lparr>showAddForm := False\<rparr>) = Inr p'"
proof (cases "activeTab s = HISTORY")
  case True
  then show ?thesis using assms render_history [of s u z] render_history [of "s\<lparr>showAddForm := False\<rparr>" u z]
    by (simp split: if_splits)
next
  case False
  then show ?thesis using assms render_not_history [of "s\<lparr>showAddForm := False\<rparr>" u z] by auto
qed

lemma reload_page:
  assumes "reachable (s, st)" and "user s = Some u"
  shows "\<exists>st' p. app_step c (s, st) Reload = Inr (loaded_state c st, st')
           \<and> user (loaded_state c st) = Some u \<and> \<not> showAddForm (loaded_state c st)
           \<and> render (tz c) (loaded_state c st) = Inr p"
proof -
  have sy: "synced (s, st)" using reachable_app_inv [OF assms(1)] by (simp add: app_inv_def)
  have ok: "storage_ok st" using synced_storage_ok [OF sy] by simp
  have l: "loaded_state c st = (initial_state c)\<lparr>user := user s,
      expenses := keep_recent (tz c) (now c) (expenses s), settings := settings s\<rparr>"
    by (rule loaded_state_synced [OF sy])
  have "\<exists>v. render (tz c) (loaded_state c st) = Inr (MainPage v)"
    using render_not_history [of "loaded_state c st" u "tz c"] assms(2)
    by (simp add: l initial_state_def)
  then show ?thesis
    using mount_ok [OF ok, of c] assms(2) by (auto simp: app_step_def l initial_state_def)
qed

section \<open>Liveness\<close>

text \<open>
  C31: from every reachable state of a registered user, whether the page shows the
  add-expense overlay or has crashed, at most three actions the page offers lead back
  to a fresh install (reload if crashed, or cancel the overlay; open the settings tab;
  press reset), whose page is the registration form.
\<close>

theorem reset_always_reachable:
  assumes "reachable (s, st)" and "user s \<noteq> None"
  shows "\<exists>evs. length evs \<le> 3 \<and> run c (s, st) evs = Some (initial_state c, reset_storage)
           \<and> render z (initial_state c) = Inr RegistrationPage"
proof -
  obtain u where u: "user s = Some u" using assms(2) by blast
  have reg: "render z (initial_state c) = Inr RegistrationPage"
    by (simp add: render_def initial_state_def)
  show ?thesis
  proof (cases "render (tz c) s")
    case (Inl e)
    obtain st' p where r: "app_step c (s, st) Reload = Inr (loaded_state c st, st')"
      "user (loaded_state c st) = Some u" "\<not> showAddForm (loaded_state c st)"
      "render (tz c) (loaded_state c st) = Inr p"
      using reload_page [OF assms(1) u] by blast
    have "run c (s, st) [Reload, NavTo SETTINGS, ResetApp] = Some (initial_state c, reset_storage)"
      using Inl r reset_from_page [of "loaded_state c st" c p st'] by (simp add: offered_def)
    with reg show ?thesis by (intro exI [of _ "[Reload, NavTo SETTINGS, ResetApp]"]) simp
  next
    case (Inr p)
    show ?thesis
    proof (cases "showAddForm s")
      case True
      obtain p' where p': "render (tz c) (s\<lparr>showAddForm := False\<rparr>) = Inr p'"
        using render_ok_close_form [OF u Inr] by blast
      have o: "offered c s CancelAddForm" using Inr u True by (simp add: offered_def enabled_def)
      have st: "app_step c (s, st) CancelAddForm = Inr (s\<lparr>showAddForm := False\<rparr>, st)"
        by (simp add: app_step_def render_commit_def save_deps_def)
      have "run c (s, st) [CancelAddForm, NavTo SETTINGS, ResetApp] = Some (initial_state c, reset_storage)"
        using o st reset_from_page [of "s\<lparr>showAddForm := False\<rparr>" c p' st] u p' by simp
      with reg show ?thesis by (intro exI [of _ "[CancelAddForm, NavTo SETTINGS, ResetApp]"]) simp
    next
      case False
      with reg reset_from_page [OF assms(2) False Inr, of st] show ?thesis
        by (intro exI [of _ "[NavTo SETTINGS, ResetApp]"]) simp
    qed
  qed
qed

theorem reset_always_reachable_witness:
  "reachable (\<lparr>user = Some \<lparr>name = ''Asha'', mobile = ''9876543210''\<rparr>,
       expenses = [\<lparr>expense_id = ''u6'', amount = 120, category = ''Food'', date = ''yesterday'', description = ''lunch''\<rparr>,
                   \<lparr>expense_id = ''u4'', amount = -50, category = ''Other'', date = ''2024-05-09'', description = []\<rparr>],
       settings = \<lparr>weeklyLimit = 5000, phoneNumber = ''+91 9876543210''\<rparr>,
       activeTab = HISTORY, showAddForm = False,
       newExpense = \<lparr>p_id = None, p_amount = Some 0, p_category = Some ''Other'', p_date = Some ''2024-05-09'', p_description = Some []\<rparr>,
       notifications = []\<rparr>,
      \<lparr>user_slot = Written \<lparr>name = ''Asha'', mobile = ''9876543210''\<rparr>,
       data_slot = Written [\<lparr>expense_id = ''u6'', amount = 120, category = ''Food'', date = ''yesterday'', description = ''lunch''\<rparr>,
                            \<lparr>expense_id = ''u4'', amount = -50, category = ''Other'', date = ''2024-05-09'', description = []\<rparr>],
       settings_slot = Written \<lparr>weeklyLimit = 5000, phoneNumber = ''+91 9876543210''\<rparr>\<rparr>)
   \<and> user (fst (\<lparr>user = Some \<lparr>name = ''Asha'', mobile = ''9876543210''\<rparr>,
       expenses = [\<lparr>expense_id = ''u6'', amount = 120, category = ''Food'', date = ''yesterday'', description = ''lunch''\<rparr>,
                   \<lparr>expense_id = ''u4'', amount = -50, category = ''Other'', date = ''2024-05-09'', description = []\<rparr>],
       settings = \<lparr>weeklyLimit = 5000, phoneNumber = ''+91 9876543210''\<rparr>,
       activeTab = HISTORY, showAddForm = False,
       newExpense = \<lparr>p_id = None, p_amount = Some 0, p_category = Some ''Other'', p_date = Some ''2024-05-09'', p_description = Some []\<rparr>,
       notifications = []\<rparr>,
      \<lparr>user_slot = Written \<lparr>name = ''Asha'', mobile = ''9876543210''\<rparr>,
       data_slot = Written [\<lparr>expense_id = ''u6'', amount = 120, category = ''Food'', date = ''yesterday'', description = ''lunch''\<rparr>,
                            \<lparr>expense_id = ''u4'', amount = -50, category = ''Other'', date = ''2024-05-09'', description = []\<rparr>],
       settings_slot = Written \<lparr>weeklyLimit = 5000, phoneNumber = ''+91 9876543210''\<rparr>\<rparr>)) \<noteq> None
   \<and> (\<exists>evs. length evs \<le> 3
        \<and> run \<lparr>now = \<lparr>year = 2024, month = 5, day = 10, msec = 7200900\<rparr>, tz = 19800000, uuid = ''u8''\<rparr> (\<lparr>user = Some \<lparr>name = ''Asha'', mobile = ''9876543210''\<rparr>,
       expenses = [\<lparr>expense_id = ''u6'', amount = 120, category = ''Food'', date = ''yesterday'', description = ''lunch''\<rparr>,
                   \<lparr>expense_id = ''u4'', amount = -50, category = ''Other'', date = ''2024-05-09'', description = []\<rparr>],
       settings = \<lparr>weeklyLimit = 5000, phoneNumber = ''+91 9876543210''\<rparr>,
       activeTab = HISTORY, showAddForm = False,
       newExpense = \<lparr>p_id = None, p_amount = Some 0, p_category = Some ''Other'', p_date = Some ''2024-05-09'', p_description = Some []\<rparr>,
       notifications = []\<rparr>,
      \<lparr>user_slot = Written \<lparr>name = ''Asha'', mobile = ''9876543210''\<rparr>,
       data_slot = Written [\<lparr>expense_id = ''u6'', amount = 120, category = ''Food'', date = ''yesterday'', description = ''lunch''\<rparr>,
                            \<lparr>expense_id = ''u4'', amount = -50, category = ''Other'', date = ''2024-05-09'', description = []\<rparr>],
       settings_slot = Written \<lparr>weeklyLimit = 5000, phoneNumber = ''+91 9876543210''\<rparr>\<rparr>) evs
          = Some (initial_state \<lparr>now = \<lparr>year = 2024, month = 5, day = 10, msec = 7200900\<rparr>, tz = 19800000, uuid = ''u8''\<rparr>, reset_storage)
        \<and> render 19800000 (initial_state \<lparr>now = \<lparr>year = 2024, month = 5, day = 10, msec = 7200900\<rparr>, tz = 19800000, uuid = ''u8''\<rparr>) = Inr RegistrationPage)"
  using scanner_run_state reset_always_reachable [OF scanner_run_state] by simp

end
