(* ===== verification/Instants.thy ===== *)
theory Instants
  imports Ledger
begin

text \<open>
  Calendar dates refine JavaScript time values. A \<^verbatim>\<open>Date\<close> is, in the language
  definition, a time value: milliseconds since 1970-01-01T00:00Z
  (\<^verbatim>\<open>getTime()\<close>). The model of \<open>Dates\<close> keeps the local calendar fields
  instead. This theory gives the abstraction function \<open>getTime\<close> from the fields
  to the time value (through the day count \<open>day_number\<close>) and proves that the
  calendar operations the program relies on are the time-value operations:
  \<open>add_msec\<close> is addition, \<open>date_lt\<close> (and so \<^verbatim>\<open>isAfter\<close>) is the order of
  time values, and every time value has exactly one valid calendar form.
\<close>

section \<open>Day numbers and time values\<close>

text \<open>
  Days from 1970-01-01 to 1 March of year \<open>y\<close>, counting years from March so that
  the leap day is the last day of a year.
\<close>

definition march_start :: "int \<Rightarrow> int" where
  "march_start y = 365 * y + y div 4 - y div 100 + y div 400 - 719468"

definition month_start :: "int \<Rightarrow> nat \<Rightarrow> int" where
  "month_start y m =
     (if m \<le> 2 then march_start (y - 1) + (153 * (int m + 9) + 2) div 5
      else march_start y + (153 * (int m - 3) + 2) div 5)"

definition day_number :: "js_date \<Rightarrow> int" where
  "day_number d = month_start (year d) (month d) + int (day d) - 1"

text \<open>\<^verbatim>\<open>getTime()\<close>: the local fields less the zone offset.\<close>

definition getTime :: "int \<Rightarrow> js_date \<Rightarrow> int" where
  "getTime tz d = day_number d * int day_ms + int (msec d) - tz"

text \<open>The first instant of 1970 in local fields, and the date of a time value.\<close>

definition epoch :: js_date where
  "epoch = \<lparr>year = 1970, month = 1, day = 1, msec = 0\<rparr>"

definition from_time :: "int \<Rightarrow> int \<Rightarrow> js_date" where
  "from_time tz t = add_msec (t + tz) epoch"

text \<open>The first day of the month with index \<open>i = 12 * year + month - 1\<close>.\<close>

definition index_start :: "int \<Rightarrow> int" where
  "index_start i = month_start (i div 12) (nat (i mod 12) + 1)"

definition index_length :: "int \<Rightarrow> nat" where
  "index_length i = days_in_month (i div 12) (nat (i mod 12) + 1)"

definition month_idx :: "js_date \<Rightarrow> int" where
  "month_idx d = year d * 12 + int (month d) - 1"

declare march_start_def [eval_simps] month_start_def [eval_simps] day_number_def [eval_simps]
  getTime_def [eval_simps] epoch_def [eval_simps] from_time_def [eval_simps]

section \<open>Month lengths\<close>

lemma div_step:
  fixes y k :: int
  assumes "0 < k"
  shows "y div k - (y - 1) div k = (if k dvd y then 1 else 0)"
proof (cases "k dvd y")
  case True
  then obtain a where y: "y = k * a" by blast
  have "(k * a - 1) div k = a - 1"
    using assms by (intro int_div_pos_eq [of _ _ _ "k - 1"]) (simp_all add: algebra_simps)
  with True y assms show ?thesis by simp
next
  case False
  then have "y mod k \<noteq> 0" by (simp add: dvd_eq_mod_eq_0)
  then have "1 \<le> y mod k" using assms pos_mod_sign [of k y] by linarith
  then have "(y - 1) div k = y div k"
    using assms pos_mod_bound [OF assms, of y]
    by (intro int_div_pos_eq [of _ _ _ "y mod k - 1"]) (simp_all add: algebra_simps)
  with False show ?thesis by simp
qed

lemma leap_days_step:
  "y div 4 - (y - 1) div 4 - (y div 100 - (y - 1) div 100) + (y div 400 - (y - 1) div 400)
     = (if is_leap_year y then 1 else 0)"
proof -
  have "400 dvd y \<Longrightarrow> 100 dvd y" "100 dvd y \<Longrightarrow> 4 dvd y" for y :: int
    by (auto elim: dvd_trans [rotated])
  then show ?thesis
    unfolding is_leap_year_def by (simp add: div_step)
qed

lemma month_start_Feb_Mar:
  "month_start y 3 = month_start y 2 + int (days_in_month y 2)"
proof -
  have s: "month_start y 3 = march_start y" "month_start y 2 = march_start (y - 1) + 337"
    by (simp_all add: month_start_def)
  have l: "march_start y - march_start (y - 1) = 365 + (if is_leap_year y then 1 else 0)"
    using leap_days_step [of y] unfolding march_start_def by (simp only: algebra_simps)
  show ?thesis
  proof (cases "is_leap_year y")
    case True
    with s l show ?thesis by (simp add: days_in_month_def)
  next
    case False
    with s l show ?thesis by (simp add: days_in_month_def)
  qed
qed

lemma months_below_Dec:
  "1 \<le> m \<Longrightarrow> m < 12 \<Longrightarrow>
   m = 1 \<or> m = 2 \<or> m = 3 \<or> m = 4 \<or> m = 5 \<or> m = 6 \<or> m = 7 \<or> m = 8 \<or> m = 9 \<or> m = 10 \<or> m = 11"
  for m :: nat by presburger

lemma month_start_next:
  assumes "1 \<le> m" and "m < 12"
  shows "month_start y (Suc m) = month_start y m + int (days_in_month y m)"
  using months_below_Dec [OF assms] month_start_Feb_Mar [of y]
  by (elim disjE) (simp_all add: month_start_def days_in_month_def numeral_3_eq_3)

lemma month_start_Dec_Jan: "month_start (y + 1) 1 = month_start y 12 + 31"
  by (simp add: month_start_def)

section \<open>Day numbers of the calendar operations\<close>

lemma day_number_msec_update [simp]: "day_number (d\<lparr>msec := m\<rparr>) = day_number d"
  by (simp add: day_number_def)

lemma day_number_next_day:
  assumes v: "valid_date d"
  shows "day_number (next_day d) = day_number d + 1"
proof -
  consider (same) "day d < days_in_month (year d) (month d)"
    | (month) "day d = days_in_month (year d) (month d)" "month d < 12"
    | (year) "day d = 31" "month d = 12"
    using v by (fastforce simp: valid_date_def)
  then show ?thesis
  proof cases
    case same
    then show ?thesis by (simp add: next_day_def day_number_def)
  next
    case month
    moreover have "1 \<le> month d" using v by (simp add: valid_date_def)
    ultimately show ?thesis
      using month_start_next [of "month d" "year d"] by (simp add: next_day_def day_number_def)
  next
    case year
    then show ?thesis
      using month_start_Dec_Jan [of "year d"] by (simp add: next_day_def day_number_def)
  qed
qed

lemma day_number_prev_day:
  "valid_date d \<Longrightarrow> day_number (prev_day d) = day_number d - 1"
  using day_number_next_day [OF valid_prev_day, of d] next_prev_day [of d] by simp

lemma day_number_add_days:
  assumes "valid_date d"
  shows "day_number (add_days k d) = day_number d + k"
proof -
  have n: "day_number ((next_day ^^ n) d) = day_number d + int n" for n
    by (induction n) (simp_all add: day_number_next_day valid_funpow_next_day [OF assms])
  have p: "day_number ((prev_day ^^ n) d) = day_number d - int n" for n
    by (induction n) (simp_all add: day_number_prev_day valid_funpow_prev_day [OF assms])
  show ?thesis by (simp add: add_days_def n p)
qed

section \<open>The order of month indices\<close>

lemma mod_12_succ:
  fixes i :: int
  shows "i mod 12 < 11 \<Longrightarrow> (i + 1) div 12 = i div 12 \<and> (i + 1) mod 12 = i mod 12 + 1"
    and "\<not> i mod 12 < 11 \<Longrightarrow> (i + 1) div 12 = i div 12 + 1 \<and> (i + 1) mod 12 = 0 \<and> i mod 12 = 11"
proof -
  have e: "i + 1 = 12 * (i div 12) + (i mod 12 + 1)" by simp
  have r: "0 \<le> i mod 12" "i mod 12 < 12" by simp_all
  show "i mod 12 < 11 \<Longrightarrow> (i + 1) div 12 = i div 12 \<and> (i + 1) mod 12 = i mod 12 + 1"
    using int_div_pos_eq [OF e] int_mod_pos_eq [OF e] r by simp
  assume "\<not> i mod 12 < 11"
  then have r11: "i mod 12 = 11" using r by simp
  then have e': "i + 1 = 12 * (i div 12 + 1) + 0" using e by simp
  show "(i + 1) div 12 = i div 12 + 1 \<and> (i + 1) mod 12 = 0 \<and> i mod 12 = 11"
    using int_div_pos_eq [OF e'] int_mod_pos_eq [OF e'] r11 by simp
qed

lemma index_start_succ: "index_start (i + 1) = index_start i + int (index_length i)"
proof (cases "i mod 12 < 11")
  case True
  then have "(i + 1) div 12 = i div 12" "(i + 1) mod 12 = i mod 12 + 1" using mod_12_succ(1) by simp_all
  moreover have "1 \<le> nat (i mod 12) + 1" "nat (i mod 12) + 1 < 12" using True by simp_all
  ultimately show ?thesis
    using month_start_next [of "nat (i mod 12) + 1" "i div 12"]
    by (simp add: index_start_def index_length_def nat_add_distrib)
next
  case False
  then have "(i + 1) div 12 = i div 12 + 1" "(i + 1) mod 12 = 0" "i mod 12 = 11" using mod_12_succ(2) by simp_all
  then show ?thesis
    using month_start_Dec_Jan [of "i div 12"] by (simp add: index_start_def index_length_def)
qed

lemma index_start_mono:
  assumes "i < j"
  shows "index_start i + int (index_length i) \<le> index_start j"
proof -
  have "i + 1 \<le> j" using assms by simp
  then show ?thesis
  proof (induction j rule: int_ge_induct)
    case base
    then show ?case by (simp add: index_start_succ)
  next
    case (step j)
    then show ?case by (simp add: index_start_succ)
  qed
qed

lemma month_idx_fields:
  assumes "valid_date d"
  shows "index_start (month_idx d) = month_start (year d) (month d)"
    "index_length (month_idx d) = days_in_month (year d) (month d)"
proof -
  have m: "1 \<le> month d" "month d \<le> 12" using assms by (simp_all add: valid_date_def)
  have e: "month_idx d = 12 * year d + (int (month d) - 1)" by (simp add: month_idx_def)
  have "month_idx d div 12 = year d" "month_idx d mod 12 = int (month d) - 1"
    using int_div_pos_eq [OF e] int_mod_pos_eq [OF e] m by simp_all
  with m show "index_start (month_idx d) = month_start (year d) (month d)"
    "index_length (month_idx d) = days_in_month (year d) (month d)"
    by (simp_all add: index_start_def index_length_def nat_diff_distrib)
qed

lemma day_number_idx:
  "valid_date d \<Longrightarrow> day_number d = index_start (month_idx d) + int (day d) - 1"
  by (simp add: day_number_def month_idx_fields)

lemma day_number_lt:
  assumes va: "valid_date a" and vb: "valid_date b"
    and lt: "month_idx a < month_idx b \<or> month_idx a = month_idx b \<and> day a < day b"
  shows "day_number a < day_number b"
  using lt
proof
  assume i: "month_idx a < month_idx b"
  have "int (day a) \<le> int (index_length (month_idx a))" "1 \<le> day b"
    using va vb by (simp_all add: month_idx_fields valid_date_def)
  then show ?thesis
    using index_start_mono [OF i] day_number_idx [OF va] day_number_idx [OF vb] by linarith
next
  assume "month_idx a = month_idx b \<and> day a < day b"
  then show ?thesis using day_number_idx [OF va] day_number_idx [OF vb] by simp
qed

lemma date_lt_month_idx:
  assumes va: "valid_date a" and vb: "valid_date b" and lt: "date_lt a b"
  shows "month_idx a < month_idx b
    \<or> month_idx a = month_idx b \<and> day a < day b
    \<or> year a = year b \<and> month a = month b \<and> day a = day b \<and> msec a < msec b"
proof -
  have "1 \<le> month a" "month a \<le> 12" "1 \<le> month b" "month b \<le> 12"
    using va vb by (simp_all add: valid_date_def)
  then show ?thesis using lt unfolding date_lt_def month_idx_def by auto
qed

lemma getTime_lt:
  assumes va: "valid_date a" and vb: "valid_date b" and lt: "date_lt a b"
  shows "getTime tz a < getTime tz b"
proof -
  have ms: "msec a < day_ms" "msec b < day_ms" using va vb by (simp_all add: valid_date_def)
  consider (days) "day_number a < day_number b"
    | (same) "day_number a = day_number b" "msec a < msec b"
    using date_lt_month_idx [OF va vb lt] day_number_lt [OF va vb]
    by (auto simp: day_number_def)
  then show ?thesis
  proof cases
    case days
    then have "day_number a * int day_ms + int day_ms \<le> day_number b * int day_ms"
      by (metis add.commute day_ms_pos distrib_left mult.commute mult_le_cancel_left_pos
                mult.right_neutral zless_imp_add1_zle)
    then show ?thesis using ms by (simp add: getTime_def)
  next
    case same
    then show ?thesis by (simp add: getTime_def)
  qed
qed

lemma getTime_inj:
  assumes "valid_date a" and "valid_date b" and "getTime tz a = getTime tz b"
  shows "a = b"
  using assms getTime_lt [of a b tz] getTime_lt [of b a tz] date_lt_linear [of a b] by fastforce

lemma valid_epoch: "valid_date epoch"
  by (simp add: epoch_def valid_date_def days_in_month_def day_ms_def)

lemma getTime_epoch: "getTime tz epoch = - tz"
  by (simp add: getTime_def epoch_def day_number_def month_start_def march_start_def)

section \<open>Refinement theorems\<close>

text \<open>
  C23: moving a valid date by \<open>\<delta>\<close> milliseconds in the calendar model
  (\<open>add_msec\<close>, used for the zone shift of \<^verbatim>\<open>toISOString\<close>) adds \<open>\<delta>\<close> to its
  time value.
\<close>

theorem getTime_add_msec:
  assumes "valid_date d"
  shows "getTime tz (add_msec delta d) = getTime tz d + delta"
proof -
  let ?t = "int (msec d) + delta" and ?D = "int day_ms"
  have m: "0 \<le> ?t mod ?D" "?t mod ?D < ?D" using day_ms_pos by simp_all
  have v: "valid_date (d\<lparr>msec := nat (?t mod ?D)\<rparr>)"
    using assms m by (intro valid_msec_update) simp_all
  have "getTime tz (add_msec delta d) = (day_number d + ?t div ?D) * ?D + ?t mod ?D - tz"
    using m by (simp add: add_msec_def Let_def getTime_def day_number_add_days [OF v])
  also have "\<dots> = day_number d * ?D + ?t - tz"
    by (simp add: distrib_right)
  finally show ?thesis by (simp add: getTime_def)
qed

theorem getTime_add_msec_witness:
  "valid_date \<lparr>year = 2024, month = 5, day = 10, msec = 7200000\<rparr>
   \<and> add_msec (- 19800000) \<lparr>year = 2024, month = 5, day = 10, msec = 7200000\<rparr>
       = \<lparr>year = 2024, month = 5, day = 9, msec = 73800000\<rparr>
   \<and> getTime 19800000 \<lparr>year = 2024, month = 5, day = 9, msec = 73800000\<rparr>
       = getTime 19800000 \<lparr>year = 2024, month = 5, day = 10, msec = 7200000\<rparr> - 19800000"
proof -
  have v: "valid_date \<lparr>year = 2024, month = 5, day = 10, msec = 7200000\<rparr>" by (simp add: eval_simps)
  have a: "add_msec (- 19800000) \<lparr>year = 2024, month = 5, day = 10, msec = 7200000\<rparr>
       = \<lparr>year = 2024, month = 5, day = 9, msec = 73800000\<rparr>" by (simp add: eval_simps)
  show ?thesis using v a getTime_add_msec [OF v, of 19800000 "- 19800000"] by simp
qed

text \<open>
  C24: on valid dates, \<^verbatim>\<open>isAfter\<close> of the calendar model is the comparison of
  time values that date-fns performs (\<^verbatim>\<open>date.getTime() > dateToCompare.getTime()\<close>).
\<close>

theorem isAfter_getTime:
  assumes "valid_date d" and "valid_date c"
  shows "isAfter d c = (getTime tz c < getTime tz d)"
proof
  assume "isAfter d c"
  then show "getTime tz c < getTime tz d"
    using getTime_lt [OF assms(2,1)] by (simp add: isAfter_def)
next
  assume lt: "getTime tz c < getTime tz d"
  show "isAfter d c"
  proof (rule ccontr)
    assume "\<not> isAfter d c"
    then have "c = d \<or> date_lt d c" using date_lt_linear [of c d] by (auto simp: isAfter_def)
    then show False using lt getTime_lt [OF assms, of tz] by auto
  qed
qed

theorem isAfter_getTime_witness:
  "valid_date \<lparr>year = 2024, month = 5, day = 9, msec = 0\<rparr>
   \<and> valid_date \<lparr>year = 2024, month = 3, day = 10, msec = 7200000\<rparr>
   \<and> isAfter \<lparr>year = 2024, month = 5, day = 9, msec = 0\<rparr> \<lparr>year = 2024, month = 3, day = 10, msec = 7200000\<rparr>
   \<and> getTime 19800000 \<lparr>year = 2024, month = 3, day = 10, msec = 7200000\<rparr>
       < getTime 19800000 \<lparr>year = 2024, month = 5, day = 9, msec = 0\<rparr>"
proof -
  have v: "valid_date \<lparr>year = 2024, month = 5, day = 9, msec = 0\<rparr>"
    "valid_date \<lparr>year = 2024, month = 3, day = 10, msec = 7200000\<rparr>" by (simp_all add: eval_simps)
  have a: "isAfter \<lparr>year = 2024, month = 5, day = 9, msec = 0\<rparr> \<lparr>year = 2024, month = 3, day = 10, msec = 7200000\<rparr>"
    by (simp add: isAfter_def date_lt_def)
  show ?thesis using v a isAfter_getTime [OF v, of 19800000] by simp
qed

text \<open>
  C25: a valid calendar date is determined by its time value, and every time value
  is the time value of a valid date: \<open>from_time\<close> and \<open>getTime\<close> are inverse
  bijections between time values and valid calendar dates.
\<close>

theorem from_time_unique:
  "(valid_date d \<and> getTime tz d = t) = (d = from_time tz t)"
proof -
  have v: "valid_date (from_time tz t)"
    by (simp add: from_time_def valid_add_msec valid_epoch)
  have g: "getTime tz (from_time tz t) = t"
    by (simp add: from_time_def getTime_add_msec valid_epoch getTime_epoch)
  show ?thesis using v g getTime_inj [OF _ v, of d tz] by auto
qed

end
