(* ===== verification/Float64.thy ===== *)
theory Float64
  imports Ledger Numbers
begin

text \<open>
  JavaScript numbers as IEEE 754 binary64 values. A finite double is kept as the
  rational it denotes; \<open>f64_round\<close> rounds an exact rational to the nearest double
  (ties to even), overflowing to an infinity as IEEE 754 prescribes. The ledger's
  \<^verbatim>\<open>reduce\<close> sum and the limit comparison of \<^verbatim>\<open>addExpense\<close> are modelled again
  over these values, and related to the exact-rational model of \<open>Ledger\<close>.
\<close>

section \<open>Doubles\<close>

datatype double = Fin rat | PInf | NInf | NaN

text \<open>Number of binary digits of a positive integer.\<close>

function nbits :: "int \<Rightarrow> nat" where
  "nbits n = (if n \<le> 0 then 0 else Suc (nbits (n div 2)))"
  by auto
termination by (relation "measure nat") auto

declare nbits.simps [simp del]

text \<open>\<open>log2_floor q\<close>: the exponent \<open>t\<close> with \<open>2^t \<le> q < 2^(t+1)\<close>, for \<open>q > 0\<close>.\<close>

definition log2_floor :: "rat \<Rightarrow> int" where
  "log2_floor q = (let (a, b) = quotient_of q; t = int (nbits a) - int (nbits b)
                   in if power_int 2 t \<le> q then t else t - 1)"

text \<open>Rounding to the nearest integer, ties to the even one.\<close>

definition round_even :: "rat \<Rightarrow> int" where
  "round_even x = (let n = \<lfloor>x\<rfloor>; d = x - of_int n in
     if d < 1/2 then n else if 1/2 < d then n + 1 else if even n then n else n + 1)"

text \<open>
  The exponent of the last place kept: 53 significant bits for a normal value, the
  fixed exponent \<open>-1074\<close> for a subnormal one.
\<close>

definition f64_exp :: "rat \<Rightarrow> int" where
  "f64_exp q = max (log2_floor \<bar>q\<bar> - 52) (-1074)"

definition f64_round :: "rat \<Rightarrow> double" where
  "f64_round q = (if q = 0 then Fin 0 else
     let e = f64_exp q; m = round_even (q / power_int 2 e) in
     if 971 < e \<or> (e = 971 \<and> 2 ^ 53 \<le> \<bar>m\<bar>) then (if 0 < q then PInf else NInf)
     else Fin (of_int m * power_int 2 e))"

text \<open>Addition and the \<open><\<close> comparison of JavaScript numbers.\<close>

fun f64_add :: "double \<Rightarrow> double \<Rightarrow> double" where
  "f64_add (Fin a) (Fin b) = f64_round (a + b)"
| "f64_add NaN y = NaN"
| "f64_add x NaN = NaN"
| "f64_add PInf NInf = NaN"
| "f64_add NInf PInf = NaN"
| "f64_add PInf y = PInf"
| "f64_add NInf y = NInf"
| "f64_add x PInf = PInf"
| "f64_add x NInf = NInf"

fun f64_less :: "double \<Rightarrow> double \<Rightarrow> bool" where
  "f64_less (Fin a) (Fin b) = (a < b)"
| "f64_less NaN y = False"
| "f64_less x NaN = False"
| "f64_less NInf y = (y \<noteq> NInf)"
| "f64_less x PInf = (x \<noteq> PInf)"
| "f64_less x y = False"

text \<open>
  \<^verbatim>\<open>Number(e.target.value)\<close>: the decimal value of what the input reports, rounded to
  a double (an input reports the empty string or a valid floating-point number; on
  other strings the value is NaN, which \<^verbatim>\<open>Number\<close> gives for most of them).
\<close>

definition Number_f64 :: "string \<Rightarrow> double" where
  "Number_f64 s = (if number_input_ok s then f64_round (Number_input s) else NaN)"

section \<open>The limit check of \<^verbatim>\<open>addExpense\<close> in doubles\<close>

definition week_total_f64 :: "expense list \<Rightarrow> double" where
  "week_total_f64 xs = foldl (\<lambda>sum e. f64_add sum (Fin (amount e))) (Fin 0) xs"

definition exceeds_f64 :: "expense list \<Rightarrow> js_number \<Rightarrow> bool" where
  "exceeds_f64 xs limit = f64_less (Fin limit) (week_total_f64 xs)"

text \<open>The values IEEE 754 binary64 represents, as the standard defines them.\<close>

definition representable :: "rat \<Rightarrow> bool" where
  "representable r \<longleftrightarrow>
     (\<exists>m e. r = of_int m * power_int 2 e \<and> \<bar>m\<bar> < 2 ^ 53 \<and> -1074 \<le> e \<and> e \<le> 971)"

definition f64_threshold :: rat where
  "f64_threshold = 2 ^ 1024 - 2 ^ 970"

declare nbits.simps [simp del]

section \<open>Binary exponents\<close>

lemma nbits_pos: "0 < n \<Longrightarrow> nbits n = Suc (nbits (n div 2))"
  by (simp add: nbits.simps)

lemma nbits_bounds:
  fixes n :: int
  assumes "0 < n"
  shows "2 ^ (nbits n - 1) \<le> n \<and> n < 2 ^ nbits n"
  using assms
proof (induction n rule: nbits.induct)
  case (1 n)
  show ?case
  proof (cases "n = 1")
    case True
    then show ?thesis by (simp add: nbits.simps)
  next
    case False
    then have h: "0 < n div 2" using "1.prems" by (simp add: pos_imp_zdiv_pos_iff)
    then have IH: "2 ^ (nbits (n div 2) - 1) \<le> n div 2 \<and> n div 2 < 2 ^ nbits (n div 2)"
      using "1.IH" "1.prems" by simp
    obtain k where k: "nbits (n div 2) = Suc k" using nbits_pos [OF h] by simp
    have nb: "nbits n = Suc (Suc k)" using nbits_pos [OF "1.prems"] k by simp
    have lo: "2 ^ k \<le> n div 2" and hi: "n div 2 < 2 * 2 ^ k" using IH k by simp_all
    have e: "n = 2 * (n div 2) + n mod 2" by simp
    have m: "0 \<le> n mod 2" "n mod 2 < 2" by simp_all
    have "2 * 2 ^ k \<le> n \<and> n < 4 * 2 ^ k" using e m lo hi by linarith
    then show ?thesis using nb by simp
  qed
qed

lemma pow2_le_iff [simp]: "power_int (2::rat) m \<le> power_int 2 n \<longleftrightarrow> m \<le> n"
  using power_int_strict_increasing [of n m "2::rat"] power_int_increasing [of m n "2::rat"]
  by (cases "m \<le> n") auto

lemma pow2_less_iff [simp]: "power_int (2::rat) m < power_int 2 n \<longleftrightarrow> m < n"
  by (simp add: less_le_not_le)

lemma pow2_add: "power_int (2::rat) (m + n) = power_int 2 m * power_int 2 n"
  by (simp add: power_int_add)

lemma pow2_pos [simp]: "0 < power_int (2::rat) e"
  by simp

lemma log2_floor:
  assumes "0 < q"
  shows "power_int 2 (log2_floor q) \<le> q \<and> q < power_int 2 (log2_floor q + 1)"
proof -
  obtain a b where ab: "quotient_of q = (a, b)" by (cases "quotient_of q")
  then have q: "q = of_int a / of_int b" and b: "0 < b"
    by (auto simp: quotient_of_div quotient_of_denom_pos)
  then have a: "0 < a" using assms by (simp add: zero_less_divide_iff)
  define A where "A = nbits a"
  define B where "B = nbits b"
  have A: "2 ^ (A - 1) \<le> (of_int a :: rat) \<and> (of_int a :: rat) < 2 ^ A"
    using nbits_bounds [OF a] unfolding A_def
    by (metis of_int_le_iff of_int_less_iff of_int_numeral of_int_power)
  have B: "2 ^ (B - 1) \<le> (of_int b :: rat) \<and> (of_int b :: rat) < 2 ^ B"
    using nbits_bounds [OF b] unfolding B_def
    by (metis of_int_le_iff of_int_less_iff of_int_numeral of_int_power)
  have A1: "1 \<le> A" and B1: "1 \<le> B" using a b by (simp_all add: A_def B_def nbits_pos)
  have pA: "power_int (2::rat) (int A - 1) = 2 ^ (A - 1)"
    using A1 power_int_of_nat [of "2::rat" "A - 1"] by (simp add: of_nat_diff)
  have pB: "power_int (2::rat) (int B - 1) = 2 ^ (B - 1)"
    using B1 power_int_of_nat [of "2::rat" "B - 1"] by (simp add: of_nat_diff)
  have lo: "power_int 2 (int A - int B - 1) < q"
  proof -
    have "power_int (2::rat) (int A - int B - 1) = 2 ^ (A - 1) / 2 ^ B"
      using pA power_int_diff [of "2::rat" "int A - 1" "int B"] by (simp add: algebra_simps)
    also have "\<dots> \<le> of_int a / 2 ^ B" using A by (simp add: divide_right_mono)
    also have "\<dots> < of_int a / of_int b" using A B a b by (simp add: divide_strict_left_mono)
    finally show ?thesis using q by simp
  qed
  have hi: "q < power_int 2 (int A - int B + 1)"
  proof -
    have "q < 2 ^ A / of_int b" using q A b by (simp add: divide_strict_right_mono)
    also have "\<dots> \<le> 2 ^ A / 2 ^ (B - 1)" using B b by (intro divide_left_mono) auto
    also have "\<dots> = power_int 2 (int A - int B + 1)"
      using pB power_int_diff [of "2::rat" "int A" "int B - 1"] by (simp add: algebra_simps)
    finally show ?thesis .
  qed
  show ?thesis
    using lo hi by (auto simp: log2_floor_def ab A_def [symmetric] B_def [symmetric] Let_def)
qed

lemma log2_floor_unique:
  assumes "power_int 2 t \<le> q" and "q < power_int 2 (t + 1)"
  shows "log2_floor q = t"
proof -
  have "0 < q" using assms(1) pow2_pos [of t] by linarith
  from log2_floor [OF this] have "power_int (2::rat) (log2_floor q) < power_int 2 (t + 1)"
    and "power_int (2::rat) t < power_int 2 (log2_floor q + 1)" using assms by linarith+
  then show ?thesis by simp
qed

section \<open>Rounding to the nearest integer\<close>

lemma round_even_near: "\<bar>of_int (round_even x) - x\<bar> \<le> \<bar>of_int k - x\<bar>"
proof -
  have f: "of_int \<lfloor>x\<rfloor> \<le> x" "x < of_int \<lfloor>x\<rfloor> + 1" by linarith+
  consider "k \<le> \<lfloor>x\<rfloor>" | "\<lfloor>x\<rfloor> + 1 \<le> k" by linarith
  then show ?thesis
  proof cases
    case 1
    then have "of_int k \<le> (of_int \<lfloor>x\<rfloor> :: rat)" by simp
    then show ?thesis using f by (auto simp: round_even_def Let_def)
  next
    case 2
    then have "(of_int \<lfloor>x\<rfloor> :: rat) + 1 \<le> of_int k" by (metis of_int_add of_int_le_iff of_int_1)
    then show ?thesis using f by (auto simp: round_even_def Let_def)
  qed
qed

lemma round_even_half: "\<bar>of_int (round_even x) - x\<bar> \<le> 1/2"
proof (cases "x - of_int \<lfloor>x\<rfloor> \<le> 1/2")
  case True
  then show ?thesis using round_even_near [of x "\<lfloor>x\<rfloor>"] of_int_floor_le [of x] by linarith
next
  case False
  have "x < of_int \<lfloor>x\<rfloor> + 1" by linarith
  then show ?thesis using False round_even_near [of x "\<lfloor>x\<rfloor> + 1"] by linarith
qed

lemma round_even_ge:
  assumes "even k" and "of_int k - 1/2 \<le> x"
  shows "k \<le> round_even x"
proof (cases "k \<le> \<lfloor>x\<rfloor>")
  case True
  then show ?thesis by (auto simp: round_even_def Let_def)
next
  case False
  have "k - 1 \<le> \<lfloor>x\<rfloor>" unfolding le_floor_iff using assms(2) by simp
  then have fl: "\<lfloor>x\<rfloor> = k - 1" using False by linarith
  have "odd (k - 1)" using assms(1) by simp
  then show ?thesis using fl assms(2) by (auto simp: round_even_def Let_def)
qed

lemma round_even_le:
  assumes "even k" and "x \<le> of_int k + 1/2"
  shows "round_even x \<le> k"
proof -
  have "\<lfloor>x\<rfloor> \<le> k" unfolding floor_le_iff using assms(2) by simp
  then consider "\<lfloor>x\<rfloor> \<le> k - 1" | "\<lfloor>x\<rfloor> = k" by linarith
  then show ?thesis
  proof cases
    case 1
    then show ?thesis by (auto simp: round_even_def Let_def)
  next
    case 2
    then show ?thesis using assms by (auto simp: round_even_def Let_def)
  qed
qed

section \<open>Rounding to a double\<close>

lemma div_pow2_less_iff: "x / power_int 2 e < power_int 2 k \<longleftrightarrow> x < power_int (2::rat) (k + e)"
  by (simp add: pos_divide_less_eq pow2_add)

lemma pow2_le_div_iff: "power_int 2 k \<le> x / power_int 2 e \<longleftrightarrow> power_int (2::rat) (k + e) \<le> x"
  by (simp add: pos_le_divide_eq pow2_add)

lemma abs_div_pow2: "\<bar>x / power_int 2 e\<bar> = \<bar>x\<bar> / power_int (2::rat) e"
  by (simp add: abs_divide)

lemma scaled_dist: "\<bar>y * power_int 2 e - q\<bar> = power_int (2::rat) e * \<bar>y - q / power_int 2 e\<bar>"
proof -
  have "y * power_int 2 e - q = power_int 2 e * (y - q / power_int (2::rat) e)"
    by (simp add: algebra_simps)
  then show ?thesis by (simp add: abs_mult)
qed

lemma f64_exp_log2:
  assumes "q \<noteq> 0"
  shows "power_int 2 (log2_floor \<bar>q\<bar>) \<le> \<bar>q\<bar> \<and> \<bar>q\<bar> < power_int 2 (log2_floor \<bar>q\<bar> + 1)"
  using log2_floor [of "\<bar>q\<bar>"] assms by simp

lemma f64_exp_upper:
  assumes "q \<noteq> 0"
  shows "\<bar>q\<bar> / power_int 2 (f64_exp q) < power_int 2 53"
proof -
  have "power_int (2::rat) (log2_floor \<bar>q\<bar> + 1) \<le> power_int 2 (53 + f64_exp q)"
    by (simp add: f64_exp_def max_def)
  then show ?thesis using f64_exp_log2 [OF assms] unfolding div_pow2_less_iff by linarith
qed

lemma f64_exp_lower:
  assumes "q \<noteq> 0" and "-1074 < f64_exp q"
  shows "power_int 2 52 \<le> \<bar>q\<bar> / power_int 2 (f64_exp q)"
proof -
  have "f64_exp q = log2_floor \<bar>q\<bar> - 52" using assms(2) by (simp add: f64_exp_def max_def split: if_splits)
  then show ?thesis using f64_exp_log2 [OF assms(1)] unfolding pow2_le_div_iff by simp
qed

lemma round_even_nearest_rep:
  assumes "representable d" and "q \<noteq> 0"
  defines "x \<equiv> q / power_int 2 (f64_exp q)"
  shows "\<bar>of_int (round_even x) - x\<bar> \<le> \<bar>d / power_int 2 (f64_exp q) - x\<bar>"
proof -
  define e where "e = f64_exp q"
  obtain k f where d: "d = of_int k * power_int 2 f" and k: "\<bar>k\<bar> < 2 ^ 53" and f: "-1074 \<le> f"
    using assms(1) unfolding representable_def by blast
  show ?thesis
  proof (cases "e \<le> f")
    case True
    have "power_int (2::rat) f / power_int 2 e = power_int 2 (f - e)" by (simp add: power_int_diff)
    also have "\<dots> = 2 ^ nat (f - e)" using True by (simp add: power_int_nonneg_exp)
    finally have "d / power_int 2 e = of_int (k * 2 ^ nat (f - e))"
      by (simp add: d times_divide_eq_right [symmetric])
    then show ?thesis unfolding e_def by (simp only: round_even_near)
  next
    case False
    then have "-1074 < e" using f by linarith
    then have big: "power_int 2 52 \<le> \<bar>x\<bar>"
      using f64_exp_lower [OF assms(2)] by (simp add: x_def e_def abs_div_pow2)
    have "\<bar>d\<bar> = of_int \<bar>k\<bar> * power_int 2 f" by (simp add: d abs_mult)
    also have "\<dots> < 2 ^ 53 * power_int 2 f"
    proof -
      have "(of_int \<bar>k\<bar> :: rat) < 2 ^ 53" using k by (metis of_int_less_iff of_int_numeral of_int_power)
      then show ?thesis by simp
    qed
    also have "\<dots> = power_int 2 (53 + f)" by (simp add: pow2_add)
    also have "\<dots> \<le> power_int 2 (52 + e)" using False by simp
    finally have small: "\<bar>d / power_int 2 e\<bar> < power_int 2 52"
      by (simp only: abs_div_pow2 div_pow2_less_iff)
    define s where "s = (if 0 < x then (2::int) ^ 52 else - (2 ^ 52))"
    have "\<bar>of_int s - x\<bar> \<le> \<bar>d / power_int 2 e - x\<bar>"
      using big small by (auto simp: s_def abs_if split: if_splits)
    then show ?thesis using round_even_near [of x s] by (simp add: e_def)
  qed
qed

lemma round_even_upper:
  assumes "x < of_int k + 1/2"
  shows "round_even x \<le> k"
proof -
  have "of_int (round_even x) - x \<le> 1/2" using round_even_half [of x] by (rule abs_le_D1)
  then have "of_int (round_even x) < (of_int k + 1 :: rat)" using assms by linarith
  then have "round_even x < k + 1" by (metis of_int_1 of_int_add of_int_less_iff)
  then show ?thesis by linarith
qed

lemma round_even_lower:
  assumes "of_int k - 1/2 < x"
  shows "k \<le> round_even x"
proof -
  have "x - of_int (round_even x) \<le> 1/2" using abs_le_D2 [OF round_even_half [of x]] by simp
  then have "(of_int k - 1 :: rat) < of_int (round_even x)" using assms by linarith
  then have "k - 1 < round_even x" by (metis of_int_1 of_int_diff of_int_less_iff)
  then show ?thesis by linarith
qed

lemma f64_exp_ge: "-1074 \<le> f64_exp q"
  by (simp add: f64_exp_def)

lemma f64_threshold_eq: "f64_threshold = (2 ^ 53 - 1/2) * power_int 2 971"
  by (simp add: f64_threshold_def)

lemma f64_threshold_lt: "f64_threshold < power_int 2 1024"
  by (simp add: f64_threshold_def)

lemma f64_threshold_gt: "power_int 2 1023 < f64_threshold"
  by (simp add: f64_threshold_def)

lemma representable_scaled:
  assumes "\<bar>m\<bar> \<le> 2 ^ 53" and "-1074 \<le> e" and "e \<le> 971" and "e = 971 \<longrightarrow> \<bar>m\<bar> < 2 ^ 53"
  shows "representable (of_int m * power_int 2 e)"
proof (cases "\<bar>m\<bar> < 2 ^ 53")
  case True
  then show ?thesis using assms unfolding representable_def by blast
next
  case False
  then have m: "m = 2 * 2 ^ 52 \<or> m = 2 * - (2 ^ 52)" using assms(1) by (simp add: abs_if split: if_splits)
  define h where "h = (if 0 < m then (2::int) ^ 52 else - (2 ^ 52))"
  have h: "m = 2 * h" using m by (auto simp: h_def)
  have h52: "\<bar>h\<bar> < 2 ^ 53" by (simp add: h_def)
  have e: "e < 971" using assms(3,4) m by auto
  have "power_int (2::rat) (e + 1) = 2 * power_int 2 e" by (simp add: power_int_add_1')
  then have "of_int m * power_int 2 e = of_int h * power_int (2::rat) (e + 1)" by (simp add: h)
  then show ?thesis unfolding representable_def using assms(2) e h52
    by (intro exI [of _ h] exI [of _ "e + 1"]) simp
qed

lemma f64_round_no_overflow:
  assumes "q \<noteq> 0" and "\<bar>q\<bar> < f64_threshold"
  defines "m \<equiv> round_even (q / power_int 2 (f64_exp q))"
  shows "f64_exp q \<le> 971 \<and> \<bar>m\<bar> \<le> 2 ^ 53 \<and> (f64_exp q = 971 \<longrightarrow> \<bar>m\<bar> < 2 ^ 53)"
proof -
  define e where "e = f64_exp q"
  define x where "x = q / power_int 2 e"
  have "power_int (2::rat) (log2_floor \<bar>q\<bar>) < power_int 2 1024"
    using f64_exp_log2 [OF assms(1)] assms(2) f64_threshold_lt by linarith
  then have "log2_floor \<bar>q\<bar> < 1024" by (simp only: pow2_less_iff)
  then have e971: "e \<le> 971" by (simp add: e_def f64_exp_def)
  have "\<bar>x\<bar> < 2 ^ 53" using f64_exp_upper [OF assms(1)] by (simp add: x_def e_def abs_div_pow2)
  then have "m \<le> 2 ^ 53 \<and> - (2 ^ 53) \<le> m"
    unfolding m_def e_def [symmetric] x_def [symmetric]
    by (intro conjI round_even_upper round_even_lower) (simp_all add: abs_less_iff)
  moreover have "\<bar>m\<bar> < 2 ^ 53" if "e = 971"
  proof -
    have "\<bar>q\<bar> < (2 ^ 53 - 1/2) * power_int 2 e" using assms(2) that by (simp only: f64_threshold_eq)
    then have "\<bar>x\<bar> < 2 ^ 53 - 1/2" by (simp add: x_def abs_div_pow2 pos_divide_less_eq)
    then have "m \<le> 2 ^ 53 - 1 \<and> - (2 ^ 53 - 1) \<le> m"
      unfolding m_def e_def [symmetric] x_def [symmetric]
      by (intro conjI round_even_upper round_even_lower) (simp_all add: abs_less_iff)
    then show ?thesis by (simp add: abs_less_iff)
  qed
  ultimately show ?thesis using e971 by (auto simp: e_def)
qed

lemma f64_overflow_cond:
  assumes "f64_threshold \<le> \<bar>q\<bar>"
  defines "m \<equiv> round_even (q / power_int 2 (f64_exp q))"
  shows "q \<noteq> 0 \<and> (971 < f64_exp q \<or> (f64_exp q = 971 \<and> 2 ^ 53 \<le> \<bar>m\<bar>))"
proof -
  define e where "e = f64_exp q"
  define x where "x = q / power_int 2 e"
  have big: "power_int 2 1023 < \<bar>q\<bar>" using assms(1) f64_threshold_gt by linarith
  then have q0: "q \<noteq> 0" by auto
  have "power_int (2::rat) 1023 < power_int 2 (log2_floor \<bar>q\<bar> + 1)"
    using f64_exp_log2 [OF q0] big by linarith
  then have "1023 < log2_floor \<bar>q\<bar> + 1" by (simp only: pow2_less_iff)
  then have e: "971 \<le> e" by (simp add: e_def f64_exp_def)
  have "2 ^ 53 \<le> \<bar>m\<bar>" if "e = 971"
  proof -
    have "(2 ^ 53 - 1/2) * power_int 2 e \<le> \<bar>q\<bar>" using assms(1) that by (simp only: f64_threshold_eq)
    then have "2 ^ 53 - 1/2 \<le> \<bar>x\<bar>" by (simp add: x_def abs_div_pow2 pos_le_divide_eq)
    then consider "of_int (2 ^ 53) - 1/2 \<le> x" | "x \<le> of_int (- (2 ^ 53)) + 1/2"
      by (cases "0 \<le> x") simp_all
    then show ?thesis
    proof cases
      case 1
      then have "2 ^ 53 \<le> m" unfolding m_def e_def [symmetric] x_def [symmetric]
        by (intro round_even_ge) simp_all
      then show ?thesis by simp
    next
      case 2
      then have "m \<le> - (2 ^ 53)" unfolding m_def e_def [symmetric] x_def [symmetric]
        by (intro round_even_le) simp_all
      then show ?thesis by simp
    qed
  qed
  then show ?thesis using q0 e by (auto simp: e_def)
qed

lemma no_overflow_cond:
  assumes "e \<le> 971 \<and> \<bar>m\<bar> \<le> 2 ^ 53 \<and> (e = 971 \<longrightarrow> \<bar>m\<bar> < 2 ^ 53)"
  shows "\<not> (971 < e \<or> (e = (971::int) \<and> 2 ^ 53 \<le> \<bar>m::int\<bar>))"
  using assms by auto

lemma f64_round_Fin_eq:
  assumes "q \<noteq> 0" and "\<bar>q\<bar> < f64_threshold"
  shows "f64_round q = Fin (of_int (round_even (q / power_int 2 (f64_exp q))) * power_int 2 (f64_exp q))"
  unfolding f64_round_def Let_def
  by (simp only: if_not_P [OF assms(1)] if_not_P [OF no_overflow_cond [OF f64_round_no_overflow [OF assms]]])

lemma representable_zero: "representable 0"
  unfolding representable_def by (intro exI [of _ 0] exI [of _ 0]) simp

lemma representable_int:
  assumes "\<bar>n\<bar> \<le> 2 ^ 53"
  shows "representable (of_int n)"
  using representable_scaled [of n 0] assms by simp

lemma representable_below_threshold:
  assumes "representable r"
  shows "\<bar>r\<bar> < f64_threshold"
proof -
  obtain k f where r: "r = of_int k * power_int 2 f" and k: "\<bar>k\<bar> < 2 ^ 53" and f: "f \<le> 971"
    using assms unfolding representable_def by blast
  have "\<bar>k\<bar> \<le> 2 ^ 53 - 1" using k by simp
  then have "(of_int \<bar>k\<bar> :: rat) \<le> of_int (2 ^ 53 - 1)" by (simp only: of_int_le_iff)
  then have k': "(of_int \<bar>k\<bar> :: rat) \<le> 2 ^ 53 - 1" by simp
  have p: "power_int (2::rat) f \<le> power_int 2 971" using f by (simp only: pow2_le_iff)
  have "\<bar>r\<bar> = of_int \<bar>k\<bar> * power_int 2 f" by (simp add: r abs_mult)
  also have "\<dots> \<le> (2 ^ 53 - 1) * power_int 2 971" by (rule mult_mono [OF k' p]) simp_all
  also have "\<dots> < (2 ^ 53 - 1/2) * power_int 2 971" by (rule mult_strict_right_mono) (simp, rule pow2_pos)
  finally show ?thesis by (simp only: f64_threshold_eq)
qed

lemma f64_round_fixed:
  assumes "representable r"
  shows "f64_round r = Fin r"
proof (cases "r = 0")
  case True
  then show ?thesis by (simp add: f64_round_def)
next
  case False
  define e where "e = f64_exp r"
  define x where "x = r / power_int 2 e"
  have h: "\<bar>r\<bar> < f64_threshold" by (rule representable_below_threshold [OF assms])
  have "\<bar>of_int (round_even x) - x\<bar> \<le> 0"
    using round_even_nearest_rep [OF assms False] by (simp add: x_def e_def)
  then have "of_int (round_even x) * power_int 2 e = r" by (simp add: x_def)
  then show ?thesis using f64_round_Fin_eq [OF False h] by (simp add: x_def e_def)
qed

lemma f64_add_int:
  assumes "a \<in> \<int>" and "b \<in> \<int>" and "\<bar>a + b\<bar> \<le> 2 ^ 53"
  shows "f64_add (Fin a) (Fin b) = Fin (a + b)"
proof -
  obtain n where n: "a + b = of_int n" using Ints_add [OF assms(1,2)] by (auto elim: Ints_cases)
  then have "\<bar>n\<bar> \<le> 2 ^ 53" using assms(3)
    by (metis of_int_abs of_int_le_iff of_int_numeral of_int_power)
  then have "f64_round (of_int n) = Fin (of_int n)" by (intro f64_round_fixed representable_int)
  then show ?thesis using n by simp
qed

lemma foldl_f64_add_int:
  assumes "\<forall>e\<in>set xs. amount e \<in> \<int>" and "acc \<in> \<int>"
    and "\<bar>acc\<bar> + (\<Sum>e\<leftarrow>xs. \<bar>amount e\<bar>) \<le> 2 ^ 53"
  shows "foldl (\<lambda>sum e. f64_add sum (Fin (amount e))) (Fin acc) xs
           = Fin (foldl (\<lambda>sum e. sum + amount e) acc xs)"
  using assms
proof (induction xs arbitrary: acc)
  case Nil
  then show ?case by simp
next
  case (Cons y ys)
  have "\<bar>acc + amount y\<bar> \<le> \<bar>acc\<bar> + \<bar>amount y\<bar>" by (rule abs_triangle_ineq)
  moreover have "0 \<le> (\<Sum>e\<leftarrow>ys. \<bar>amount e\<bar>)" by (induction ys) auto
  ultimately have h1: "\<bar>acc + amount y\<bar> \<le> 2 ^ 53"
    and h2: "\<bar>acc + amount y\<bar> + (\<Sum>e\<leftarrow>ys. \<bar>amount e\<bar>) \<le> 2 ^ 53"
    using Cons.prems(3) by simp_all
  have i: "acc + amount y \<in> \<int>" and ys: "\<forall>e\<in>set ys. amount e \<in> \<int>"
    using Cons.prems(1,2) by simp_all
  have step: "f64_add (Fin acc) (Fin (amount y)) = Fin (acc + amount y)"
    using Cons.prems(1,2) h1 by (intro f64_add_int) simp_all
  have "foldl (\<lambda>sum e. f64_add sum (Fin (amount e))) (Fin (acc + amount y)) ys
          = Fin (foldl (\<lambda>sum e. sum + amount e) (acc + amount y) ys)"
    using ys i h2 by (rule Cons.IH)
  then show ?case by (simp only: foldl_Cons step)
qed

lemma half_ulp_bound:
  assumes "q \<noteq> 0"
  shows "power_int 2 (f64_exp q) * (1/2) \<le> max (\<bar>q\<bar> / 2 ^ 53) (1 / 2 ^ 1075)"
proof (cases "f64_exp q = -1074")
  case True
  have "power_int (2::rat) (-1074) * (1/2) = 1 / 2 ^ 1075" by (simp add: power_int_minus)
  then show ?thesis using True by simp
next
  case False
  then have "f64_exp q = log2_floor \<bar>q\<bar> - 52" by (simp add: f64_exp_def max_def split: if_splits)
  then have "power_int 2 (f64_exp q) * (1/2) = power_int 2 (log2_floor \<bar>q\<bar>) / (2 ^ 53 :: rat)"
    by (simp add: power_int_diff)
  also have "\<dots> \<le> \<bar>q\<bar> / 2 ^ 53"
    using f64_exp_log2 [OF assms] by (simp add: divide_right_mono)
  finally show ?thesis by simp
qed

lemma f64_round_error:
  assumes "\<bar>q\<bar> < f64_threshold"
  shows "\<exists>r. f64_round q = Fin r \<and> \<bar>r - q\<bar> \<le> \<bar>q\<bar> / 2 ^ 53 + 1 / 2 ^ 1075"
proof (cases "q = 0")
  case True
  then show ?thesis by (simp add: f64_round_def)
next
  case False
  define x where "x = q / power_int 2 (f64_exp q)"
  have "\<bar>of_int (round_even x) * power_int 2 (f64_exp q) - q\<bar> = power_int 2 (f64_exp q) * \<bar>of_int (round_even x) - x\<bar>"
    by (simp only: x_def scaled_dist)
  also have "\<dots> \<le> power_int 2 (f64_exp q) * (1/2)"
    using round_even_half [of x] by (intro mult_left_mono) simp_all
  also have "\<dots> \<le> max (\<bar>q\<bar> / 2 ^ 53) (1 / 2 ^ 1075)" by (rule half_ulp_bound [OF False])
  also have "\<dots> \<le> \<bar>q\<bar> / 2 ^ 53 + 1 / 2 ^ 1075" by simp
  finally show ?thesis using f64_round_Fin_eq [OF False assms] by (simp add: x_def)
qed

lemma foldl_f64_add_error:
  fixes d :: rat
  assumes "\<bar>r - s\<bar> \<le> E" and "\<bar>s\<bar> + (\<Sum>e\<leftarrow>xs. \<bar>amount e\<bar>) \<le> M"
    and "E + of_nat (length xs) * d \<le> 1" and "M + 1 < f64_threshold"
    and "(M + 1) / 2 ^ 53 + 1 / 2 ^ 1075 \<le> d" and "0 \<le> d"
  shows "\<exists>r'. foldl (\<lambda>sum e. f64_add sum (Fin (amount e))) (Fin r) xs = Fin r' \<and>
             \<bar>r' - (s + (\<Sum>e\<leftarrow>xs. amount e))\<bar> \<le> E + of_nat (length xs) * d"
  using assms(1-3)
proof (induction xs arbitrary: r s E)
  case Nil
  then show ?case by simp
next
  case (Cons y ys)
  have sum0: "0 \<le> (\<Sum>e\<leftarrow>ys. \<bar>amount e\<bar>)" by (induction ys) auto
  have "0 \<le> of_nat (length (y # ys)) * d" using assms(6) by simp
  then have E1: "E \<le> 1" using Cons.prems(3) by linarith
  have t1: "\<bar>s + amount y\<bar> \<le> \<bar>s\<bar> + \<bar>amount y\<bar>" by (rule abs_triangle_ineq)
  have sy: "\<bar>s + amount y\<bar> + (\<Sum>e\<leftarrow>ys. \<bar>amount e\<bar>) \<le> M"
    using Cons.prems(2) t1 by simp
  then have sM: "\<bar>s + amount y\<bar> \<le> M" using sum0 by linarith
  have t2: "\<bar>r + amount y\<bar> \<le> \<bar>s + amount y\<bar> + \<bar>r - s\<bar>"
    using abs_triangle_ineq [of "s + amount y" "r - s"] by simp
  then have z: "\<bar>r + amount y\<bar> \<le> M + 1" using Cons.prems(1) E1 sM by linarith
  then have "\<bar>r + amount y\<bar> < f64_threshold" using assms(4) by linarith
  then obtain r1 where r1: "f64_round (r + amount y) = Fin r1"
    and err: "\<bar>r1 - (r + amount y)\<bar> \<le> \<bar>r + amount y\<bar> / 2 ^ 53 + 1 / 2 ^ 1075"
    using f64_round_error by blast
  have "\<bar>r + amount y\<bar> / 2 ^ 53 \<le> (M + 1) / 2 ^ 53" using z by (simp add: divide_right_mono)
  then have e1: "\<bar>r1 - (r + amount y)\<bar> \<le> d" using err assms(5) by linarith
  have t3: "\<bar>r1 - (s + amount y)\<bar> \<le> \<bar>r1 - (r + amount y)\<bar> + \<bar>r - s\<bar>"
    using abs_triangle_ineq [of "r1 - (r + amount y)" "r - s"] by simp
  then have "\<bar>r1 - (s + amount y)\<bar> \<le> E + d" using e1 Cons.prems(1) by linarith
  moreover have "E + d + of_nat (length ys) * d \<le> 1" using Cons.prems(3) by (simp add: algebra_simps)
  ultimately obtain r' where "foldl (\<lambda>sum e. f64_add sum (Fin (amount e))) (Fin r1) ys = Fin r'"
    and "\<bar>r' - (s + amount y + (\<Sum>e\<leftarrow>ys. amount e))\<bar> \<le> E + d + of_nat (length ys) * d"
    using Cons.IH sy by blast
  then show ?case using r1 by (simp add: algebra_simps)
qed

lemma abs_le_sum_abs: "v \<in> set ws \<Longrightarrow> \<bar>f v :: rat\<bar> \<le> (\<Sum>w\<leftarrow>ws. \<bar>f w\<bar>)"
proof (induction ws)
  case Nil
  then show ?case by simp
next
  case (Cons w ws)
  have "0 \<le> (\<Sum>w\<leftarrow>ws. \<bar>f w\<bar>)" by (induction ws) auto
  then show ?case using Cons by auto
qed

lemma sum_rounding_error:
  fixes t :: rat
  assumes "list_all2 (\<lambda>a v. \<bar>a - v\<bar> \<le> \<bar>v\<bar> / 2 ^ 53 + t) as vs"
  shows "\<bar>sum_list as - sum_list vs\<bar> \<le> sum_list (map abs vs) / 2 ^ 53 + of_nat (length vs) * t
         \<and> sum_list (map abs as) \<le> sum_list (map abs vs) + sum_list (map abs vs) / 2 ^ 53 + of_nat (length vs) * t"
  using assms
proof (induction rule: list_all2_induct)
  case Nil
  then show ?case by simp
next
  case (Cons a as v vs)
  have t1: "\<bar>(a + sum_list as) - (v + sum_list vs)\<bar> \<le> \<bar>a - v\<bar> + \<bar>sum_list as - sum_list vs\<bar>"
    using abs_triangle_ineq [of "a - v" "sum_list as - sum_list vs"] by (simp add: algebra_simps)
  have t2: "\<bar>a\<bar> \<le> \<bar>v\<bar> + \<bar>a - v\<bar>" using abs_triangle_ineq [of v "a - v"] by simp
  show ?case using Cons t1 t2 by (simp add: add_divide_distrib algebra_simps)
qed

lemma sum_cents: "list_all (\<lambda>v. v * 100 \<in> \<int>) vs \<Longrightarrow> sum_list vs * 100 \<in> (\<int> :: rat set)"
  by (induction vs) (simp_all add: distrib_right)

lemma cents_gap:
  assumes "x * 100 \<in> (\<int> :: rat set)" and "x \<noteq> 0"
  shows "1 / 100 \<le> \<bar>x\<bar>"
proof -
  obtain k where k: "x * 100 = of_int k" using assms(1) by (auto elim: Ints_cases)
  then have "k \<noteq> 0" using assms(2) by auto
  then have "1 \<le> \<bar>of_int k :: rat\<bar>" by (metis of_int_1_le_iff of_int_abs zero_less_abs_iff int_one_le_iff_zero_less)
  then show ?thesis using k by (simp add: abs_mult)
qed

lemma stored_inputs_error:
  assumes amounts: "list_all2 (\<lambda>e v. Fin (amount e) = Number_f64 v) xs inputs"
    and ok: "list_all number_input_ok inputs"
    and small: "(\<Sum>v\<leftarrow>inputs. \<bar>Number_input v\<bar>) \<le> 2 ^ 44"
  shows "list_all2 (\<lambda>a v. \<bar>a - v\<bar> \<le> \<bar>v\<bar> / 2 ^ 53 + 1 / 2 ^ 1075) (map amount xs) (map Number_input inputs)"
  unfolding list.rel_map
proof (rule list.rel_mono_strong [OF amounts])
  fix e v assume v: "v \<in> set inputs" and eq: "Fin (amount e) = Number_f64 v"
  have "number_input_ok v" using ok v by (simp add: list_all_iff)
  then have eq': "f64_round (Number_input v) = Fin (amount e)" using eq by (simp add: Number_f64_def)
  have "\<bar>Number_input v\<bar> \<le> 2 ^ 44" using abs_le_sum_abs [OF v, of Number_input] small by linarith
  moreover have "(2::rat) ^ 44 < f64_threshold" by (simp add: f64_threshold_def)
  ultimately have "\<bar>Number_input v\<bar> < f64_threshold" by linarith
  then show "\<bar>amount e - Number_input v\<bar> \<le> \<bar>Number_input v\<bar> / 2 ^ 53 + 1 / 2 ^ 1075"
    using f64_round_error eq' by fastforce
qed

lemma week_total_f64_error:
  assumes rel: "list_all2 (\<lambda>a v. \<bar>a - v\<bar> \<le> \<bar>v\<bar> / 2 ^ 53 + 1 / 2 ^ 1075) (map amount xs) vs"
    and small: "(of_nat (length vs) + 2) * (sum_list (map abs vs) + 1) \<le> 2 ^ 44"
  shows "\<exists>r. week_total_f64 xs = Fin r \<and>
           \<bar>r - sum_list vs\<bar> \<le> 1 / 2 ^ 8 + sum_list (map abs vs) / 2 ^ 53 + 2 * of_nat (length vs) / 2 ^ 1075"
proof -
  define V where "V = sum_list (map abs vs)"
  define n where "n = length vs"
  define t where "t = (1::rat) / 2 ^ 1075"
  have lenx: "length xs = n" using list_all2_lengthD [OF rel] by (simp add: n_def)
  have V0: "0 \<le> V" unfolding V_def by (induction vs) auto
  have B: "(of_nat n + 2) * (V + 1) \<le> 2 ^ 44" using small by (simp add: n_def V_def)
  have "(of_nat n + 2) * 1 \<le> (of_nat n + 2) * (V + 1)" using V0 by (intro mult_left_mono) simp_all
  then have "of_nat n + 2 \<le> (of_nat n + 2) * (V + 1)" by (simp only: mult_1_right)
  then have n44: "of_nat n \<le> (2::rat) ^ 44" using B by linarith
  have "1 * (V + 1) \<le> (of_nat n + 2) * (V + 1)" using V0 by (intro mult_right_mono) simp_all
  then have "V + 1 \<le> (of_nat n + 2) * (V + 1)" by (simp only: mult_1_left)
  then have V44: "V + 1 \<le> 2 ^ 44" using B by linarith
  have t0: "0 \<le> t" by (simp add: t_def)
  have "of_nat n * t \<le> 2 ^ 44 * t" using n44 t0 by (rule mult_right_mono)
  moreover have "(2::rat) ^ 44 * t \<le> 1 / 2 ^ 20" by (simp add: t_def)
  ultimately have nt: "of_nat n * t \<le> 1 / 2 ^ 20" by linarith
  have sums: "\<bar>sum_list (map amount xs) - sum_list vs\<bar> \<le> V / 2 ^ 53 + of_nat n * t"
    and abs_as: "sum_list (map abs (map amount xs)) \<le> V + V / 2 ^ 53 + of_nat n * t"
    using sum_rounding_error [OF rel [folded t_def]] by (simp_all add: V_def n_def)
  define d where "d = (2 * V + 2) / 2 ^ 53 + t"
  have "of_nat n * (2 * V + 2) \<le> (of_nat n + 2) * (2 * (V + 1))" using V0 by (intro mult_mono) simp_all
  also have "\<dots> = 2 * ((of_nat n + 2) * (V + 1))" by (simp only: mult.left_commute)
  also have "\<dots> \<le> 2 * 2 ^ 44" by (rule mult_left_mono [OF B]) simp
  finally have "of_nat n * (2 * V + 2) \<le> 2 ^ 45" by simp
  then have nd: "of_nat n * d \<le> 1 / 2 ^ 8 + of_nat n * t" by (simp add: d_def distrib_left)
  have p: "0 \<le> (1::rat) / 2 ^ 20" "(1::rat) / 2 ^ 20 \<le> 1" "(1::rat) / 2 ^ 8 + 1 / 2 ^ 20 \<le> 1"
    by simp_all
  have h2: "\<bar>0::rat\<bar> + (\<Sum>e\<leftarrow>xs. \<bar>amount e\<bar>) \<le> 2 * V + 1"
    using abs_as nt p V0 by (simp add: o_def)
  have h3: "0 + of_nat (length xs) * d \<le> 1" unfolding lenx using nd nt p by linarith
  have h4: "2 * V + 1 + 1 < f64_threshold" using V44 V0 by (simp add: f64_threshold_def)
  have h5: "(2 * V + 1 + 1) / 2 ^ 53 + 1 / 2 ^ 1075 \<le> d" by (simp add: d_def t_def)
  have h6: "0 \<le> d" using V0 t0 by (simp add: d_def)
  obtain r where r: "foldl (\<lambda>sum e. f64_add sum (Fin (amount e))) (Fin 0) xs = Fin r"
    and errS: "\<bar>r - (0 + (\<Sum>e\<leftarrow>xs. amount e))\<bar> \<le> 0 + of_nat (length xs) * d"
    using foldl_f64_add_error [OF _ h2 h3 h4 h5 h6, of 0] by auto
  have "\<bar>r - sum_list vs\<bar> \<le> \<bar>r - sum_list (map amount xs)\<bar> + \<bar>sum_list (map amount xs) - sum_list vs\<bar>"
    by linarith
  also have "\<dots> \<le> 1 / 2 ^ 8 + V / 2 ^ 53 + 2 * (of_nat n * t)"
    using errS nd sums lenx by simp
  finally show ?thesis using r by (simp add: week_total_f64_def V_def n_def t_def)
qed

section \<open>Properties\<close>

text \<open>
  C14: amounts and a weekly limit entered with at most two decimals, as the amount
  input's step requires, are stored as the nearest doubles, and the program's
  double-precision sum and comparison then decide the alert exactly as the entered
  decimals do, unless the amounts add up exactly to the limit (where \<open>float_total_alert_at_limit\<close> shows they may
  differ), for ledgers whose size and magnitudes keep
  \<open>(n + 2) * (|limit| + \<Sum>|amount| + 1) \<le> 2^44\<close>.
\<close>

theorem two_decimal_alert_exact:
  assumes amounts: "list_all2 (\<lambda>e v. Fin (amount e) = Number_f64 v) xs inputs"
    and limit: "Number_f64 txt = Fin L"
    and ok: "list_all (\<lambda>v. number_input_ok v \<and> Number_input v * 100 \<in> \<int>) (txt # inputs)"
    and small: "(of_nat (length inputs) + 2) *
                  (\<bar>Number_input txt\<bar> + (\<Sum>v\<leftarrow>inputs. \<bar>Number_input v\<bar>) + 1) \<le> 2 ^ 44"
    and ne: "(\<Sum>v\<leftarrow>inputs. Number_input v) \<noteq> Number_input txt"
  shows "exceeds_f64 xs L = (Number_input txt < (\<Sum>v\<leftarrow>inputs. Number_input v))"
proof -
  define vs where "vs = map Number_input inputs"
  define Lv where "Lv = Number_input txt"
  define S where "S = sum_list vs"
  define V where "V = sum_list (map abs vs)"
  define n where "n = length vs"
  have V: "V = (\<Sum>v\<leftarrow>inputs. \<bar>Number_input v\<bar>)" by (simp add: V_def vs_def o_def)
  have V0: "0 \<le> V" unfolding V_def by (induction vs) auto
  have B: "(of_nat n + 2) * (\<bar>Lv\<bar> + V + 1) \<le> 2 ^ 44" using small by (simp add: n_def vs_def Lv_def V)
  have "(of_nat n + 2) * (V + 1) \<le> (of_nat n + 2) * (\<bar>Lv\<bar> + V + 1)" by (intro mult_left_mono) simp_all
  then have "(of_nat n + 2) * (V + 1) \<le> 2 ^ 44" using B by linarith
  then have B': "(of_nat (length vs) + 2) * (sum_list (map abs vs) + 1) \<le> 2 ^ 44"
    by (simp only: n_def V_def)
  have "1 * (\<bar>Lv\<bar> + V + 1) \<le> (of_nat n + 2) * (\<bar>Lv\<bar> + V + 1)" using V0 by (intro mult_right_mono) simp_all
  then have "\<bar>Lv\<bar> + V + 1 \<le> (of_nat n + 2) * (\<bar>Lv\<bar> + V + 1)" by (simp only: mult_1_left)
  then have B1: "\<bar>Lv\<bar> + V + 1 \<le> 2 ^ 44" using B by linarith
  have "list_all number_input_ok inputs" and "V \<le> 2 ^ 44" using ok B1 V0 by (simp_all add: list_all_iff)
  then have rel: "list_all2 (\<lambda>a v. \<bar>a - v\<bar> \<le> \<bar>v\<bar> / 2 ^ 53 + 1 / 2 ^ 1075) (map amount xs) vs"
    unfolding vs_def using stored_inputs_error [OF amounts] V by simp
  obtain r where r: "week_total_f64 xs = Fin r"
    and errS: "\<bar>r - S\<bar> \<le> 1 / 2 ^ 8 + V / 2 ^ 53 + 2 * of_nat n / 2 ^ 1075"
    using week_total_f64_error [OF rel B'] by (auto simp: S_def V_def n_def)
  have "\<bar>Lv\<bar> < f64_threshold" using B1 V0 by (simp add: f64_threshold_def)
  then obtain L' where "f64_round Lv = Fin L'" and "\<bar>L' - Lv\<bar> \<le> \<bar>Lv\<bar> / 2 ^ 53 + 1 / 2 ^ 1075"
    using f64_round_error by blast
  then have errL: "\<bar>L - Lv\<bar> \<le> \<bar>Lv\<bar> / 2 ^ 53 + 1 / 2 ^ 1075"
    using limit ok by (simp add: Number_f64_def Lv_def)
  have "(of_nat n + 2) * 1 \<le> (of_nat n + 2) * (\<bar>Lv\<bar> + V + 1)" using V0 by (intro mult_left_mono) simp_all
  then have "of_nat n + 2 \<le> (of_nat n + 2) * (\<bar>Lv\<bar> + V + 1)" by (simp only: mult_1_right)
  then have n44: "of_nat n \<le> (2::rat) ^ 44" using B by linarith
  have "of_nat n * (1 / 2 ^ 1075) \<le> (2::rat) ^ 44 * (1 / 2 ^ 1075)"
    using n44 by (rule mult_right_mono) simp
  then have tiny: "(2 * of_nat n + 1) / 2 ^ 1075 \<le> (1::rat) / 2 ^ 20" by (simp add: divide_simps)
  have "\<bar>(r - L) - (S - Lv)\<bar> \<le> \<bar>r - S\<bar> + \<bar>L - Lv\<bar>" by linarith
  also have "\<dots> \<le> 1 / 2 ^ 8 + (V + \<bar>Lv\<bar>) / 2 ^ 53 + (2 * of_nat n + 1) / 2 ^ 1075"
    using errS errL by (simp add: add_divide_distrib)
  also have "\<dots> \<le> 1 / 2 ^ 8 + 1 / 2 ^ 9 + 1 / 2 ^ 20"
  proof -
    have a: "(V + \<bar>Lv\<bar>) / 2 ^ 53 \<le> 2 ^ 44 / 2 ^ 53" using B1 by (simp add: divide_right_mono)
    have e: "(2::rat) ^ 44 / 2 ^ 53 = 1 / 2 ^ 9" by simp
    show ?thesis using a e tiny by linarith
  qed
  finally have err: "\<bar>(r - L) - (S - Lv)\<bar> < 1 / 100" by simp
  have "list_all (\<lambda>v. v * 100 \<in> \<int>) vs" using ok by (simp add: vs_def list_all_iff)
  then have "S * 100 \<in> \<int>" unfolding S_def by (rule sum_cents)
  moreover have "Lv * 100 \<in> \<int>" using ok by (simp add: Lv_def)
  ultimately have "(S - Lv) * 100 \<in> \<int>" by (simp add: left_diff_distrib)
  moreover have "S - Lv \<noteq> 0" using ne by (simp add: S_def Lv_def vs_def)
  ultimately have gap: "1 / 100 \<le> \<bar>S - Lv\<bar>" by (rule cents_gap)
  have "(L < r) = (Lv < S)" using err gap by (auto simp: abs_if split: if_splits)
  then show ?thesis by (simp add: exceeds_f64_def r Lv_def S_def vs_def)
qed

theorem two_decimal_alert_exact_witness:
  "exceeds_f64 [\<lparr>expense_id = ''2'', amount = 1/4, category = ''Food'', date = ''2024-05-02'', description = []\<rparr>,
                \<lparr>expense_id = ''1'', amount = 3602879701896397 / 36028797018963968, category = ''Other'',
                 date = ''2024-05-01'', description = []\<rparr>]
     (5404319552844595 / 18014398509481984)"
proof -
  let ?xs = "[\<lparr>expense_id = ''2'', amount = 1/4, category = ''Food'', date = ''2024-05-02'', description = []\<rparr>,
              \<lparr>expense_id = ''1'', amount = 3602879701896397 / 36028797018963968 :: rat, category = ''Other'',
               date = ''2024-05-01'', description = []\<rparr>]"
  have n: "Number_input ''0.25'' = 1/4" "Number_input ''0.1'' = 1/10" "Number_input ''0.3'' = 3/10"
    by code_simp+
  have ok: "number_input_ok ''0.25''" "number_input_ok ''0.1''" "number_input_ok ''0.3''"
    by code_simp+
  have h1: "list_all2 (\<lambda>e v. Fin (amount e) = Number_f64 v) ?xs [''0.25'', ''0.1'']" by code_simp
  have h2: "Number_f64 ''0.3'' = Fin (5404319552844595 / 18014398509481984)" by code_simp
  have h3: "list_all (\<lambda>v. number_input_ok v \<and> Number_input v * 100 \<in> \<int>) (''0.3'' # [''0.25'', ''0.1''])"
    unfolding list.pred_inject n using ok by simp
  have h4: "(of_nat (length [''0.25'', ''0.1'']) + 2) *
      (\<bar>Number_input ''0.3''\<bar> + (\<Sum>v\<leftarrow>[''0.25'', ''0.1'']. \<bar>Number_input v\<bar>) + 1) \<le> (2::rat) ^ 44"
    by (simp add: n)
  have h5: "(\<Sum>v\<leftarrow>[''0.25'', ''0.1'']. Number_input v) \<noteq> Number_input ''0.3''" by (simp add: n)
  show ?thesis using two_decimal_alert_exact [OF h1 h2 h3 h4 h5] by (simp add: n)
qed


text \<open>
  C32: \<open>f64_round\<close> is IEEE 754 rounding to nearest: below the overflow threshold it
  gives a finite double and no double is closer to the exact value; from the threshold
  on it gives the infinity of the value's sign.
\<close>

theorem f64_round_spec:
  "(\<bar>q\<bar> < f64_threshold \<longrightarrow>
      (\<exists>r. f64_round q = Fin r \<and> representable r \<and>
           (\<forall>d. representable d \<longrightarrow> \<bar>r - q\<bar> \<le> \<bar>d - q\<bar>))) \<and>
   (f64_threshold \<le> \<bar>q\<bar> \<longrightarrow> f64_round q = (if 0 < q then PInf else NInf))"
proof (intro conjI impI)
  assume h: "\<bar>q\<bar> < f64_threshold"
  show "\<exists>r. f64_round q = Fin r \<and> representable r \<and> (\<forall>d. representable d \<longrightarrow> \<bar>r - q\<bar> \<le> \<bar>d - q\<bar>)"
  proof (cases "q = 0")
    case True
    then show ?thesis using representable_zero by (simp add: f64_round_def)
  next
    case False
    define e where "e = f64_exp q"
    define x where "x = q / power_int 2 e"
    define m where "m = round_even x"
    have no: "e \<le> 971 \<and> \<bar>m\<bar> \<le> 2 ^ 53 \<and> (e = 971 \<longrightarrow> \<bar>m\<bar> < 2 ^ 53)"
      unfolding e_def x_def m_def by (rule f64_round_no_overflow [OF False h])
    have "f64_round q = Fin (of_int m * power_int 2 e)"
      unfolding f64_round_def Let_def e_def [symmetric] x_def [symmetric] m_def [symmetric]
      by (simp only: if_not_P [OF False] if_not_P [OF no_overflow_cond [OF no]])
    moreover have "representable (of_int m * power_int 2 e)"
      using no f64_exp_ge [of q] by (intro representable_scaled) (simp_all add: e_def)
    moreover have "\<bar>of_int m * power_int 2 e - q\<bar> \<le> \<bar>d - q\<bar>" if "representable d" for d
    proof -
      have "\<bar>of_int m - x\<bar> \<le> \<bar>d / power_int 2 e - x\<bar>"
        using round_even_nearest_rep [OF that False] by (simp only: e_def x_def m_def)
      then have "power_int 2 e * \<bar>of_int m - x\<bar> \<le> power_int 2 e * \<bar>d / power_int 2 e - x\<bar>"
        by (simp add: mult_left_mono)
      then show ?thesis using scaled_dist [of "of_int m" e q] scaled_dist [of "d / power_int 2 e" e q]
        by (simp add: x_def)
    qed
    ultimately show ?thesis by blast
  qed
next
  assume "f64_threshold \<le> \<bar>q\<bar>"
  then show "f64_round q = (if 0 < q then PInf else NInf)"
    using f64_overflow_cond [of q] unfolding f64_round_def Let_def by (simp only: if_True if_False)
qed

theorem f64_round_spec_witness:
  "\<bar>1/10\<bar> < f64_threshold \<and> (\<exists>r. f64_round (1/10) = Fin r \<and> representable r \<and>
      (\<forall>d. representable d \<longrightarrow> \<bar>r - 1/10\<bar> \<le> \<bar>d - 1/10\<bar>))"
proof -
  have t: "\<bar>1/10\<bar> < f64_threshold" by (simp add: f64_threshold_def)
  then show ?thesis using f64_round_spec [of "1/10"] by blast
qed

text \<open>
  C33: the rounding error of a finite result is at most half a unit in the last place:
  relative \<open>2^-53\<close> for normal values, absolute \<open>2^-1075\<close> in the subnormal range.
\<close>

theorem f64_round_rel_error:
  assumes "f64_round q = Fin r"
  shows "\<bar>r - q\<bar> \<le> max (\<bar>q\<bar> / 2 ^ 53) (1 / 2 ^ 1075)"
proof (cases "q = 0")
  case True
  then show ?thesis using assms by (simp add: f64_round_def)
next
  case False
  define e where "e = f64_exp q"
  define x where "x = q / power_int 2 e"
  have r: "r = of_int (round_even x) * power_int 2 e"
    using assms False unfolding f64_round_def Let_def e_def [symmetric] x_def [symmetric]
    by (auto split: if_splits)
  have "\<bar>r - q\<bar> = power_int 2 e * \<bar>of_int (round_even x) - x\<bar>"
    by (simp only: r x_def scaled_dist)
  also have "\<dots> \<le> power_int 2 e * (1/2)"
    using round_even_half [of x] by (intro mult_left_mono) simp_all
  also have "\<dots> \<le> max (\<bar>q\<bar> / 2 ^ 53) (1 / 2 ^ 1075)"
    unfolding e_def by (rule half_ulp_bound [OF False])
  finally show ?thesis .
qed

theorem f64_round_rel_error_witness:
  "f64_round (1/10) = Fin (3602879701896397 / 36028797018963968) \<and>
   \<bar>3602879701896397 / 36028797018963968 - 1/10\<bar> \<le> max (\<bar>1/10\<bar> / 2 ^ 53) (1 / (2::rat) ^ 1075)"
proof -
  have r: "f64_round (1/10) = Fin (3602879701896397 / 36028797018963968)" by code_simp
  then show ?thesis using f64_round_rel_error [OF r] by simp
qed

text \<open>
  C34: while every amount is a whole number of rupees and the amounts' magnitudes add
  up to at most \<open>2^53\<close>, the double-precision \<^verbatim>\<open>reduce\<close> computes the exact total,
  so the limit check of \<^verbatim>\<open>addExpense\<close> decides as the exact model \<open>check_limit\<close> does.
\<close>

theorem week_total_f64_exact:
  assumes "\<forall>e\<in>set xs. amount e \<in> \<int>" and "(\<Sum>e\<leftarrow>xs. \<bar>amount e\<bar>) \<le> 2 ^ 53"
  shows "week_total_f64 xs = Fin (currentWeekTotal xs) \<and>
         exceeds_f64 xs (weeklyLimit st) = (check_limit xs st \<noteq> None)"
proof -
  have t: "week_total_f64 xs = Fin (currentWeekTotal xs)"
    unfolding week_total_f64_def currentWeekTotal_def
    using assms by (intro foldl_f64_add_int) simp_all
  then show ?thesis by (simp add: exceeds_f64_def check_limit_def)
qed

theorem week_total_f64_exact_witness:
  "week_total_f64 [\<lparr>expense_id = ''2'', amount = 250, category = ''Food'', date = ''2024-05-02'', description = []\<rparr>,
                   \<lparr>expense_id = ''1'', amount = 500, category = ''Other'', date = ''2024-05-01'', description = []\<rparr>] = Fin 750 \<and>
   \<not> exceeds_f64 [\<lparr>expense_id = ''2'', amount = 250, category = ''Food'', date = ''2024-05-02'', description = []\<rparr>,
                   \<lparr>expense_id = ''1'', amount = 500, category = ''Other'', date = ''2024-05-01'', description = []\<rparr>] 5000"
proof -
  let ?xs = "[\<lparr>expense_id = ''2'', amount = 250, category = ''Food'', date = ''2024-05-02'', description = []\<rparr>,
              \<lparr>expense_id = ''1'', amount = 500 :: rat, category = ''Other'', date = ''2024-05-01'', description = []\<rparr>]"
  have h1: "\<forall>e\<in>set ?xs. amount e \<in> \<int>" by simp
  have h2: "(\<Sum>e\<leftarrow>?xs. \<bar>amount e\<bar>) \<le> 2 ^ 53" by simp
  show ?thesis using week_total_f64_exact [OF h1 h2, of "\<lparr>weeklyLimit = 5000, phoneNumber = []\<rparr>"]
    by (simp add: currentWeekTotal_def check_limit_def)
qed

text \<open>
  The amounts 0.1 and 0.2 entered against a weekly limit of 0.3 raise the alert in
  the program, whose double-precision total is 0.30000000000000004, although the
  entered amounts add up exactly to the limit and the exact check stays silent.
\<close>

lemma float_total_alert_at_limit:
  "Number_f64 ''0.1'' = Fin (3602879701896397 / 36028797018963968) \<and>
   Number_f64 ''0.2'' = Fin (3602879701896397 / 18014398509481984) \<and>
   Number_f64 ''0.3'' = Fin (5404319552844595 / 18014398509481984) \<and>
   exceeds_f64 [x\<lparr>amount := 3602879701896397 / 18014398509481984\<rparr>, y\<lparr>amount := 3602879701896397 / 36028797018963968\<rparr>]
     (5404319552844595 / 18014398509481984) \<and>
   Number_input ''0.1'' + Number_input ''0.2'' = Number_input ''0.3'' \<and>
   check_limit [x\<lparr>amount := Number_input ''0.2''\<rparr>, y\<lparr>amount := Number_input ''0.1''\<rparr>]
     (st\<lparr>weeklyLimit := Number_input ''0.3''\<rparr>) = None"
proof (intro conjI)
  show "Number_f64 ''0.1'' = Fin (3602879701896397 / 36028797018963968)" by code_simp
  show "Number_f64 ''0.2'' = Fin (3602879701896397 / 18014398509481984)" by code_simp
  show "Number_f64 ''0.3'' = Fin (5404319552844595 / 18014398509481984)" by code_simp
  have "f64_less (Fin (5404319552844595 / 18014398509481984))
          (f64_add (f64_add (Fin 0) (Fin (3602879701896397 / 18014398509481984)))
             (Fin (3602879701896397 / 36028797018963968)))" by code_simp
  then show "exceeds_f64 [x\<lparr>amount := 3602879701896397 / 18014398509481984\<rparr>, y\<lparr>amount := 3602879701896397 / 36028797018963968\<rparr>]
     (5404319552844595 / 18014398509481984)"
    by (simp add: exceeds_f64_def week_total_f64_def del: f64_add.simps)
  have n: "Number_input ''0.1'' = 1/10" "Number_input ''0.2'' = 1/5" "Number_input ''0.3'' = 3/10"
    by code_simp+
  then show "Number_input ''0.1'' + Number_input ''0.2'' = Number_input ''0.3''" by simp
  show "check_limit [x\<lparr>amount := Number_input ''0.2''\<rparr>, y\<lparr>amount := Number_input ''0.1''\<rparr>]
     (st\<lparr>weeklyLimit := Number_input ''0.3''\<rparr>) = None"
    using n by (simp add: check_limit_def currentWeekTotal_def)
qed

end
