(* ===== verification/Tabs.thy ===== *)
theory Tabs
  imports Persistence
begin

text \<open>
  Two tabs of the application open on the same origin: each tab runs its own copy of
  the component state, and both read and write the one \<^verbatim>\<open>localStorage\<close>. A step is an
  event in one tab, handled by that tab's \<open>app_step\<close> on the shared storage; the other
  tab's state is untouched (the program has no \<^verbatim>\<open>storage\<close> event listener). The
  lemmas show that the storage always holds the whole ledger and settings of one tab,
  so the tab that saves last overwrites what the other tab added.
\<close>

section \<open>Two tabs sharing the storage\<close>

datatype tab = TabA | TabB

type_synonym tabs = "app_state \<times> app_state \<times> storage"

definition tab_state :: "tabs \<Rightarrow> tab \<Rightarrow> app_state" where
  "tab_state w t = (case t of TabA \<Rightarrow> fst w | TabB \<Rightarrow> fst (snd w))"

definition tab_step :: "ctx \<Rightarrow> tabs \<Rightarrow> tab \<Rightarrow> event \<Rightarrow> js_error + tabs" where
  "tab_step c w t ev =
     (case w of (a, b, st) \<Rightarrow>
        (case t of
           TabA \<Rightarrow> (case app_step c (a, st) ev of Inl e \<Rightarrow> Inl e | Inr (a', st') \<Rightarrow> Inr (a', b, st'))
         | TabB \<Rightarrow> (case app_step c (b, st) ev of Inl e \<Rightarrow> Inl e | Inr (b', st') \<Rightarrow> Inr (a, b', st'))))"

text \<open>
  The runs: a fresh install opens in the first tab, the second tab opens on the storage
  the first one has written, then events arrive in either tab in any order. Opening the
  second tab later is a \<open>Reload\<close> of it, so starting both at once loses no run.
\<close>

inductive reachable2 :: "tabs \<Rightarrow> bool" where
  open_both: "mount c empty_storage = Inr w1 \<Longrightarrow> mount c' (snd w1) = Inr w2
    \<Longrightarrow> reachable2 (fst w1, fst w2, snd w2)"
| step: "reachable2 w \<Longrightarrow> enabled c (tab_state w t) ev
    \<Longrightarrow> uuid c \<notin> expense_id ` set (expenses (tab_state w t))
    \<Longrightarrow> tab_step c w t ev = Inr w' \<Longrightarrow> reachable2 w'"

text \<open>A sequence of events, each in a named tab, with the context it runs in.\<close>

fun run2 :: "tabs \<Rightarrow> (tab \<times> ctx \<times> event) list \<Rightarrow> tabs option" where
  "run2 w [] = Some w"
| "run2 w ((t, c, ev) # evs) =
     (if enabled c (tab_state w t) ev \<and> uuid c \<notin> expense_id ` set (expenses (tab_state w t))
      then (case tab_step c w t ev of Inl e \<Rightarrow> None | Inr w' \<Rightarrow> run2 w' evs)
      else None)"

definition stores :: "storage \<Rightarrow> app_state \<Rightarrow> bool" where
  "stores st s \<longleftrightarrow> data_slot st = Written (expenses s) \<and> settings_slot st = Written (settings s)"

declare tab_state_def [eval_simps] tab_step_def [eval_simps] stores_def [eval_simps]

section \<open>Lemmas\<close>

lemma mount_stores:
  assumes "mount c st = Inr w"
  shows "stores (snd w) (fst w)"
proof -
  have "storage_ok st" by (rule mount_Inr_storage_ok [OF assms])
  then have "w = (loaded_state c st, save_effect (loaded_state c st) st)"
    using assms mount_ok [of st c] by simp
  then show ?thesis by (simp add: stores_def save_effect_def)
qed

lemma render_commit_stores:
  "stores (snd (render_commit s ups st)) (fst (render_commit s ups st))
   \<or> (snd (render_commit s ups st) = st \<and> save_deps (fst (render_commit s ups st)) = save_deps s)"
  by (auto simp: render_commit_def Let_def stores_def save_effect_def)

lemma app_step_stores:
  assumes "app_step c (s, st) ev = Inr w"
  shows "stores (snd w) (fst w) \<or> (snd w = st \<and> save_deps (fst w) = save_deps s)"
proof (cases "ev = ResetApp \<or> ev = Reload")
  case True
  then show ?thesis using assms mount_stores by (auto simp: app_step_def)
next
  case False
  then have "w = render_commit s (handle c s ev) st" using assms by (cases ev) (simp_all add: app_step_def)
  then show ?thesis using render_commit_stores [of s "handle c s ev" st] by simp
qed

lemma stores_same_deps: "stores st s \<Longrightarrow> save_deps s' = save_deps s \<Longrightarrow> stores st s'"
  by (simp add: stores_def save_deps_def)

lemma run2_reachable2: "reachable2 w \<Longrightarrow> run2 w evs = Some w' \<Longrightarrow> reachable2 w'"
proof (induction evs arbitrary: w)
  case Nil
  then show ?case by simp
next
  case (Cons x evs)
  obtain t c ev where x: "x = (t, c, ev)" by (cases x) blast
  show ?case
  proof (cases "tab_step c w t ev")
    case (Inl e)
    then show ?thesis using Cons.prems x by (simp split: if_splits)
  next
    case (Inr w1)
    then have "reachable2 w1" and "run2 w1 evs = Some w'"
      using Cons.prems x by (auto intro: reachable2.step split: if_splits)
    then show ?thesis by (rule Cons.IH)
  qed
qed

section \<open>Properties\<close>

text \<open>
  C35: with two tabs open, the storage holds at every moment the whole ledger and the
  settings of one of the two tabs: each save writes one tab's state over everything,
  never a merge, so what the other tab added since its last load is lost.
\<close>

theorem two_tabs_storage_one_tab:
  assumes "reachable2 w"
  shows "stores (snd (snd w)) (tab_state w TabA) \<or> stores (snd (snd w)) (tab_state w TabB)"
  using assms
proof (induction rule: reachable2.induct)
  case (open_both c w1 c' w2)
  then show ?case using mount_stores [OF open_both(2)] by (simp add: tab_state_def)
next
  case (step w c t ev w')
  obtain a b st where w: "w = (a, b, st)" by (cases w) auto
  have ih: "stores st a \<or> stores st b" using step.IH w by (simp add: tab_state_def)
  show ?case
  proof (cases t)
    case TabA
    then obtain a' st' where s: "app_step c (a, st) ev = Inr (a', st')" and w': "w' = (a', b, st')"
      using step.hyps(4) w by (auto simp: tab_step_def split: sum.splits)
    have "stores st' a' \<or> stores st' b"
      using app_step_stores [OF s] ih stores_same_deps [of st a a'] by auto
    then show ?thesis using w' by (simp add: tab_state_def)
  next
    case TabB
    then obtain b' st' where s: "app_step c (b, st) ev = Inr (b', st')" and w': "w' = (a, b', st')"
      using step.hyps(4) w by (auto simp: tab_step_def split: sum.splits)
    have "stores st' a \<or> stores st' b'"
      using app_step_stores [OF s] ih stores_same_deps [of st b b'] by auto
    then show ?thesis using w' by (simp add: tab_state_def)
  qed
qed

theorem two_tabs_storage_one_tab_witness:
  "let c = \<lambda>k u. \<lparr>now = \<lparr>year = 2024, month = 5, day = 10, msec = k\<rparr>, tz = 19800000, uuid = u\<rparr>;
       w1 = projr (mount (c 3600000 ''u1'') empty_storage);
       w2 = projr (mount (c 3600100 ''u2'') (snd w1));
       r = run2 (fst w1, fst w2, snd w2)
             [(TabA, c 3600200 ''u3'', Register \<lparr>name = ''Asha'', mobile = ''9876543210''\<rparr>),
              (TabB, c 3600300 ''u4'', Reload),
              (TabA, c 3600400 ''u5'', NavTo SCANNER),
              (TabA, c 3600500 ''u6'', AddExpense \<lparr>p_id = None, p_amount = Some 120, p_category = Some ''Food'',
                                               p_date = Some ''2024-05-10'', p_description = Some ''lunch''\<rparr>),
              (TabB, c 3600600 ''u7'', NavTo SCANNER),
              (TabB, c 3600700 ''u8'', AddExpense \<lparr>p_id = None, p_amount = Some 40, p_category = Some ''Transport'',
                                               p_date = Some ''2024-05-10'', p_description = Some ''bus''\<rparr>)]
   in r \<noteq> None \<and> reachable2 (the r)
      \<and> (stores (snd (snd (the r))) (tab_state (the r) TabA) \<or> stores (snd (snd (the r))) (tab_state (the r) TabB))
      \<and> map expense_id (expenses (tab_state (the r) TabA)) = [''u6'']
      \<and> data_slot (snd (snd (the r)))
          = Written [\<lparr>expense_id = ''u8'', amount = 40, category = ''Transport'', date = ''2024-05-10'', description = ''bus''\<rparr>]"
proof -
  let ?c = "\<lambda>k u. \<lparr>now = \<lparr>year = 2024, month = 5, day = 10, msec = k\<rparr>, tz = 19800000, uuid = u\<rparr>"
  let ?w1 = "projr (mount (?c 3600000 ''u1'') empty_storage)"
  let ?w2 = "projr (mount (?c 3600100 ''u2'') (snd ?w1))"
  let ?r = "run2 (fst ?w1, fst ?w2, snd ?w2)
             [(TabA, ?c 3600200 ''u3'', Register \<lparr>name = ''Asha'', mobile = ''9876543210''\<rparr>),
              (TabB, ?c 3600300 ''u4'', Reload),
              (TabA, ?c 3600400 ''u5'', NavTo SCANNER),
              (TabA, ?c 3600500 ''u6'', AddExpense \<lparr>p_id = None, p_amount = Some 120, p_category = Some ''Food'',
                                               p_date = Some ''2024-05-10'', p_description = Some ''lunch''\<rparr>),
              (TabB, ?c 3600600 ''u7'', NavTo SCANNER),
              (TabB, ?c 3600700 ''u8'', AddExpense \<lparr>p_id = None, p_amount = Some 40, p_category = Some ''Transport'',
                                               p_date = Some ''2024-05-10'', p_description = Some ''bus''\<rparr>)]"
  have m1: "mount (?c 3600000 ''u1'') empty_storage = Inr ?w1" by (simp add: eval_simps)
  have m2: "mount (?c 3600100 ''u2'') (snd ?w1) = Inr ?w2" by (simp add: eval_simps)
  have r0: "reachable2 (fst ?w1, fst ?w2, snd ?w2)" by (rule reachable2.open_both [OF m1 m2])
  have some: "?r \<noteq> None" by (simp add: eval_simps)
  then obtain w where w: "?r = Some w" by blast
  have r: "reachable2 (the ?r)" unfolding w option.sel by (rule run2_reachable2 [OF r0 w])
  have facts: "map expense_id (expenses (tab_state (the ?r) TabA)) = [''u6''] \<and>
      data_slot (snd (snd (the ?r)))
        = Written [\<lparr>expense_id = ''u8'', amount = 40, category = ''Transport'', date = ''2024-05-10'', description = ''bus''\<rparr>]"
    by (simp add: eval_simps)
  show ?thesis using some r two_tabs_storage_one_tab [OF r] facts by (simp only: Let_def) blast
qed

end
