(* ===== verification/Spec2Isabelle.thy ===== *)
theory Spec2Isabelle
  imports Runs Instants Float64 Tabs
begin

text \<open>
  \<^bold>\<open>A verification model of SpendWise (MONEY-EXPENSE-MONITORING-AI).\<close>

  \<^medskip>\<^bold>\<open>The program.\<close> A single React component \<^verbatim>\<open>App\<close> (\<^verbatim>\<open>src/App.tsx\<close>) keeps
  the whole application state in \<^verbatim>\<open>useState\<close> hooks: the user profile, the expense
  ledger, the settings (weekly limit and notification number), the active tab, the
  add-expense form and the pending notifications. Two effects connect it to
  \<^verbatim>\<open>localStorage\<close>: on mount a load effect reads the three keys of
  \<^verbatim>\<open>src/constants.ts\<close>, drops expenses older than two months and installs the
  values; a save effect writes profile, ledger and settings whenever one of them
  changes. Handlers register a profile, add an expense (from the form or from the
  bill scanner) and check the running total against the weekly limit, change the
  limit, dismiss notifications and reset the application. The data types are the
  interfaces of \<^verbatim>\<open>src/types.ts\<close>. Dates go through date-fns
  (\<^verbatim>\<open>parseISO\<close>, \<^verbatim>\<open>subMonths\<close>, \<^verbatim>\<open>isAfter\<close>) and \<^verbatim>\<open>Date.toISOString\<close>.

  \<^medskip>\<^bold>\<open>The theories.\<close>
  \<^item> \<open>Prelude\<close>: the type \<open>js_number\<close>, the collection \<open>eval_simps\<close> of
    definitions a witness unfolds to evaluate the model, decimal digit helpers
    (\<open>pad_digits\<close>, \<open>read_digits\<close>, their round trip) and list lemmas.
  \<^item> \<open>Types\<close>: the records \<open>user_profile\<close>, \<open>expense\<close>, \<open>app_settings\<close>,
    \<open>weekly_data\<close>, \<open>monthly_summary\<close>, \<open>partial_expense\<close> (\<^verbatim>\<open>Partial<Expense>\<close>),
    the datatype \<open>app_tab\<close>, and the constants of \<^verbatim>\<open>constants.ts\<close> with
    \<open>INDIAN_MOBILE_REGEX_test\<close> for \<^verbatim>\<open>/^[6-9]\d{9}$/\<close>.
  \<^item> \<open>Numbers\<close>: \<^verbatim>\<open>Number::toString\<close> as exact decimal printing
    (\<open>js_num_str\<close>, fuel 20 for the fraction's long division), the values a
    \<^verbatim>\<open>type="number"\<close> input reports (\<open>number_input_ok\<close>: empty, or an HTML valid
    floating-point number read by \<open>parse_float\<close>) and \<^verbatim>\<open>Number\<close> on them
    (\<open>Number_input\<close>). Lemmas: the printed text reads back as the number (C20), the
    fuel is enough for every number with at most 20 decimals (\<open>frac_digits_fuel_enough\<close>).
  \<^item> \<open>Dates\<close>: a \<^verbatim>\<open>Date\<close> as its local calendar fields (\<open>js_date\<close>), the local
    zone as a fixed offset \<open>tz\<close>; \<open>next_day\<close>, \<open>add_days\<close>, \<open>add_msec\<close> (a
    group action on valid dates), \<open>date_lt\<close>/\<open>isAfter\<close>, \<open>subMonths\<close> with
    date-fns' day clamping, \<open>toISOString\<close>, \<open>split_T_0\<close> and \<open>parseISO\<close> for
    the two shapes the program writes. Lemmas: validity is kept by every operation,
    \<open>subMonths\<close> goes strictly back, \<open>parseISO\<close> yields only valid dates, date
    strings round-trip (C15 to C17).
  \<^item> \<open>Ledger\<close>: the pure part of \<^verbatim>\<open>addExpense\<close> and of the load effect:
    JavaScript \<^verbatim>\<open>||\<close> on optional fields (\<open>num_or\<close>, \<open>str_or\<close>), the record
    \<open>full_expense\<close>, \<open>currentWeekTotal\<close> (the \<^verbatim>\<open>reduce\<close>), \<open>limit_alert\<close> and
    \<open>check_limit\<close>, and the retention filter \<open>keep_recent\<close>. Lemmas:
    retention soundness (C2), the non-monotone cutoff
    (\<open>retention_cutoff_not_monotone\<close>, a counterexample).
  \<^item> \<open>App\<close>: the component as a state machine. \<open>app_state\<close> holds the hooks; a
    handler returns the list of queued setter calls (\<open>update\<close>, with functional
    updates as functions), computed from the state of the render it belongs to;
    \<open>commit\<close> applies them in order; \<open>render_commit\<close> runs the save effect when
    \<^verbatim>\<open>[expenses, settings, user]\<close> changed; \<open>mount\<close> is first render, load effect,
    save effect of the first render, re-render. \<open>storage\<close> has one slot per key, a
    slot is absent, holds what the program wrote, or holds non-JSON text.
    \<open>event\<close> lists what the page offers, \<open>enabled\<close> when it offers it (the
    render's conditions, the overlay, the browser's validation of the amount and date
    inputs), \<open>app_step\<close> performs one event, \<open>reachable\<close> collects the states of
    runs from a fresh install. The two number inputs carry the text the browser
    reports and the handlers apply \<open>Number_input\<close>; the amount field shows
    \<open>amount_field_text\<close> and the browser's required/step check is made on that text.
    Lemmas: each handler's effect (C1, C9 to C13, C22), the check on the text is the
    check on the number (C21).
  \<^item> \<open>Persistence\<close>: \<open>loaded_state\<close>, the abstract load of the design, and
    \<open>synced\<close>; mounting refines the abstract load on storage without non-JSON text
    (\<open>mount_ok\<close>) and fails for good otherwise (C8).
  \<^item> \<open>Invariants\<close>: storage in step with the state, non-empty categories, distinct
    identifiers, consistent registration, no expense before registration, each kept by
    every enabled step and so true in every reachable state (C3, C5 to C7, C18); reload
    as a round trip through storage (C4).
  \<^item> \<open>Instants\<close>: the abstraction \<open>getTime\<close> from calendar fields to JavaScript time
    values (through \<open>day_number\<close>, Hinnant's day count from 1970-01-01). Lemmas:
    \<open>add_msec\<close> is addition of time values (C23), \<open>isAfter\<close> is their order (C24),
    valid dates and time values are in bijection (C25).
  \<^item> \<open>View\<close>: the render of \<^verbatim>\<open>App\<close> (lines 111-325) as a function \<open>render\<close> of the
    state into \<open>page\<close>: greeting, badge, the first notification, the tab content
    (the History rows with date-fns \<^verbatim>\<open>format(..., 'MMM d, yyyy')\<close> and
    \<^verbatim>\<open>toLocaleString('en-IN')\<close>, the settings panel values), the overlay's input
    values; \<open>Inl (RangeError ...)\<close> where \<^verbatim>\<open>format\<close> throws. Lemmas: when rendering
    fails (C26), that a run reaches the failure (C27) and a reload cures it (C28), the
    alert banner after an add (C29), the displayed amount reads back (C30).
  \<^item> \<open>Runs\<close>: \<open>offered\<close>, the events a rendered page offers (only a reload once
    rendering has thrown), and \<open>run\<close>, a list of such events. Lemma: from every
    reachable registered state a reset is at most three actions away (C31).
  \<^item> \<open>Float64\<close>: JavaScript numbers as IEEE 754 binary64 values (\<open>double\<close>: a finite
    double as the rational it denotes, the infinities, NaN). \<open>f64_round\<close> rounds an
    exact rational to the nearest double, ties to even, with subnormals and overflow;
    \<open>f64_add\<close> and \<open>f64_less\<close> are \<^verbatim>\<open>+\<close> and \<^verbatim>\<open><\<close>, \<open>Number_f64\<close> is \<^verbatim>\<open>Number\<close>
    on input text, \<open>week_total_f64\<close> and \<open>exceeds_f64\<close> are the \<^verbatim>\<open>reduce\<close> and the
    comparison of \<^verbatim>\<open>addExpense\<close> (lines 85-91) over doubles. Lemmas: the rounding
    meets the IEEE 754 round-to-nearest specification \<open>representable\<close> (C32), its
    error is half a unit in the last place (C33), whole-rupee ledgers below
    \<open>2^53\<close> are summed exactly, so the exact-rational model of the other theories
    decides the alert as the program does (C34); for amounts and limit entered with
    at most two decimals the program decides as the entered decimals do unless the
    amounts add up exactly to the limit (C14, through a forward error bound of the
    double-precision \<^verbatim>\<open>reduce\<close>), and at that tie it may not: 0.1 and 0.2 against a
    limit of 0.3 raise the alert (\<open>float_total_alert_at_limit\<close>, a counterexample).
  \<^item> \<open>Tabs\<close>: two tabs of the application on one storage (\<open>tab_step\<close> runs one tab's
    \<open>app_step\<close> on the shared storage, \<open>reachable2\<close> the interleaved runs,
    \<open>run2\<close> an explicit interleaving). Lemma: the storage always holds the whole
    ledger and settings of one tab (C35); the witness run loses an expense.
  \<^item> This theory: properties of whole runs (C19).

  \<^medskip>\<^bold>\<open>Environment and bounds.\<close> Each event receives a \<open>ctx\<close>: the current time
  (\<^verbatim>\<open>new Date()\<close>), the zone offset and the value of \<^verbatim>\<open>crypto.randomUUID()\<close>, which
  the reachable runs take to be fresh for the ledger. Days are moved by iterating
  \<open>next_day\<close> or \<open>prev_day\<close> (\<open>add_days\<close>); the program only shifts by the zone
  offset, at most two days. \<open>js_num_str\<close> prints at most 20 decimal places, which
  covers every amount a form can enter (the inputs step by 0.01); \<open>frac_digits_fuel_enough\<close> shows this fuel is
  enough for every number with at most 20 decimals. \<open>reachable\<close> lets events through
  after a render has thrown; this over-approximates the runs (its invariants hold a
  fortiori), while \<open>run\<close> of \<open>Runs\<close> follows the page exactly. Every finite double
  is \<open>m * 2^e\<close> with \<open>|m| < 2^53\<close> and \<open>-1074 \<le> e \<le> 971\<close>; \<open>f64_round\<close> finds
  \<open>e\<close> from the bit lengths of numerator and denominator (\<open>nbits\<close>, terminating
  by the measure of the integer), with no search.

  \<^medskip>\<^bold>\<open>Not modelled.\<close> The CSS classes, icons and the inline style block
  (lines 327-342), and the import lines; the child components
  \<^verbatim>\<open>Dashboard\<close>, \<^verbatim>\<open>BillScanner\<close>, \<^verbatim>\<open>ImageEditor\<close> and \<^verbatim>\<open>RegistrationForm\<close>,
  whose sources are not in the repository (the registration form is modelled from the
  design as the mobile-number check before \<^verbatim>\<open>handleRegister\<close>; the scanner only as
  the caller of \<^verbatim>\<open>onExpenseExtracted\<close> while its tab is shown). Outside
  \<open>Float64\<close> JavaScript numbers are exact rationals; \<open>Float64\<close> models the
  double-precision sum and comparison of the limit check and \<^verbatim>\<open>Number\<close> on input
  text, and C34 bounds where the exact model agrees with them. Not modelled:
  \<^verbatim>\<open>Number::toString\<close> of a double that is not a short exact decimal (its shortest
  round-trip form), negative zero (identified with zero), floating-point rounding in
  date-fns' seconds arithmetic, exponent notation in printing (and so \<^verbatim>\<open>Number\<close>
  of strings an input never reports), and \<^verbatim>\<open>Date\<close>'s range limit. JSON is abstracted: a written value reads back as itself,
  and text that is not JSON throws; stored JSON of the wrong shape is not modelled.
  \<^verbatim>\<open>parseISO\<close> is modelled for \<^verbatim>\<open>YYYY-MM-DD\<close> and
  \<^verbatim>\<open>YYYY-MM-DDTHH:mm:ss.sssZ\<close> with a four-digit year; the other formats date-fns
  accepts are read as invalid. Time zones are fixed offsets (no daylight saving).
  React's development-mode double effects are not modelled; of several tabs sharing
  the storage, two are modelled (\<open>Tabs\<close>).
\<close>

text \<open>
  C19: the design states that amounts are non-negative; the amount input has no
  \<^verbatim>\<open>min\<close>, so a registered user can record a negative amount through the form.
\<close>

theorem negative_amount_reachable:
  "\<exists>w e. reachable w \<and> e \<in> set (expenses (fst w)) \<and> amount e < 0"
  using demo_run_state by fastforce

end
